theory Spec2Isabelle
  imports Main "HOL-Library.Word"
begin

section \<open>The configuration set apply processor\<close>

text \<open>
  A shallow embedding of \<^verbatim>\<open>ConfigurationSetApplyProcessor.cpp\<close>. The processor object is a
  record that every member function takes and returns; a member function that can be left by the
  cancellation exception returns \<open>Inl OperationCancelled\<close> together with the object as it
  was mutated up to the throw. Calls into the external set processor and unit processor are
  answered by an environment and recorded in a call log. Telemetry is not modelled: it writes
  no field of the processor.
\<close>

subsection \<open>Result codes\<close>

type_synonym hresult = "32 word"

text \<open>The macro \<^verbatim>\<open>SUCCEEDED(hr)\<close> is \<^verbatim>\<open>((HRESULT)(hr)) >= 0\<close> on a signed 32-bit value.\<close>

definition SUCCEEDED :: "hresult \<Rightarrow> bool" where
  "SUCCEEDED hr = (0 \<le> sint hr)"

definition FAILED :: "hresult \<Rightarrow> bool" where
  "FAILED hr = (sint hr < 0)"

text \<open>
  Modelled from the spec: \<^verbatim>\<open>AppInstallerErrors.h\<close> and the Windows headers, which give the
  error taxonomy its numeric values, are not among the sources. The named kinds are hresult
  codes of the WinGet facility (\<^verbatim>\<open>0x8A15Cnnn\<close>) and of the system (\<^verbatim>\<open>0x8000nnnn\<close>);
  every theorem below uses them by name only.
\<close>

definition S_OK :: hresult where
  "S_OK = 0"

definition E_FAIL :: hresult where
  "E_FAIL = 0x80004005"

definition E_UNEXPECTED :: hresult where
  "E_UNEXPECTED = 0x8000FFFF"

definition WINGET_CONFIG_ERROR_SET_APPLY_FAILED :: hresult where
  "WINGET_CONFIG_ERROR_SET_APPLY_FAILED = 0x8A15C005"

definition WINGET_CONFIG_ERROR_DUPLICATE_IDENTIFIER :: hresult where
  "WINGET_CONFIG_ERROR_DUPLICATE_IDENTIFIER = 0x8A15C006"

definition WINGET_CONFIG_ERROR_MISSING_DEPENDENCY :: hresult where
  "WINGET_CONFIG_ERROR_MISSING_DEPENDENCY = 0x8A15C007"

definition WINGET_CONFIG_ERROR_DEPENDENCY_UNSATISFIED :: hresult where
  "WINGET_CONFIG_ERROR_DEPENDENCY_UNSATISFIED = 0x8A15C008"

definition WINGET_CONFIG_ERROR_ASSERTION_FAILED :: hresult where
  "WINGET_CONFIG_ERROR_ASSERTION_FAILED = 0x8A15C009"

definition WINGET_CONFIG_ERROR_MANUALLY_SKIPPED :: hresult where
  "WINGET_CONFIG_ERROR_MANUALLY_SKIPPED = 0x8A15C00A"

definition WINGET_CONFIG_ERROR_SET_DEPENDENCY_CYCLE :: hresult where
  "WINGET_CONFIG_ERROR_SET_DEPENDENCY_CYCLE = 0x8A15C00C"

subsection \<open>The data model\<close>

text \<open>
  Modelled from the spec: the enumerations and the projected runtime classes are declared in
  headers and interface files that are not among the sources. The intent has a fourth
  constructor for every value outside the three named ones, which is what the
  \<^verbatim>\<open>default:\<close> label of the switch in \<^verbatim>\<open>ProcessUnit\<close> receives.
\<close>

datatype ConfigurationUnitIntent = Assert | Inform | Apply | OtherIntent

datatype ConfigurationUnitState = Unknown | Pending | InProgress | Completed | Skipped

datatype ConfigurationSetState = SetPending | SetInProgress | SetCompleted

datatype ConfigurationTestResult = TestUnknown | Positive | Negative | Failed

datatype ConfigurationUnitResultSource =
  SourceNone | Internal | ConfigurationSet | UnitProcessing | SystemState | Precondition

record ConfigurationUnit =
  Identifier :: string
  Intent :: ConfigurationUnitIntent
  Dependencies :: "string list"
  ShouldApply :: bool

record ConfigurationUnitResultInformation =
  ResultCode :: hresult
  ResultSource :: ConfigurationUnitResultSource
  Details :: string

text \<open>
  \<^verbatim>\<open>UnitInfo\<close>: the unit, its \<^verbatim>\<open>Result\<close> object (state, previously-in-desired-state and
  reboot-required flags; its result information is the \<^verbatim>\<open>ResultInformation\<close> object below),
  the resolved dependencies and the two flags.
\<close>

record UnitInfo =
  Unit :: ConfigurationUnit
  Result_State :: ConfigurationUnitState
  Result_PreviouslyInDesiredState :: bool
  Result_RebootRequired :: bool
  ResultInformation :: ConfigurationUnitResultInformation
  DependencyIndices :: "nat list"
  PreProcessed :: bool
  Processed :: bool

text \<open>What \<^verbatim>\<open>m_progress.Progress\<close> receives: a set state, or a unit state with the unit's
  result information at that moment and the unit (by its index).\<close>

datatype ConfigurationSetChangeData =
  SetStateChange ConfigurationSetState
| UnitStateChange ConfigurationUnitState ConfigurationUnitResultInformation nat

datatype ProcessorCall =
  Call_CreateUnitProcessor nat
| Call_TestSettings nat
| Call_GetSettings nat
| Call_ApplySettings nat

datatype error = OperationCancelled

text \<open>
  The processor object. \<open>m_polls\<close> counts the calls of \<^verbatim>\<open>m_progress.ThrowIfCancelled\<close>,
  \<open>m_calls\<close> lists the calls made to the external processors, and \<open>m_writes\<close> lists every
  write of a unit's result code (unit index, code written) in the order of the writes; the
  three are a history that the source does not keep and no function reads.
\<close>

record ApplyProcessor =
  m_unitInfo :: "UnitInfo list"
  m_idToUnitInfoIndex :: "string \<rightharpoonup> nat"
  m_resultCode :: hresult
  m_events :: "ConfigurationSetChangeData list"
  m_polls :: nat
  m_calls :: "ProcessorCall list"
  m_writes :: "(nat \<times> hresult) list"

text \<open>
  The external collaborators. A unit is handed to them as an object; here it is named by its
  index. \<open>FoldCaseNormalized\<close> is \<^verbatim>\<open>FoldCase(NormalizedString{...})\<close>, whose source is not
  given. An exception of an external call is represented by the result information that
  \<^verbatim>\<open>ExtractUnitResultInformation\<close> (a helper whose source is not given either) stores for it.
  \<open>IsCancelled k\<close> is what the cancellation token answers at the poll number \<open>k\<close>, and
  \<open>CancelledInformation\<close> is the result information that \<^verbatim>\<open>ExtractUnitResultInformation\<close>
  stores for the exception of \<^verbatim>\<open>ThrowIfCancelled\<close>.
\<close>

record Environment =
  FoldCaseNormalized :: "string \<Rightarrow> string"
  CreateUnitProcessor :: "nat \<Rightarrow> ConfigurationUnitResultInformation option"
  TestSettings ::
    "nat \<Rightarrow> ConfigurationUnitResultInformation + (ConfigurationTestResult \<times> ConfigurationUnitResultInformation)"
  GetSettings :: "nat \<Rightarrow> ConfigurationUnitResultInformation + ConfigurationUnitResultInformation"
  ApplySettings ::
    "nat \<Rightarrow> ConfigurationUnitResultInformation + (ConfigurationUnitResultInformation \<times> bool)"
  IsCancelled :: "nat \<Rightarrow> bool"
  CancelledInformation :: ConfigurationUnitResultInformation

subsection \<open>Construction\<close>

definition GetNormalizedIdentifier :: "Environment \<Rightarrow> string \<Rightarrow> string" where
  "GetNormalizedIdentifier env identifier = FoldCaseNormalized env identifier"

definition NewUnitInfo :: "ConfigurationUnit \<Rightarrow> UnitInfo" where
  "NewUnitInfo u =
     \<lparr>Unit = u, Result_State = Unknown, Result_PreviouslyInDesiredState = False,
      Result_RebootRequired = False,
      ResultInformation = \<lparr>ResultCode = S_OK, ResultSource = SourceNone, Details = []\<rparr>,
      DependencyIndices = [], PreProcessed = False, Processed = False\<rparr>"

definition NewApplyProcessor :: "ConfigurationUnit list \<Rightarrow> ApplyProcessor" where
  "NewApplyProcessor units =
     \<lparr>m_unitInfo = map NewUnitInfo units, m_idToUnitInfoIndex = Map.empty, m_resultCode = S_OK,
      m_events = [], m_polls = 0, m_calls = [], m_writes = []\<rparr>"

subsection \<open>Result information and progress\<close>

definition updateUnitInfo :: "nat \<Rightarrow> (UnitInfo \<Rightarrow> UnitInfo) \<Rightarrow> ApplyProcessor \<Rightarrow> ApplyProcessor" where
  "updateUnitInfo i f p = p\<lparr>m_unitInfo := (m_unitInfo p)[i := f (m_unitInfo p ! i)]\<rparr>"

text \<open>\<^verbatim>\<open>ResultInformation->Initialize(code, source)\<close>: the code and the source are stored.\<close>

definition Initialize ::
  "hresult \<Rightarrow> ConfigurationUnitResultSource \<Rightarrow> nat \<Rightarrow> ApplyProcessor \<Rightarrow> ApplyProcessor" where
  "Initialize code source i p =
     (updateUnitInfo i
        (\<lambda>ui. ui\<lparr>ResultInformation := (ResultInformation ui)\<lparr>ResultCode := code, ResultSource := source\<rparr>\<rparr>) p)
       \<lparr>m_writes := m_writes p @ [(i, code)]\<rparr>"

text \<open>\<^verbatim>\<open>ResultInformation->Initialize(other)\<close>: the other result information is copied whole.
  \<^verbatim>\<open>ExtractUnitResultInformation\<close> stores the information of an exception the same way.\<close>

definition InitializeFrom ::
  "ConfigurationUnitResultInformation \<Rightarrow> nat \<Rightarrow> ApplyProcessor \<Rightarrow> ApplyProcessor" where
  "InitializeFrom other i p =
     (updateUnitInfo i (\<lambda>ui. ui\<lparr>ResultInformation := other\<rparr>) p)
       \<lparr>m_writes := m_writes p @ [(i, ResultCode other)]\<rparr>"

definition ExtractUnitResultInformation ::
  "ConfigurationUnitResultInformation \<Rightarrow> nat \<Rightarrow> ApplyProcessor \<Rightarrow> ApplyProcessor" where
  "ExtractUnitResultInformation exn i p = InitializeFrom exn i p"

definition SetDetails :: "string \<Rightarrow> nat \<Rightarrow> ApplyProcessor \<Rightarrow> ApplyProcessor" where
  "SetDetails d i p =
     updateUnitInfo i (\<lambda>ui. ui\<lparr>ResultInformation := (ResultInformation ui)\<lparr>Details := d\<rparr>\<rparr>) p"

definition SendProgressSet :: "ConfigurationSetState \<Rightarrow> ApplyProcessor \<Rightarrow> ApplyProcessor" where
  "SendProgressSet state p = p\<lparr>m_events := m_events p @ [SetStateChange state]\<rparr>"

definition SendProgress :: "ConfigurationUnitState \<Rightarrow> nat \<Rightarrow> ApplyProcessor \<Rightarrow> ApplyProcessor" where
  "SendProgress state i p =
     (let p' = updateUnitInfo i (\<lambda>ui. ui\<lparr>Result_State := state\<rparr>) p
      in p'\<lparr>m_events := m_events p' @ [UnitStateChange state (ResultInformation (m_unitInfo p' ! i)) i]\<rparr>)"

definition SendProgressIfNotComplete ::
  "ConfigurationUnitState \<Rightarrow> nat \<Rightarrow> ApplyProcessor \<Rightarrow> ApplyProcessor" where
  "SendProgressIfNotComplete state i p =
     (if Result_State (m_unitInfo p ! i) \<noteq> Completed then SendProgress state i p else p)"

definition ThrowIfCancelled :: "Environment \<Rightarrow> ApplyProcessor \<Rightarrow> (error + unit) \<times> ApplyProcessor" where
  "ThrowIfCancelled env p =
     (if IsCancelled env (m_polls p) then (Inl OperationCancelled, p\<lparr>m_polls := Suc (m_polls p)\<rparr>)
      else (Inr (), p\<lparr>m_polls := Suc (m_polls p)\<rparr>))"

definition recordCall :: "ProcessorCall \<Rightarrow> ApplyProcessor \<Rightarrow> ApplyProcessor" where
  "recordCall c p = p\<lparr>m_calls := m_calls p @ [c]\<rparr>"

subsection \<open>PreProcess: the identifier index and the dependency resolution\<close>

definition AddUnitToMap :: "Environment \<Rightarrow> nat \<Rightarrow> ApplyProcessor \<Rightarrow> bool \<times> ApplyProcessor" where
  "AddUnitToMap env unitInfoIndex p =
     (let originalIdentifier = Identifier (Unit (m_unitInfo p ! unitInfoIndex)) in
      if originalIdentifier = [] then (True, p)
      else
        let identifier = GetNormalizedIdentifier env originalIdentifier in
        case m_idToUnitInfoIndex p identifier of
          Some incumbent \<Rightarrow>
            (False,
             SendProgress Completed unitInfoIndex
               (Initialize WINGET_CONFIG_ERROR_DUPLICATE_IDENTIFIER ConfigurationSet unitInfoIndex
                 (SendProgressIfNotComplete Completed incumbent
                   (Initialize WINGET_CONFIG_ERROR_DUPLICATE_IDENTIFIER ConfigurationSet incumbent p))))
        | None \<Rightarrow>
            (True, p\<lparr>m_idToUnitInfoIndex := (m_idToUnitInfoIndex p)(identifier \<mapsto> unitInfoIndex)\<rparr>))"

text \<open>The first loop of \<^verbatim>\<open>PreProcess\<close>, over the unit indices, with its flag \<open>result\<close>.\<close>

fun addUnitsToMap :: "Environment \<Rightarrow> nat list \<Rightarrow> bool \<Rightarrow> ApplyProcessor \<Rightarrow> bool \<times> ApplyProcessor" where
  "addUnitsToMap env [] result p = (result, p)"
| "addUnitsToMap env (i # rest) result p =
     (case AddUnitToMap env i p of
        (ok, p') \<Rightarrow> addUnitsToMap env rest (if \<not> ok then False else result) p')"

text \<open>The inner loop over one unit's dependency strings; \<open>False\<close> when it was left by
  \<^verbatim>\<open>break\<close> on a missing dependency.\<close>

fun resolveDependencies ::
  "Environment \<Rightarrow> nat \<Rightarrow> string list \<Rightarrow> ApplyProcessor \<Rightarrow> bool \<times> ApplyProcessor" where
  "resolveDependencies env i [] p = (True, p)"
| "resolveDependencies env i (dependencyHstring # rest) p =
     (if dependencyHstring = [] then resolveDependencies env i rest p
      else
        case m_idToUnitInfoIndex p (GetNormalizedIdentifier env dependencyHstring) of
          None \<Rightarrow>
            (False,
             SendProgress Completed i
               (SetDetails dependencyHstring i
                 (Initialize WINGET_CONFIG_ERROR_MISSING_DEPENDENCY ConfigurationSet i p)))
        | Some k \<Rightarrow>
            resolveDependencies env i rest
              (updateUnitInfo i (\<lambda>ui. ui\<lparr>DependencyIndices := DependencyIndices ui @ [k]\<rparr>) p))"

text \<open>The second loop of \<^verbatim>\<open>PreProcess\<close>, over the units.\<close>

fun resolveUnits :: "Environment \<Rightarrow> nat list \<Rightarrow> bool \<Rightarrow> ApplyProcessor \<Rightarrow> bool \<times> ApplyProcessor" where
  "resolveUnits env [] result p = (result, p)"
| "resolveUnits env (i # rest) result p =
     (case resolveDependencies env i (Dependencies (Unit (m_unitInfo p ! i))) p of
        (ok, p') \<Rightarrow> resolveUnits env rest (if \<not> ok then False else result) p')"

subsection \<open>The scheduler\<close>

definition HasIntentAndSatisfiedDependencies ::
  "ApplyProcessor \<Rightarrow> UnitInfo \<Rightarrow> ConfigurationUnitIntent \<Rightarrow> (UnitInfo \<Rightarrow> bool) \<Rightarrow> bool" where
  "HasIntentAndSatisfiedDependencies p unitInfo intent checkDependencyFunction =
     (if Intent (Unit unitInfo) = intent
      then list_all (\<lambda>dependencyIndex. checkDependencyFunction (m_unitInfo p ! dependencyIndex))
             (DependencyIndices unitInfo)
      else False)"

definition HasPreprocessed :: "UnitInfo \<Rightarrow> bool" where
  "HasPreprocessed unitInfo = PreProcessed unitInfo"

definition MarkPreprocessed :: "nat \<Rightarrow> ApplyProcessor \<Rightarrow> (error + bool) \<times> ApplyProcessor" where
  "MarkPreprocessed i p = (Inr True, updateUnitInfo i (\<lambda>ui. ui\<lparr>PreProcessed := True\<rparr>) p)"

definition HasProcessedSuccessfully :: "UnitInfo \<Rightarrow> bool" where
  "HasProcessedSuccessfully unitInfo =
     (Processed unitInfo \<and> SUCCEEDED (ResultCode (ResultInformation unitInfo)))"

text \<open>
  The \<^verbatim>\<open>for\<close> loop inside the \<^verbatim>\<open>while\<close> loop of \<^verbatim>\<open>ProcessIntentInternal\<close>: the first
  candidate, front to back, that has the intent and satisfied dependencies, together with the
  candidate list as \<^verbatim>\<open>unitsToProcess.erase(itr)\<close> leaves it; \<open>None\<close> when the scan reaches the
  end.
\<close>

fun scanForReady ::
  "(UnitInfo \<Rightarrow> bool) \<Rightarrow> ConfigurationUnitIntent \<Rightarrow> ApplyProcessor \<Rightarrow> nat list \<Rightarrow> (nat \<times> nat list) option" where
  "scanForReady chk intent p [] = None"
| "scanForReady chk intent p (u # rest) =
     (if HasIntentAndSatisfiedDependencies p (m_unitInfo p ! u) intent chk then Some (u, rest)
      else (case scanForReady chk intent p rest of
              None \<Rightarrow> None
            | Some (v, rest') \<Rightarrow> Some (v, u # rest')))"

lemma scanForReady_length:
  "scanForReady chk intent p cands = Some (u, rest) \<Longrightarrow> length rest < length cands"
  by (induction cands arbitrary: u rest) (auto split: if_splits option.splits)

text \<open>The \<^verbatim>\<open>while (hasProcessed)\<close> loop, with its flag \<open>hasFailure\<close>. An exception of the
  process function leaves the loop.\<close>

function processReadyUnits ::
  "(UnitInfo \<Rightarrow> bool) \<Rightarrow> (nat \<Rightarrow> ApplyProcessor \<Rightarrow> (error + bool) \<times> ApplyProcessor) \<Rightarrow>
   ConfigurationUnitIntent \<Rightarrow> bool \<Rightarrow> nat list \<Rightarrow> ApplyProcessor \<Rightarrow>
   (error + bool) \<times> nat list \<times> ApplyProcessor" where
  "processReadyUnits chk processUnitFunction intent hasFailure unitsToProcess p =
     (case scanForReady chk intent p unitsToProcess of
        None \<Rightarrow> (Inr hasFailure, unitsToProcess, p)
      | Some (u, rest) \<Rightarrow>
          (case processUnitFunction u p of
             (Inl e, p') \<Rightarrow> (Inl e, unitsToProcess, p')
           | (Inr ok, p') \<Rightarrow>
               processReadyUnits chk processUnitFunction intent (if \<not> ok then True else hasFailure) rest p'))"
  by pat_completeness auto
termination
  by (relation "measure (\<lambda>(chk, f, intent, hasFailure, cands, p). length cands)")
     (auto dest: scanForReady_length)

declare processReadyUnits.simps [simp del]

text \<open>The loop that marks the remaining units of the intent; its flag is
  \<open>hasRemainingDependencies\<close>.\<close>

fun markRemaining ::
  "ConfigurationUnitIntent \<Rightarrow> bool \<Rightarrow> nat list \<Rightarrow> bool \<Rightarrow> ApplyProcessor \<Rightarrow> bool \<times> ApplyProcessor" where
  "markRemaining intent sendProgress [] hasRemainingDependencies p = (hasRemainingDependencies, p)"
| "markRemaining intent sendProgress (index # rest) hasRemainingDependencies p =
     (if Intent (Unit (m_unitInfo p ! index)) = intent
      then
        let p1 = Initialize WINGET_CONFIG_ERROR_DEPENDENCY_UNSATISFIED Precondition index p;
            p2 = (if sendProgress then SendProgress Skipped index p1 else p1)
        in markRemaining intent sendProgress rest True p2
      else markRemaining intent sendProgress rest hasRemainingDependencies p)"

text \<open>The loop that marks the units of the other intents after a failure.\<close>

fun markOtherIntents ::
  "ConfigurationUnitIntent \<Rightarrow> hresult \<Rightarrow> bool \<Rightarrow> nat list \<Rightarrow> ApplyProcessor \<Rightarrow> ApplyProcessor" where
  "markOtherIntents intent errorForOtherIntents sendProgress [] p = p"
| "markOtherIntents intent errorForOtherIntents sendProgress (index # rest) p =
     (if Intent (Unit (m_unitInfo p ! index)) \<noteq> intent
      then
        let p1 = Initialize errorForOtherIntents Precondition index p;
            p2 = (if sendProgress then SendProgress Skipped index p1 else p1)
        in markOtherIntents intent errorForOtherIntents sendProgress rest p2
      else markOtherIntents intent errorForOtherIntents sendProgress rest p)"

definition ProcessIntentInternal ::
  "nat list \<Rightarrow> (UnitInfo \<Rightarrow> bool) \<Rightarrow> (nat \<Rightarrow> ApplyProcessor \<Rightarrow> (error + bool) \<times> ApplyProcessor) \<Rightarrow>
   ConfigurationUnitIntent \<Rightarrow> hresult \<Rightarrow> hresult \<Rightarrow> bool \<Rightarrow> ApplyProcessor \<Rightarrow>
   (error + bool) \<times> nat list \<times> ApplyProcessor" where
  "ProcessIntentInternal unitsToProcess checkDependencyFunction processUnitFunction intent
       errorForOtherIntents errorForFailures sendProgress p =
     (case processReadyUnits checkDependencyFunction processUnitFunction intent False unitsToProcess p of
        (Inl e, remaining, p1) \<Rightarrow> (Inl e, remaining, p1)
      | (Inr hasFailure, remaining, p1) \<Rightarrow>
          (case markRemaining intent sendProgress remaining False p1 of
             (hasRemainingDependencies, p2) \<Rightarrow>
               if hasFailure \<or> hasRemainingDependencies
               then
                 let p3 = markOtherIntents intent errorForOtherIntents sendProgress remaining p2
                 in (Inr False, remaining,
                     p3\<lparr>m_resultCode :=
                          (if hasFailure then errorForFailures
                           else WINGET_CONFIG_ERROR_DEPENDENCY_UNSATISFIED)\<rparr>)
               else (Inr True, remaining, p2)))"

definition ProcessInternal ::
  "(UnitInfo \<Rightarrow> bool) \<Rightarrow> (nat \<Rightarrow> ApplyProcessor \<Rightarrow> (error + bool) \<times> ApplyProcessor) \<Rightarrow> bool \<Rightarrow>
   ApplyProcessor \<Rightarrow> (error + bool) \<times> ApplyProcessor" where
  "ProcessInternal checkDependencyFunction processUnitFunction sendProgress p =
     (let unitsToProcess = [0 ..< length (m_unitInfo p)] in
      case ProcessIntentInternal unitsToProcess checkDependencyFunction processUnitFunction Assert
             WINGET_CONFIG_ERROR_ASSERTION_FAILED WINGET_CONFIG_ERROR_ASSERTION_FAILED sendProgress p of
        (Inl e, _, p1) \<Rightarrow> (Inl e, p1)
      | (Inr False, _, p1) \<Rightarrow> (Inr False, p1)
      | (Inr True, afterAssert, p1) \<Rightarrow>
          (case ProcessIntentInternal afterAssert checkDependencyFunction processUnitFunction Inform
                  WINGET_CONFIG_ERROR_DEPENDENCY_UNSATISFIED WINGET_CONFIG_ERROR_DEPENDENCY_UNSATISFIED
                  sendProgress p1 of
             (Inl e, _, p2) \<Rightarrow> (Inl e, p2)
           | (Inr False, _, p2) \<Rightarrow> (Inr False, p2)
           | (Inr True, afterInform, p2) \<Rightarrow>
               (case ProcessIntentInternal afterInform checkDependencyFunction processUnitFunction Apply
                       E_FAIL WINGET_CONFIG_ERROR_SET_APPLY_FAILED sendProgress p2 of
                  (r, _, p3) \<Rightarrow> (r, p3))))"

definition PreProcess :: "Environment \<Rightarrow> ApplyProcessor \<Rightarrow> (error + bool) \<times> ApplyProcessor" where
  "PreProcess env p =
     (case addUnitsToMap env [0 ..< length (m_unitInfo p)] True p of
        (False, p1) \<Rightarrow> (Inr False, p1\<lparr>m_resultCode := WINGET_CONFIG_ERROR_DUPLICATE_IDENTIFIER\<rparr>)
      | (True, p1) \<Rightarrow>
          (case resolveUnits env [0 ..< length (m_unitInfo p1)] True p1 of
             (False, p2) \<Rightarrow> (Inr False, p2\<lparr>m_resultCode := WINGET_CONFIG_ERROR_MISSING_DEPENDENCY\<rparr>)
           | (True, p2) \<Rightarrow>
               (case ProcessInternal HasPreprocessed MarkPreprocessed False p2 of
                  (Inl e, p3) \<Rightarrow> (Inl e, p3)
                | (Inr False, p3) \<Rightarrow>
                    (Inr False, p3\<lparr>m_resultCode := WINGET_CONFIG_ERROR_SET_DEPENDENCY_CYCLE\<rparr>)
                | (Inr True, p3) \<Rightarrow> (Inr True, p3))))"

subsection \<open>The unit executor\<close>

text \<open>The three named cases of the switch on the intent, inside the \<^verbatim>\<open>try\<close> block. Each
  returns the local \<open>result\<close>; an exception of the unit processor is caught by
  \<^verbatim>\<open>catch (...)\<close> and its information stored. The cancellation poll before
  \<^verbatim>\<open>ApplySettings\<close> is inside the same \<^verbatim>\<open>try\<close> block: its exception is caught and stored
  too, and \<open>result\<close> stays false.\<close>

definition ProcessUnit_Assert :: "Environment \<Rightarrow> nat \<Rightarrow> ApplyProcessor \<Rightarrow> (error + bool) \<times> ApplyProcessor" where
  "ProcessUnit_Assert env i p =
     (let p1 = recordCall (Call_TestSettings i) p in
      case TestSettings env i of
        Inl exn \<Rightarrow> (Inr False, ExtractUnitResultInformation exn i p1)
      | Inr (testResult, info) \<Rightarrow>
          if testResult = Positive then (Inr True, p1)
          else if testResult = Negative
          then (Inr False, Initialize WINGET_CONFIG_ERROR_ASSERTION_FAILED Precondition i p1)
          else if testResult = Failed then (Inr False, InitializeFrom info i p1)
          else (Inr False, Initialize E_UNEXPECTED Internal i p1))"

definition ProcessUnit_Inform :: "Environment \<Rightarrow> nat \<Rightarrow> ApplyProcessor \<Rightarrow> (error + bool) \<times> ApplyProcessor" where
  "ProcessUnit_Inform env i p =
     (let p1 = recordCall (Call_GetSettings i) p in
      case GetSettings env i of
        Inl exn \<Rightarrow> (Inr False, ExtractUnitResultInformation exn i p1)
      | Inr info \<Rightarrow>
          if SUCCEEDED (ResultCode info) then (Inr True, p1)
          else (Inr False, InitializeFrom info i p1))"

definition ProcessUnit_Apply :: "Environment \<Rightarrow> nat \<Rightarrow> ApplyProcessor \<Rightarrow> (error + bool) \<times> ApplyProcessor" where
  "ProcessUnit_Apply env i p =
     (let p1 = recordCall (Call_TestSettings i) p in
      case TestSettings env i of
        Inl exn \<Rightarrow> (Inr False, ExtractUnitResultInformation exn i p1)
      | Inr (testResult, testInfo) \<Rightarrow>
          if testResult = Positive
          then (Inr True, updateUnitInfo i (\<lambda>ui. ui\<lparr>Result_PreviouslyInDesiredState := True\<rparr>) p1)
          else if testResult = Negative
          then
            (case ThrowIfCancelled env p1 of
               (Inl e, p2) \<Rightarrow> (Inr False, ExtractUnitResultInformation (CancelledInformation env) i p2)
             | (Inr _, p2) \<Rightarrow>
                 (let p3 = recordCall (Call_ApplySettings i) p2 in
                  case ApplySettings env i of
                    Inl exn \<Rightarrow> (Inr False, ExtractUnitResultInformation exn i p3)
                  | Inr (applyInfo, rebootRequired) \<Rightarrow>
                      if SUCCEEDED (ResultCode applyInfo)
                      then (Inr True, updateUnitInfo i (\<lambda>ui. ui\<lparr>Result_RebootRequired := rebootRequired\<rparr>) p3)
                      else (Inr False, InitializeFrom applyInfo i p3)))
          else if testResult = Failed then (Inr False, InitializeFrom testInfo i p1)
          else (Inr False, Initialize E_UNEXPECTED Internal i p1))"

text \<open>\<^verbatim>\<open>ProcessUnit\<close> from the creation of the unit processor on: what runs between the
  \<^verbatim>\<open>InProgress\<close> event and the \<^verbatim>\<open>Completed\<close> event of the scope exit.\<close>

definition ProcessUnit_Run :: "Environment \<Rightarrow> nat \<Rightarrow> ApplyProcessor \<Rightarrow> (error + bool) \<times> ApplyProcessor" where
  "ProcessUnit_Run env i p =
     (let p1 = recordCall (Call_CreateUnitProcessor i) p in
      case CreateUnitProcessor env i of
        Some exn \<Rightarrow> (Inr False, ExtractUnitResultInformation exn i p1)
      | None \<Rightarrow>
          (case ThrowIfCancelled env p1 of
             (Inl e, p2) \<Rightarrow> (Inl e, p2)
           | (Inr _, p2) \<Rightarrow>
               (case Intent (Unit (m_unitInfo p2 ! i)) of
                  Assert \<Rightarrow> ProcessUnit_Assert env i p2
                | Inform \<Rightarrow> ProcessUnit_Inform env i p2
                | Apply \<Rightarrow> ProcessUnit_Apply env i p2
                | OtherIntent \<Rightarrow> (Inr False, Initialize E_UNEXPECTED Internal i p2))))"

definition ProcessUnit :: "Environment \<Rightarrow> nat \<Rightarrow> ApplyProcessor \<Rightarrow> (error + bool) \<times> ApplyProcessor" where
  "ProcessUnit env i p =
     (case ThrowIfCancelled env p of
        (Inl e, p1) \<Rightarrow> (Inl e, p1)
      | (Inr _, p1) \<Rightarrow>
          (let p2 = updateUnitInfo i (\<lambda>ui. ui\<lparr>Processed := True\<rparr>) p1 in
           if \<not> ShouldApply (Unit (m_unitInfo p2 ! i))
           then (Inr True,
                 SendProgress Skipped i
                   (Initialize WINGET_CONFIG_ERROR_MANUALLY_SKIPPED Precondition i p2))
           else
             (case ProcessUnit_Run env i (SendProgress InProgress i p2) of
                (r, p3) \<Rightarrow> (r, SendProgress Completed i p3))))"

subsection \<open>Process\<close>

definition Process :: "Environment \<Rightarrow> ApplyProcessor \<Rightarrow> (error + unit) \<times> ApplyProcessor" where
  "Process env p =
     (case PreProcess env p of
        (Inl e, p1) \<Rightarrow> (Inl e, p1)
      | (Inr True, p1) \<Rightarrow>
          (case ProcessInternal HasProcessedSuccessfully (ProcessUnit env) True
                  (SendProgressSet SetInProgress p1) of
             (Inl e, p2) \<Rightarrow> (Inl e, p2)
           | (Inr _, p2) \<Rightarrow> (Inr (), SendProgressSet SetCompleted p2))
      | (Inr False, p1) \<Rightarrow> (Inr (), SendProgressSet SetCompleted p1))"

subsection \<open>Auxiliary definitions\<close>

text \<open>The processor as \<^verbatim>\<open>ProcessUnit\<close> has made it when the unit processor has been
  created and the second cancellation poll has passed.\<close>

definition enterUnit :: "nat \<Rightarrow> ApplyProcessor \<Rightarrow> ApplyProcessor" where
  "enterUnit i p =
     (recordCall (Call_CreateUnitProcessor i)
        (SendProgress InProgress i
           (updateUnitInfo i (\<lambda>ui. ui\<lparr>Processed := True\<rparr>) (p\<lparr>m_polls := Suc (m_polls p)\<rparr>))))
       \<lparr>m_polls := Suc (Suc (m_polls p))\<rparr>"

text \<open>An environment for examples: identifiers are compared as they are, every unit processor
  is created, \<^verbatim>\<open>TestSettings\<close> answers the given test result, the other calls succeed, and
  the operation is never cancelled. \<open>cancelledInformation\<close> is an example of what is stored for
  the cancellation exception: a failure code with source \<open>Internal\<close>.\<close>

definition cancelledInformation :: ConfigurationUnitResultInformation where
  "cancelledInformation = \<lparr>ResultCode = 0x800704C7, ResultSource = Internal, Details = []\<rparr>"

definition okInformation :: ConfigurationUnitResultInformation where
  "okInformation = \<lparr>ResultCode = S_OK, ResultSource = SourceNone, Details = []\<rparr>"

definition testEnvironment :: "ConfigurationTestResult \<Rightarrow> Environment" where
  "testEnvironment testResult =
     \<lparr>FoldCaseNormalized = (\<lambda>s. s), CreateUnitProcessor = (\<lambda>_. None),
      TestSettings = (\<lambda>_. Inr (testResult, okInformation)),
      GetSettings = (\<lambda>_. Inr okInformation),
      ApplySettings = (\<lambda>_. Inr (okInformation, True)),
      IsCancelled = (\<lambda>_. False), CancelledInformation = cancelledInformation\<rparr>"

text \<open>What processing the unit \<open>u\<close> leaves as it was: every other unit, the unit's own
  input, resolved dependencies and preprocessed flag, the identifier index and the set result
  code.\<close>

definition unitFrame :: "nat \<Rightarrow> ApplyProcessor \<Rightarrow> ApplyProcessor \<Rightarrow> bool" where
  "unitFrame u p p' =
     (length (m_unitInfo p') = length (m_unitInfo p) \<and>
      (\<forall>j. j \<noteq> u \<longrightarrow> m_unitInfo p' ! j = m_unitInfo p ! j) \<and>
      Unit (m_unitInfo p' ! u) = Unit (m_unitInfo p ! u) \<and>
      DependencyIndices (m_unitInfo p' ! u) = DependencyIndices (m_unitInfo p ! u) \<and>
      PreProcessed (m_unitInfo p' ! u) = PreProcessed (m_unitInfo p ! u) \<and>
      m_idToUnitInfoIndex p' = m_idToUnitInfoIndex p \<and>
      m_resultCode p' = m_resultCode p)"

text \<open>The processor once \<^verbatim>\<open>ProcessUnit\<close> has passed its first cancellation poll and set
  the processed flag.\<close>

definition committed :: "Environment \<Rightarrow> nat \<Rightarrow> ApplyProcessor \<Rightarrow> ApplyProcessor" where
  "committed env u p = updateUnitInfo u (\<lambda>ui. ui\<lparr>Processed := True\<rparr>) (snd (ThrowIfCancelled env p))"

text \<open>The body of the two marking loops for one unit.\<close>

definition markOne :: "hresult \<Rightarrow> bool \<Rightarrow> nat \<Rightarrow> ApplyProcessor \<Rightarrow> ApplyProcessor" where
  "markOne code sendProgress index p =
     (let p1 = Initialize code Precondition index p
      in if sendProgress then SendProgress Skipped index p1 else p1)"

text \<open>What a marked unit looks like.\<close>

definition marked :: "hresult \<Rightarrow> bool \<Rightarrow> string \<Rightarrow> nat \<Rightarrow> ApplyProcessor \<Rightarrow> bool" where
  "marked code sp details u p =
     (ResultInformation (m_unitInfo p ! u) =
        \<lparr>ResultCode = code, ResultSource = Precondition, Details = details\<rparr> \<and>
      (sp \<longrightarrow> Result_State (m_unitInfo p ! u) = Skipped \<and>
         UnitStateChange Skipped \<lparr>ResultCode = code, ResultSource = Precondition, Details = details\<rparr> u
           \<in> set (m_events p)))"

text \<open>The sets of the scenarios: G and H (an assertion and an apply unit that depends on it),
  S and T (an apply unit that is not to be applied and one that depends on it).\<close>

definition unitsGH :: "ConfigurationUnit list" where
  "unitsGH = [\<lparr>Identifier = ''G'', Intent = Assert, Dependencies = [], ShouldApply = True\<rparr>,
              \<lparr>Identifier = ''H'', Intent = Apply, Dependencies = [''G''], ShouldApply = True\<rparr>]"


text \<open>The processor for G and H when the real run starts.\<close>

definition startedGH :: ApplyProcessor where
  "startedGH =
     SendProgressSet SetInProgress (snd (PreProcess (testEnvironment Negative) (NewApplyProcessor unitsGH)))"

text \<open>Three apply units of which the first waits for the third.\<close>

definition threeUnits :: ApplyProcessor where
  "threeUnits =
     updateUnitInfo 0 (\<lambda>ui. ui\<lparr>DependencyIndices := [2]\<rparr>)
       (NewApplyProcessor
          [\<lparr>Identifier = ''a'', Intent = Apply, Dependencies = [''c''], ShouldApply = True\<rparr>,
           \<lparr>Identifier = ''b'', Intent = Apply, Dependencies = [], ShouldApply = True\<rparr>,
           \<lparr>Identifier = ''c'', Intent = Apply, Dependencies = [], ShouldApply = True\<rparr>])"

text \<open>The single writes to the processor that the member functions are made of. An update of
  a unit info that is not one of the named operations leaves the unit and its result
  information as they are.\<close>

inductive primStep :: "ApplyProcessor \<Rightarrow> ApplyProcessor \<Rightarrow> bool" where
  ps_update: "(\<And>ui. Unit (f ui) = Unit ui \<and> ResultInformation (f ui) = ResultInformation ui) \<Longrightarrow>
      primStep p (updateUnitInfo i f p)"
| ps_Initialize: "primStep p (Initialize c s i p)"
| ps_InitializeFrom: "primStep p (InitializeFrom info i p)"
| ps_SetDetails: "primStep p (SetDetails d i p)"
| ps_SendProgress: "primStep p (SendProgress st i p)"
| ps_SendProgressSet: "primStep p (SendProgressSet ss p)"
| ps_recordCall: "primStep p (recordCall cl p)"
| ps_polls: "primStep p (p\<lparr>m_polls := n\<rparr>)"
| ps_index: "primStep p (p\<lparr>m_idToUnitInfoIndex := m\<rparr>)"
| ps_resultCode: "primStep p (p\<lparr>m_resultCode := c\<rparr>)"

text \<open>The last code written for a unit, \<open>S_OK\<close> when none was.\<close>

fun lastWritten :: "nat \<Rightarrow> (nat \<times> hresult) list \<Rightarrow> hresult" where
  "lastWritten j [] = S_OK"
| "lastWritten j ((i, c) # ws) =
     (if j \<in> fst ` set ws then lastWritten j ws else if i = j then c else S_OK)"

definition codesFollowWrites :: "ApplyProcessor \<Rightarrow> bool" where
  "codesFollowWrites p =
     (\<forall>j < length (m_unitInfo p).
        ResultCode (ResultInformation (m_unitInfo p ! j)) = lastWritten j (m_writes p))"

definition sameUnits :: "ApplyProcessor \<Rightarrow> ApplyProcessor \<Rightarrow> bool" where
  "sameUnits p p' =
     (length (m_unitInfo p') = length (m_unitInfo p) \<and>
      (\<forall>j. Unit (m_unitInfo p' ! j) = Unit (m_unitInfo p ! j)))"

text \<open>Every processed unit has one of the three named intents.\<close>

definition processedHaveNamedIntent :: "ApplyProcessor \<Rightarrow> bool" where
  "processedHaveNamedIntent p =
     (\<forall>j < length (m_unitInfo p).
        Processed (m_unitInfo p ! j) \<longrightarrow> Intent (Unit (m_unitInfo p ! j)) \<noteq> OtherIntent)"

text \<open>A process function that differs from \<^verbatim>\<open>ProcessUnit\<close> on the units of another intent
  only, and a set with such a unit.\<close>

definition otherwiseProcessUnit :: "Environment \<Rightarrow> nat \<Rightarrow> ApplyProcessor \<Rightarrow> (error + bool) \<times> ApplyProcessor" where
  "otherwiseProcessUnit env u p =
     (if Intent (Unit (m_unitInfo p ! u)) = OtherIntent then (Inr True, p) else ProcessUnit env u p)"

definition unitsWithOtherIntent :: "ConfigurationUnit list" where
  "unitsWithOtherIntent =
     [\<lparr>Identifier = ''o'', Intent = OtherIntent, Dependencies = [], ShouldApply = True\<rparr>,
      \<lparr>Identifier = ''a'', Intent = Apply, Dependencies = [], ShouldApply = True\<rparr>]"

text \<open>Every unit that is not a candidate any more is in a terminal state.\<close>

definition terminalOutside :: "nat list \<Rightarrow> ApplyProcessor \<Rightarrow> bool" where
  "terminalOutside cands p =
     (\<forall>j < length (m_unitInfo p). j \<notin> set cands \<longrightarrow>
        Result_State (m_unitInfo p ! j) = Completed \<or> Result_State (m_unitInfo p ! j) = Skipped)"

text \<open>The set of the cycle scenario: P and Q depend on each other.\<close>

definition unitsPQ :: "ConfigurationUnit list" where
  "unitsPQ = [\<lparr>Identifier = ''P'', Intent = Apply, Dependencies = [''Q''], ShouldApply = True\<rparr>,
              \<lparr>Identifier = ''Q'', Intent = Apply, Dependencies = [''P''], ShouldApply = True\<rparr>]"

text \<open>The set of the first scenario: A, and B that depends on it.\<close>

definition unitsAB :: "ConfigurationUnit list" where
  "unitsAB = [\<lparr>Identifier = ''A'', Intent = Apply, Dependencies = [], ShouldApply = True\<rparr>,
              \<lparr>Identifier = ''B'', Intent = Apply, Dependencies = [''A''], ShouldApply = True\<rparr>]"

text \<open>A processing of the unit \<open>u\<close> writes its result code at most once, and no other unit's.\<close>

definition writesAtMostOnce :: "nat \<Rightarrow> ApplyProcessor \<Rightarrow> ApplyProcessor \<Rightarrow> bool" where
  "writesAtMostOnce u p p' =
     (m_writes p' = m_writes p \<or> (\<exists>c. m_writes p' = m_writes p @ [(u, c)]))"

text \<open>The candidates are distinct, no unit was written twice, and no candidate was written.\<close>

definition unwrittenCandidates :: "nat list \<Rightarrow> ApplyProcessor \<Rightarrow> bool" where
  "unwrittenCandidates cands p =
     (distinct cands \<and> distinct (map fst (m_writes p)) \<and>
      (\<forall>w \<in> set (m_writes p). fst w \<notin> set cands))"

text \<open>The result codes written between two processors are all failures.\<close>

definition failuresWritten :: "ApplyProcessor \<Rightarrow> ApplyProcessor \<Rightarrow> bool" where
  "failuresWritten p p' =
     (\<exists>ws. m_writes p' = m_writes p @ ws \<and> (\<forall>w \<in> set ws. \<not> SUCCEEDED (snd w)))"

text \<open>Nothing but the identifier index differs between two processors.\<close>

definition onlyIndexChanged :: "ApplyProcessor \<Rightarrow> ApplyProcessor \<Rightarrow> bool" where
  "onlyIndexChanged p p' =
     (m_unitInfo p' = m_unitInfo p \<and> m_resultCode p' = m_resultCode p \<and> m_events p' = m_events p \<and>
      m_polls p' = m_polls p \<and> m_calls p' = m_calls p \<and> m_writes p' = m_writes p)"

text \<open>Three units with the same identifier.\<close>

definition unitsDup3 :: "ConfigurationUnit list" where
  "unitsDup3 = [\<lparr>Identifier = ''dup'', Intent = Apply, Dependencies = [], ShouldApply = True\<rparr>,
                \<lparr>Identifier = ''dup'', Intent = Apply, Dependencies = [], ShouldApply = True\<rparr>,
                \<lparr>Identifier = ''dup'', Intent = Apply, Dependencies = [], ShouldApply = True\<rparr>]"

text \<open>What the dependency resolution of the unit \<open>i\<close> leaves as it was: the other units, the
  identifier index, the calls, the polls and the set result code; the events sent stay sent.\<close>

definition resolveFrame :: "nat \<Rightarrow> ApplyProcessor \<Rightarrow> ApplyProcessor \<Rightarrow> bool" where
  "resolveFrame i p p' =
     (length (m_unitInfo p') = length (m_unitInfo p) \<and>
      (\<forall>j. j \<noteq> i \<longrightarrow> m_unitInfo p' ! j = m_unitInfo p ! j) \<and>
      m_idToUnitInfoIndex p' = m_idToUnitInfoIndex p \<and>
      m_calls p' = m_calls p \<and> m_polls p' = m_polls p \<and> m_resultCode p' = m_resultCode p \<and>
      set (m_events p) \<subseteq> set (m_events p'))"

text \<open>What leaves the unit \<open>i\<close> as it was, and the identifier index, and the events sent.\<close>

definition keptUnit :: "nat \<Rightarrow> ApplyProcessor \<Rightarrow> ApplyProcessor \<Rightarrow> bool" where
  "keptUnit i p p' =
     (length (m_unitInfo p') = length (m_unitInfo p) \<and>
      m_unitInfo p' ! i = m_unitInfo p ! i \<and>
      m_idToUnitInfoIndex p' = m_idToUnitInfoIndex p \<and>
      set (m_events p) \<subseteq> set (m_events p'))"

text \<open>The indices that the identifier index gives for the dependency strings that are not
  empty.\<close>

definition resolved :: "Environment \<Rightarrow> ApplyProcessor \<Rightarrow> string list \<Rightarrow> nat list" where
  "resolved env p deps =
     map (\<lambda>x. the (m_idToUnitInfoIndex p (GetNormalizedIdentifier env x))) (filter (\<lambda>x. x \<noteq> []) deps)"

text \<open>The set of the second scenario, with a second unit: X depends on a unit that does not
  exist.\<close>

definition unitsXY :: "ConfigurationUnit list" where
  "unitsXY = [\<lparr>Identifier = ''X'', Intent = Apply, Dependencies = ['''', ''Y'', ''ghost'', ''X''], ShouldApply = True\<rparr>,
              \<lparr>Identifier = ''Y'', Intent = Apply, Dependencies = [], ShouldApply = True\<rparr>]"

text \<open>The normalized identifier of the unit \<open>u\<close> of a set.\<close>

definition normalizedId :: "Environment \<Rightarrow> ConfigurationUnit list \<Rightarrow> nat \<Rightarrow> string" where
  "normalizedId env us u = GetNormalizedIdentifier env (Identifier (us ! u))"

text \<open>Among the first \<open>k\<close> units, the unit \<open>u\<close> has an identifier that is not empty and that
  another one shares after normalization.\<close>

definition collides :: "Environment \<Rightarrow> ConfigurationUnit list \<Rightarrow> nat \<Rightarrow> nat \<Rightarrow> bool" where
  "collides env us k u =
     (u < k \<and> Identifier (us ! u) \<noteq> [] \<and>
      (\<exists>v < k. v \<noteq> u \<and> Identifier (us ! v) \<noteq> [] \<and> normalizedId env us v = normalizedId env us u))"

text \<open>Among the first \<open>k\<close> units, \<open>i\<close> is the first whose identifier is not empty and has the
  normal form \<open>key\<close>.\<close>

definition firstWith :: "Environment \<Rightarrow> ConfigurationUnit list \<Rightarrow> nat \<Rightarrow> string \<Rightarrow> nat \<Rightarrow> bool" where
  "firstWith env us k key i =
     (i < k \<and> Identifier (us ! i) \<noteq> [] \<and> normalizedId env us i = key \<and>
      (\<forall>j < i. Identifier (us ! j) \<noteq> [] \<longrightarrow> normalizedId env us j \<noteq> key))"

text \<open>The unit info of a unit that was found to have a duplicate identifier.\<close>

definition duplicateUnitInfo :: "ConfigurationUnit \<Rightarrow> UnitInfo" where
  "duplicateUnitInfo u =
     (NewUnitInfo u)
       \<lparr>ResultInformation :=
          \<lparr>ResultCode = WINGET_CONFIG_ERROR_DUPLICATE_IDENTIFIER, ResultSource = ConfigurationSet,
           Details = []\<rparr>,
        Result_State := Completed\<rparr>"

fun isCompletedEventOf :: "nat \<Rightarrow> ConfigurationSetChangeData \<Rightarrow> bool" where
  "isCompletedEventOf i (UnitStateChange state information j) = (state = Completed \<and> j = i)"
| "isCompletedEventOf i (SetStateChange state) = False"

definition completedEvents :: "nat \<Rightarrow> ApplyProcessor \<Rightarrow> nat" where
  "completedEvents i p = length (filter (isCompletedEventOf i) (m_events p))"

text \<open>The processor when the first \<open>k\<close> units of a new processor have been added to the
  identifier index, with the flag \<open>result\<close> of the loop.\<close>

definition addedUnits ::
  "Environment \<Rightarrow> ConfigurationUnit list \<Rightarrow> nat \<Rightarrow> bool \<Rightarrow> ApplyProcessor \<Rightarrow> bool" where
  "addedUnits env us k result p =
     (length (m_unitInfo p) = length us \<and>
      (\<forall>key i. (m_idToUnitInfoIndex p key = Some i) = firstWith env us k key i) \<and>
      (\<forall>u < length us.
         m_unitInfo p ! u = (if collides env us k u then duplicateUnitInfo (us ! u) else NewUnitInfo (us ! u))) \<and>
      (\<forall>u. completedEvents u p = (if collides env us k u then 1 else 0)) \<and>
      result = (\<forall>u. \<not> collides env us k u))"

text \<open>The set of the sixth scenario, U1 and U2 with the same identifier, and a unit without
  identifier.\<close>

definition unitsU12 :: "ConfigurationUnit list" where
  "unitsU12 = [\<lparr>Identifier = ''dup'', Intent = Apply, Dependencies = [], ShouldApply = True\<rparr>,
               \<lparr>Identifier = ''dup'', Intent = Apply, Dependencies = [], ShouldApply = True\<rparr>,
               \<lparr>Identifier = '''', Intent = Apply, Dependencies = [], ShouldApply = True\<rparr>]"

text \<open>The edges of the dependency graph of a processor: from a unit to each of its resolved
  dependencies.\<close>

definition dependencyEdges :: "ApplyProcessor \<Rightarrow> (nat \<times> nat) list" where
  "dependencyEdges p =
     concat (map (\<lambda>i. map (\<lambda>d. (i, d)) (DependencyIndices (m_unitInfo p ! i)))
       [0 ..< length (m_unitInfo p)])"

text \<open>An assertion that depends on an apply unit.\<close>

definition unitsAssertOnApply :: "ConfigurationUnit list" where
  "unitsAssertOnApply =
     [\<lparr>Identifier = ''A'', Intent = Assert, Dependencies = [''B''], ShouldApply = True\<rparr>,
      \<lparr>Identifier = ''B'', Intent = Apply, Dependencies = [], ShouldApply = True\<rparr>]"

subsection \<open>The scheduling rule in the words of the specification\<close>

text \<open>The candidates that are ready under the intent, in the order of the candidate list.\<close>

definition readyUnits ::
  "(UnitInfo \<Rightarrow> bool) \<Rightarrow> ConfigurationUnitIntent \<Rightarrow> ApplyProcessor \<Rightarrow> nat list \<Rightarrow> nat list" where
  "readyUnits chk intent p cands =
     filter (\<lambda>u. HasIntentAndSatisfiedDependencies p (m_unitInfo p ! u) intent chk) cands"

text \<open>
  The main loop as the specification words it: as long as some candidate is ready, the ready
  unit with the lowest input position is processed next and leaves the candidate list, whose
  other members keep their order; a result false of the action is recorded. Unlike the source,
  this loop does not scan: it takes the minimum of the ready candidates.
\<close>

function spec_MainLoop ::
  "(UnitInfo \<Rightarrow> bool) \<Rightarrow> (nat \<Rightarrow> ApplyProcessor \<Rightarrow> (error + bool) \<times> ApplyProcessor) \<Rightarrow>
   ConfigurationUnitIntent \<Rightarrow> bool \<Rightarrow> nat list \<Rightarrow> ApplyProcessor \<Rightarrow>
   (error + bool) \<times> nat list \<times> ApplyProcessor" where
  "spec_MainLoop chk action intent hasFailure cands p =
     (if readyUnits chk intent p cands = [] then (Inr hasFailure, cands, p)
      else
        (case action (Min (set (readyUnits chk intent p cands))) p of
           (Inl e, p') \<Rightarrow> (Inl e, cands, p')
         | (Inr ok, p') \<Rightarrow>
             spec_MainLoop chk action intent (hasFailure \<or> \<not> ok)
               (removeAll (Min (set (readyUnits chk intent p cands))) cands) p'))"
  by pat_completeness auto
termination
proof (relation "measure (\<lambda>(chk, action, intent, hasFailure, cands, p). length cands)")
  show "wf (measure (\<lambda>(chk, action, intent, hasFailure, cands, p). length cands))"
    by simp
next
  fix chk :: "UnitInfo \<Rightarrow> bool" and action :: "nat \<Rightarrow> ApplyProcessor \<Rightarrow> (error + bool) \<times> ApplyProcessor"
    and intent hasFailure cands p
  assume "readyUnits chk intent p cands \<noteq> []"
  then have "Min (set (readyUnits chk intent p cands)) \<in> set (readyUnits chk intent p cands)"
    by (intro Min_in) simp_all
  then have "Min (set (readyUnits chk intent p cands)) \<in> set cands"
    by (simp add: readyUnits_def)
  then have "length (removeAll (Min (set (readyUnits chk intent p cands))) cands) < length cands"
    by (rule length_removeAll_less)
  then show "\<And>x y xa ya.
       ((chk, action, intent, hasFailure \<or> \<not> xa, removeAll (Min (set (readyUnits chk intent p cands))) cands, ya),
        (chk, action, intent, hasFailure, cands, p))
       \<in> measure (\<lambda>(chk, action, intent, hasFailure, cands, p). length cands)"
    by simp
qed

declare spec_MainLoop.simps [simp del]

text \<open>The classification after the loop of a phase, applied to what the loop returned.\<close>

definition spec_PostLoopClassification ::
  "ConfigurationUnitIntent \<Rightarrow> hresult \<Rightarrow> hresult \<Rightarrow> bool \<Rightarrow>
   (error + bool) \<times> nat list \<times> ApplyProcessor \<Rightarrow> (error + bool) \<times> nat list \<times> ApplyProcessor" where
  "spec_PostLoopClassification intent errorForOtherIntents errorForFailures sendProgress loopResult =
     (case loopResult of
        (Inl e, remaining, p1) \<Rightarrow> (Inl e, remaining, p1)
      | (Inr hasFailure, remaining, p1) \<Rightarrow>
          (case markRemaining intent sendProgress remaining False p1 of
             (hasRemainingDependencies, p2) \<Rightarrow>
               if hasFailure \<or> hasRemainingDependencies
               then (Inr False, remaining,
                     (markOtherIntents intent errorForOtherIntents sendProgress remaining p2)
                       \<lparr>m_resultCode :=
                          (if hasFailure then errorForFailures
                           else WINGET_CONFIG_ERROR_DEPENDENCY_UNSATISFIED)\<rparr>)
               else (Inr True, remaining, p2)))"

definition spec_PhaseScheduler ::
  "nat list \<Rightarrow> (UnitInfo \<Rightarrow> bool) \<Rightarrow> (nat \<Rightarrow> ApplyProcessor \<Rightarrow> (error + bool) \<times> ApplyProcessor) \<Rightarrow>
   ConfigurationUnitIntent \<Rightarrow> hresult \<Rightarrow> hresult \<Rightarrow> bool \<Rightarrow> ApplyProcessor \<Rightarrow>
   (error + bool) \<times> nat list \<times> ApplyProcessor" where
  "spec_PhaseScheduler cands chk action intent errorForOtherIntents errorForFailures sendProgress p =
     spec_PostLoopClassification intent errorForOtherIntents errorForFailures sendProgress
       (spec_MainLoop chk action intent False cands p)"

text \<open>The phase sequence: the candidates are all unit indices in input order, and each phase
  hands its remaining candidates to the next one.\<close>

definition spec_PhaseSequence ::
  "(UnitInfo \<Rightarrow> bool) \<Rightarrow> (nat \<Rightarrow> ApplyProcessor \<Rightarrow> (error + bool) \<times> ApplyProcessor) \<Rightarrow> bool \<Rightarrow>
   ApplyProcessor \<Rightarrow> (error + bool) \<times> ApplyProcessor" where
  "spec_PhaseSequence chk action sendProgress p =
     (case spec_PhaseScheduler [0 ..< length (m_unitInfo p)] chk action Assert
             WINGET_CONFIG_ERROR_ASSERTION_FAILED WINGET_CONFIG_ERROR_ASSERTION_FAILED sendProgress p of
        (Inl e, _, p1) \<Rightarrow> (Inl e, p1)
      | (Inr False, _, p1) \<Rightarrow> (Inr False, p1)
      | (Inr True, afterAssert, p1) \<Rightarrow>
          (case spec_PhaseScheduler afterAssert chk action Inform
                  WINGET_CONFIG_ERROR_DEPENDENCY_UNSATISFIED WINGET_CONFIG_ERROR_DEPENDENCY_UNSATISFIED
                  sendProgress p1 of
             (Inl e, _, p2) \<Rightarrow> (Inl e, p2)
           | (Inr False, _, p2) \<Rightarrow> (Inr False, p2)
           | (Inr True, afterInform, p2) \<Rightarrow>
               (case spec_PhaseScheduler afterInform chk action Apply
                       E_FAIL WINGET_CONFIG_ERROR_SET_APPLY_FAILED sendProgress p2 of
                  (r, _, p3) \<Rightarrow> (r, p3))))"

text \<open>Three apply units in a processor whose real run starts: the first depends on the third.\<close>

definition unitsCBA :: "ConfigurationUnit list" where
  "unitsCBA =
     [\<lparr>Identifier = ''a'', Intent = Apply, Dependencies = [''c''], ShouldApply = True\<rparr>,
      \<lparr>Identifier = ''b'', Intent = Apply, Dependencies = [], ShouldApply = True\<rparr>,
      \<lparr>Identifier = ''c'', Intent = Apply, Dependencies = [], ShouldApply = True\<rparr>]"

definition startedCBA :: ApplyProcessor where
  "startedCBA =
     SendProgressSet SetInProgress (snd (PreProcess (testEnvironment Positive) (NewApplyProcessor unitsCBA)))"

text \<open>A unit that a failed phase has marked: the code with source \<open>Precondition\<close>, the state
  \<open>Skipped\<close>, and a \<open>Skipped\<close> event that carries this result information.\<close>

definition markedSkipped :: "hresult \<Rightarrow> nat \<Rightarrow> ApplyProcessor \<Rightarrow> bool" where
  "markedSkipped code u p =
     (ResultCode (ResultInformation (m_unitInfo p ! u)) = code \<and>
      ResultSource (ResultInformation (m_unitInfo p ! u)) = Precondition \<and>
      Result_State (m_unitInfo p ! u) = Skipped \<and>
      UnitStateChange Skipped (ResultInformation (m_unitInfo p ! u)) u \<in> set (m_events p))"

text \<open>An environment in which \<^verbatim>\<open>TestSettings\<close> answers Negative and \<^verbatim>\<open>GetSettings\<close> and
  \<^verbatim>\<open>ApplySettings\<close> return a failure, and two sets: I (Inform) and K (Apply, depending on I);
  L (Apply) and a unit of another intent.\<close>

definition failedInformation :: ConfigurationUnitResultInformation where
  "failedInformation = \<lparr>ResultCode = E_FAIL, ResultSource = UnitProcessing, Details = []\<rparr>"

definition refusingEnvironment :: Environment where
  "refusingEnvironment =
     \<lparr>FoldCaseNormalized = (\<lambda>s. s), CreateUnitProcessor = (\<lambda>_. None),
      TestSettings = (\<lambda>_. Inr (Negative, okInformation)),
      GetSettings = (\<lambda>_. Inr failedInformation),
      ApplySettings = (\<lambda>_. Inr (failedInformation, False)),
      IsCancelled = (\<lambda>_. False), CancelledInformation = cancelledInformation\<rparr>"

definition unitsIK :: "ConfigurationUnit list" where
  "unitsIK = [\<lparr>Identifier = ''I'', Intent = Inform, Dependencies = [], ShouldApply = True\<rparr>,
              \<lparr>Identifier = ''K'', Intent = Apply, Dependencies = [''I''], ShouldApply = True\<rparr>]"

definition startedIK :: ApplyProcessor where
  "startedIK =
     SendProgressSet SetInProgress (snd (PreProcess refusingEnvironment (NewApplyProcessor unitsIK)))"

definition unitsLO :: "ConfigurationUnit list" where
  "unitsLO = [\<lparr>Identifier = ''L'', Intent = Apply, Dependencies = [], ShouldApply = True\<rparr>,
              \<lparr>Identifier = ''O'', Intent = OtherIntent, Dependencies = [], ShouldApply = True\<rparr>]"

definition startedLO :: ApplyProcessor where
  "startedLO =
     SendProgressSet SetInProgress (snd (PreProcess refusingEnvironment (NewApplyProcessor unitsLO)))"

section \<open>Properties\<close>

subsection \<open>Field access after the primitive operations\<close>

lemma length_updateUnitInfo [simp]:
  "length (m_unitInfo (updateUnitInfo i f p)) = length (m_unitInfo p)"
  by (simp add: updateUnitInfo_def)

lemma nth_updateUnitInfo:
  "m_unitInfo (updateUnitInfo i f p) ! j =
     (if j = i \<and> i < length (m_unitInfo p) then f (m_unitInfo p ! i) else m_unitInfo p ! j)"
  by (cases "i < length (m_unitInfo p)") (simp_all add: updateUnitInfo_def nth_list_update list_update_beyond)

lemma updateUnitInfo_other [simp]:
  "m_idToUnitInfoIndex (updateUnitInfo i f p) = m_idToUnitInfoIndex p"
  "m_resultCode (updateUnitInfo i f p) = m_resultCode p"
  "m_events (updateUnitInfo i f p) = m_events p"
  "m_polls (updateUnitInfo i f p) = m_polls p"
  "m_calls (updateUnitInfo i f p) = m_calls p"
  "m_writes (updateUnitInfo i f p) = m_writes p"
  by (simp_all add: updateUnitInfo_def)

lemmas prim_defs =
  Initialize_def InitializeFrom_def ExtractUnitResultInformation_def SetDetails_def
  SendProgressSet_def SendProgress_def SendProgressIfNotComplete_def recordCall_def

lemma failed_codes [simp]:
  "\<not> SUCCEEDED E_FAIL" "\<not> SUCCEEDED E_UNEXPECTED"
  "\<not> SUCCEEDED WINGET_CONFIG_ERROR_SET_APPLY_FAILED"
  "\<not> SUCCEEDED WINGET_CONFIG_ERROR_DUPLICATE_IDENTIFIER"
  "\<not> SUCCEEDED WINGET_CONFIG_ERROR_MISSING_DEPENDENCY"
  "\<not> SUCCEEDED WINGET_CONFIG_ERROR_DEPENDENCY_UNSATISFIED"
  "\<not> SUCCEEDED WINGET_CONFIG_ERROR_ASSERTION_FAILED"
  "\<not> SUCCEEDED WINGET_CONFIG_ERROR_MANUALLY_SKIPPED"
  "\<not> SUCCEEDED WINGET_CONFIG_ERROR_SET_DEPENDENCY_CYCLE"
  "SUCCEEDED S_OK"
  by (simp_all add: SUCCEEDED_def E_FAIL_def E_UNEXPECTED_def S_OK_def
      WINGET_CONFIG_ERROR_SET_APPLY_FAILED_def WINGET_CONFIG_ERROR_DUPLICATE_IDENTIFIER_def
      WINGET_CONFIG_ERROR_MISSING_DEPENDENCY_def WINGET_CONFIG_ERROR_DEPENDENCY_UNSATISFIED_def
      WINGET_CONFIG_ERROR_ASSERTION_FAILED_def WINGET_CONFIG_ERROR_MANUALLY_SKIPPED_def
      WINGET_CONFIG_ERROR_SET_DEPENDENCY_CYCLE_def)

lemma ProcessUnit_not_applied:
  assumes "i < length (m_unitInfo p)" and "\<not> ShouldApply (Unit (m_unitInfo p ! i))"
    and "\<not> IsCancelled env (m_polls p)"
  shows "ProcessUnit env i p =
      (Inr True,
       SendProgress Skipped i
         (Initialize WINGET_CONFIG_ERROR_MANUALLY_SKIPPED Precondition i
           (updateUnitInfo i (\<lambda>ui. ui\<lparr>Processed := True\<rparr>) (p\<lparr>m_polls := Suc (m_polls p)\<rparr>))))"
  using assms by (simp add: ProcessUnit_def ThrowIfCancelled_def nth_updateUnitInfo)

subsection \<open>The unit executor on a unit of intent Apply\<close>

lemma ProcessUnit_applied:
  assumes "i < length (m_unitInfo p)" and "ShouldApply (Unit (m_unitInfo p ! i))"
    and "\<not> IsCancelled env (m_polls p)" and "\<not> IsCancelled env (Suc (m_polls p))"
    and "CreateUnitProcessor env i = None"
    and "Intent (Unit (m_unitInfo p ! i)) = Apply"
  shows "ProcessUnit env i p =
      (case ProcessUnit_Apply env i (enterUnit i p) of (r, p3) \<Rightarrow> (r, SendProgress Completed i p3))"
  using assms
  by (simp add: ProcessUnit_def ProcessUnit_Run_def ThrowIfCancelled_def nth_updateUnitInfo
      enterUnit_def prim_defs Let_def)

lemma enterUnit_fields:
  "length (m_unitInfo (enterUnit i p)) = length (m_unitInfo p)"
  "m_calls (enterUnit i p) = m_calls p @ [Call_CreateUnitProcessor i]"
  "m_polls (enterUnit i p) = Suc (Suc (m_polls p))"
  "ResultInformation (m_unitInfo (enterUnit i p) ! j) = ResultInformation (m_unitInfo p ! j)"
  by (simp_all add: enterUnit_def prim_defs Let_def nth_updateUnitInfo)

lemma Apply_Positive:
  assumes "i < length (m_unitInfo q)" "TestSettings env i = Inr (Positive, testInfo)"
    and "ProcessUnit_Apply env i q = (r, q')"
  shows "r = Inr True \<and> Result_PreviouslyInDesiredState (m_unitInfo (SendProgress Completed i q') ! i) \<and>
         m_calls (SendProgress Completed i q') = m_calls q @ [Call_TestSettings i] \<and>
         ResultInformation (m_unitInfo (SendProgress Completed i q') ! i) = ResultInformation (m_unitInfo q ! i)"
  using assms
  by (auto simp: ProcessUnit_Apply_def prim_defs Let_def nth_updateUnitInfo)

lemma Apply_Failed:
  assumes "i < length (m_unitInfo q)" "TestSettings env i = Inr (Failed, testInfo)"
    and "ProcessUnit_Apply env i q = (r, q')"
  shows "r = Inr False \<and>
         m_calls (SendProgress Completed i q') = m_calls q @ [Call_TestSettings i] \<and>
         ResultInformation (m_unitInfo (SendProgress Completed i q') ! i) = testInfo"
  using assms
  by (auto simp: ProcessUnit_Apply_def prim_defs Let_def nth_updateUnitInfo)

lemma Apply_TestUnknown:
  assumes "i < length (m_unitInfo q)" "TestSettings env i = Inr (TestUnknown, testInfo)"
    and "ProcessUnit_Apply env i q = (r, q')"
  shows "r = Inr False \<and>
         m_calls (SendProgress Completed i q') = m_calls q @ [Call_TestSettings i] \<and>
         ResultCode (ResultInformation (m_unitInfo (SendProgress Completed i q') ! i)) = E_UNEXPECTED \<and>
         ResultSource (ResultInformation (m_unitInfo (SendProgress Completed i q') ! i)) = Internal"
  using assms
  by (auto simp: ProcessUnit_Apply_def prim_defs Let_def nth_updateUnitInfo)

lemma Apply_Negative_cancelled:
  assumes "i < length (m_unitInfo q)" "TestSettings env i = Inr (Negative, testInfo)"
    and "IsCancelled env (m_polls q)"
    and "ProcessUnit_Apply env i q = (r, q')"
  shows "r = Inr False \<and>
         m_calls (SendProgress Completed i q') = m_calls q @ [Call_TestSettings i] \<and>
         m_polls (SendProgress Completed i q') = Suc (m_polls q) \<and>
         ResultInformation (m_unitInfo (SendProgress Completed i q') ! i) = CancelledInformation env"
  using assms
  by (auto simp: ProcessUnit_Apply_def prim_defs Let_def nth_updateUnitInfo ThrowIfCancelled_def)

lemma Apply_Negative_threw:
  assumes "i < length (m_unitInfo q)" "TestSettings env i = Inr (Negative, testInfo)"
    and "\<not> IsCancelled env (m_polls q)"
    and "ApplySettings env i = Inl exn"
    and "ProcessUnit_Apply env i q = (r, q')"
  shows "r = Inr False \<and>
         m_calls (SendProgress Completed i q') = m_calls q @ [Call_TestSettings i, Call_ApplySettings i] \<and>
         ResultInformation (m_unitInfo (SendProgress Completed i q') ! i) = exn"
  using assms
  by (auto simp: ProcessUnit_Apply_def prim_defs Let_def nth_updateUnitInfo ThrowIfCancelled_def)

lemma Apply_Negative_applied:
  assumes "i < length (m_unitInfo q)" "TestSettings env i = Inr (Negative, testInfo)"
    and "\<not> IsCancelled env (m_polls q)"
    and "ApplySettings env i = Inr (applyInfo, rebootRequired)"
    and "ProcessUnit_Apply env i q = (r, q')"
  shows "m_calls (SendProgress Completed i q') = m_calls q @ [Call_TestSettings i, Call_ApplySettings i] \<and>
         m_polls (SendProgress Completed i q') = Suc (m_polls q) \<and>
         (if SUCCEEDED (ResultCode applyInfo)
          then r = Inr True \<and>
               Result_RebootRequired (m_unitInfo (SendProgress Completed i q') ! i) = rebootRequired \<and>
               ResultInformation (m_unitInfo (SendProgress Completed i q') ! i) = ResultInformation (m_unitInfo q ! i)
          else r = Inr False \<and>
               ResultInformation (m_unitInfo (SendProgress Completed i q') ! i) = applyInfo)"
  using assms
  by (auto simp: ProcessUnit_Apply_def prim_defs Let_def nth_updateUnitInfo ThrowIfCancelled_def)

text \<open>
  Claim C7. A unit of intent Apply that is processed (it is to be applied, the first two
  cancellation polls pass, its unit processor is created and \<^verbatim>\<open>TestSettings\<close> returns):
  on Positive the previously-in-desired-state flag is set, \<^verbatim>\<open>ApplySettings\<close> is not called
  and the result is true; on Negative the cancellation token is polled, then
  \<^verbatim>\<open>ApplySettings\<close> is called, and a successful code records the reboot flag and gives true
  while any other code makes the apply result information the unit's, as does an exception of
  \<^verbatim>\<open>ApplySettings\<close>; on Failed the test result information becomes the unit's; on any other
  test result the unit's result information is \<open>E_UNEXPECTED\<close> with source \<open>Internal\<close>. When
  the poll before \<^verbatim>\<open>ApplySettings\<close> finds the operation cancelled, \<^verbatim>\<open>ApplySettings\<close> is not
  called, the exception is caught inside \<^verbatim>\<open>ProcessUnit\<close>, its information becomes the
  unit's and the result is false.
\<close>

theorem ProcessUnit_Apply_protocol:
  assumes "i < length (m_unitInfo p)"
    and "Intent (Unit (m_unitInfo p ! i)) = Apply"
    and "ShouldApply (Unit (m_unitInfo p ! i))"
    and "\<not> IsCancelled env (m_polls p)" and "\<not> IsCancelled env (Suc (m_polls p))"
    and "CreateUnitProcessor env i = None"
    and "TestSettings env i = Inr (testResult, testInfo)"
    and "ProcessUnit env i p = (r, p')"
  shows
    "(testResult = Positive \<longrightarrow>
        r = Inr True \<and> Result_PreviouslyInDesiredState (m_unitInfo p' ! i) \<and>
        m_calls p' = m_calls p @ [Call_CreateUnitProcessor i, Call_TestSettings i] \<and>
        ResultInformation (m_unitInfo p' ! i) = ResultInformation (m_unitInfo p ! i)) \<and>
     (testResult = Negative \<and> IsCancelled env (Suc (Suc (m_polls p))) \<longrightarrow>
        r = Inr False \<and>
        m_calls p' = m_calls p @ [Call_CreateUnitProcessor i, Call_TestSettings i] \<and>
        m_polls p' = m_polls p + 3 \<and>
        ResultInformation (m_unitInfo p' ! i) = CancelledInformation env) \<and>
     (\<forall>applyInfo rebootRequired.
        testResult = Negative \<and> \<not> IsCancelled env (Suc (Suc (m_polls p))) \<and>
        ApplySettings env i = Inr (applyInfo, rebootRequired) \<longrightarrow>
          m_calls p' = m_calls p @ [Call_CreateUnitProcessor i, Call_TestSettings i, Call_ApplySettings i] \<and>
          m_polls p' = m_polls p + 3 \<and>
          (if SUCCEEDED (ResultCode applyInfo)
           then r = Inr True \<and> Result_RebootRequired (m_unitInfo p' ! i) = rebootRequired \<and>
                ResultInformation (m_unitInfo p' ! i) = ResultInformation (m_unitInfo p ! i)
           else r = Inr False \<and> ResultInformation (m_unitInfo p' ! i) = applyInfo)) \<and>
     (testResult = Failed \<longrightarrow>
        r = Inr False \<and> ResultInformation (m_unitInfo p' ! i) = testInfo \<and>
        m_calls p' = m_calls p @ [Call_CreateUnitProcessor i, Call_TestSettings i]) \<and>
     (testResult = TestUnknown \<longrightarrow>
        r = Inr False \<and>
        ResultCode (ResultInformation (m_unitInfo p' ! i)) = E_UNEXPECTED \<and>
        ResultSource (ResultInformation (m_unitInfo p' ! i)) = Internal) \<and>
     (\<forall>exn.
        testResult = Negative \<and> \<not> IsCancelled env (Suc (Suc (m_polls p))) \<and>
        ApplySettings env i = Inl exn \<longrightarrow>
          r = Inr False \<and>
          m_calls p' = m_calls p @ [Call_CreateUnitProcessor i, Call_TestSettings i, Call_ApplySettings i] \<and>
          ResultInformation (m_unitInfo p' ! i) = exn)"
proof -
  obtain r0 q' where run: "ProcessUnit_Apply env i (enterUnit i p) = (r0, q')"
    by (cases "ProcessUnit_Apply env i (enterUnit i p)")
  have res: "r = r0" "p' = SendProgress Completed i q'"
    using ProcessUnit_applied [OF assms(1,3,4,5,6,2)] assms(8) run by simp_all
  have len: "i < length (m_unitInfo (enterUnit i p))"
    using assms(1) by (simp add: enterUnit_fields)
  have positive: "r = Inr True \<and> Result_PreviouslyInDesiredState (m_unitInfo p' ! i) \<and>
        m_calls p' = m_calls p @ [Call_CreateUnitProcessor i, Call_TestSettings i] \<and>
        ResultInformation (m_unitInfo p' ! i) = ResultInformation (m_unitInfo p ! i)"
    if "testResult = Positive"
    using Apply_Positive [OF len _ run] assms(7) that res by (simp add: enterUnit_fields)
  have failed: "r = Inr False \<and> ResultInformation (m_unitInfo p' ! i) = testInfo \<and>
        m_calls p' = m_calls p @ [Call_CreateUnitProcessor i, Call_TestSettings i]"
    if "testResult = Failed"
    using Apply_Failed [OF len _ run] assms(7) that res by (simp add: enterUnit_fields)
  have unknown: "r = Inr False \<and>
        ResultCode (ResultInformation (m_unitInfo p' ! i)) = E_UNEXPECTED \<and>
        ResultSource (ResultInformation (m_unitInfo p' ! i)) = Internal"
    if "testResult = TestUnknown"
    using Apply_TestUnknown [OF len _ run] assms(7) that res by (simp add: enterUnit_fields)
  have cancelled: "r = Inr False \<and>
        m_calls p' = m_calls p @ [Call_CreateUnitProcessor i, Call_TestSettings i] \<and>
        m_polls p' = m_polls p + 3 \<and>
        ResultInformation (m_unitInfo p' ! i) = CancelledInformation env"
    if "testResult = Negative \<and> IsCancelled env (Suc (Suc (m_polls p)))"
    using Apply_Negative_cancelled [OF len _ _ run] assms(7) that res by (simp add: enterUnit_fields)
  have threw: "r = Inr False \<and>
          m_calls p' = m_calls p @ [Call_CreateUnitProcessor i, Call_TestSettings i, Call_ApplySettings i] \<and>
          ResultInformation (m_unitInfo p' ! i) = exn"
    if "testResult = Negative \<and> \<not> IsCancelled env (Suc (Suc (m_polls p))) \<and>
        ApplySettings env i = Inl exn" for exn
    using Apply_Negative_threw [OF len _ _ _ run, of testInfo exn] assms(7) that res
    by (simp add: enterUnit_fields)
  have applied: "m_calls p' = m_calls p @ [Call_CreateUnitProcessor i, Call_TestSettings i, Call_ApplySettings i] \<and>
          m_polls p' = m_polls p + 3 \<and>
          (if SUCCEEDED (ResultCode applyInfo)
           then r = Inr True \<and> Result_RebootRequired (m_unitInfo p' ! i) = rebootRequired \<and>
                ResultInformation (m_unitInfo p' ! i) = ResultInformation (m_unitInfo p ! i)
           else r = Inr False \<and> ResultInformation (m_unitInfo p' ! i) = applyInfo)"
    if "testResult = Negative \<and> \<not> IsCancelled env (Suc (Suc (m_polls p))) \<and>
        ApplySettings env i = Inr (applyInfo, rebootRequired)" for applyInfo rebootRequired
    using Apply_Negative_applied [OF len _ _ _ run, of testInfo applyInfo rebootRequired] assms(7) that res
    by (simp add: enterUnit_fields)
  show ?thesis
    using positive cancelled applied failed unknown threw by blast
qed

theorem ProcessUnit_Apply_protocol_witness:
  "fst (ProcessUnit (testEnvironment Negative) 0
          (NewApplyProcessor [\<lparr>Identifier = ''a'', Intent = Apply, Dependencies = [], ShouldApply = True\<rparr>]))
     = Inr True \<and>
   m_calls (snd (ProcessUnit (testEnvironment Negative) 0
          (NewApplyProcessor [\<lparr>Identifier = ''a'', Intent = Apply, Dependencies = [], ShouldApply = True\<rparr>])))
     = [Call_CreateUnitProcessor 0, Call_TestSettings 0, Call_ApplySettings 0] \<and>
   Result_RebootRequired (m_unitInfo (snd (ProcessUnit (testEnvironment Negative) 0
          (NewApplyProcessor [\<lparr>Identifier = ''a'', Intent = Apply, Dependencies = [], ShouldApply = True\<rparr>]))) ! 0)"
proof -
  let ?env = "testEnvironment Negative"
  let ?p = "NewApplyProcessor [\<lparr>Identifier = ''a'', Intent = Apply, Dependencies = [], ShouldApply = True\<rparr>]"
  have h1: "0 < length (m_unitInfo ?p)"
    and h2: "Intent (Unit (m_unitInfo ?p ! 0)) = Apply"
    and h3: "ShouldApply (Unit (m_unitInfo ?p ! 0))"
    and h4: "\<not> IsCancelled ?env (m_polls ?p)"
    and h5: "\<not> IsCancelled ?env (Suc (m_polls ?p))"
    and h6: "CreateUnitProcessor ?env 0 = None"
    and h7: "TestSettings ?env 0 = Inr (Negative, okInformation)"
    and h9: "\<not> IsCancelled ?env (Suc (Suc (m_polls ?p)))"
    and h10: "ApplySettings ?env 0 = Inr (okInformation, True)"
    and h11: "SUCCEEDED (ResultCode okInformation)"
    by (simp_all add: NewApplyProcessor_def NewUnitInfo_def testEnvironment_def okInformation_def)
  have h8: "ProcessUnit ?env 0 ?p = (fst (ProcessUnit ?env 0 ?p), snd (ProcessUnit ?env 0 ?p))"
    by simp
  note applied = ProcessUnit_Apply_protocol [OF h1 h2 h3 h4 h5 h6 h7 h8,
      THEN conjunct2, THEN conjunct2, THEN conjunct1, rule_format, of okInformation True]
  have c0: "m_calls ?p = []"
    by (simp add: NewApplyProcessor_def)
  from applied h9 h10 h11 c0 show ?thesis
    by simp
qed

lemma NewApplyProcessor_fields [simp]:
  "m_unitInfo (NewApplyProcessor units) = map NewUnitInfo units"
  "m_idToUnitInfoIndex (NewApplyProcessor units) = Map.empty"
  "m_resultCode (NewApplyProcessor units) = S_OK"
  "m_events (NewApplyProcessor units) = []"
  "m_polls (NewApplyProcessor units) = 0"
  "m_calls (NewApplyProcessor units) = []"
  "m_writes (NewApplyProcessor units) = []"
  by (simp_all add: NewApplyProcessor_def)

lemma NewUnitInfo_fields [simp]:
  "Unit (NewUnitInfo u) = u"
  "Result_State (NewUnitInfo u) = Unknown"
  "\<not> Result_PreviouslyInDesiredState (NewUnitInfo u)"
  "\<not> Result_RebootRequired (NewUnitInfo u)"
  "ResultInformation (NewUnitInfo u) = \<lparr>ResultCode = S_OK, ResultSource = SourceNone, Details = []\<rparr>"
  "DependencyIndices (NewUnitInfo u) = []"
  "\<not> PreProcessed (NewUnitInfo u)"
  "\<not> Processed (NewUnitInfo u)"
  by (simp_all add: NewUnitInfo_def)

lemma length_prims [simp]:
  "length (m_unitInfo (Initialize c s i p)) = length (m_unitInfo p)"
  "length (m_unitInfo (InitializeFrom info i p)) = length (m_unitInfo p)"
  "length (m_unitInfo (ExtractUnitResultInformation info i p)) = length (m_unitInfo p)"
  "length (m_unitInfo (SetDetails d i p)) = length (m_unitInfo p)"
  "length (m_unitInfo (SendProgressSet ss p)) = length (m_unitInfo p)"
  "length (m_unitInfo (SendProgress st i p)) = length (m_unitInfo p)"
  "length (m_unitInfo (SendProgressIfNotComplete st i p)) = length (m_unitInfo p)"
  "length (m_unitInfo (recordCall cl p)) = length (m_unitInfo p)"
  by (simp_all add: prim_defs Let_def)

lemma nth_Initialize:
  "m_unitInfo (Initialize c s i p) ! j =
     (if j = i \<and> i < length (m_unitInfo p)
      then (m_unitInfo p ! i)\<lparr>ResultInformation :=
             (ResultInformation (m_unitInfo p ! i))\<lparr>ResultCode := c, ResultSource := s\<rparr>\<rparr>
      else m_unitInfo p ! j)"
  by (simp add: Initialize_def nth_updateUnitInfo)

lemma nth_InitializeFrom:
  "m_unitInfo (InitializeFrom info i p) ! j =
     (if j = i \<and> i < length (m_unitInfo p)
      then (m_unitInfo p ! i)\<lparr>ResultInformation := info\<rparr>
      else m_unitInfo p ! j)"
  by (simp add: InitializeFrom_def nth_updateUnitInfo)

lemma nth_ExtractUnitResultInformation:
  "m_unitInfo (ExtractUnitResultInformation info i p) ! j =
     (if j = i \<and> i < length (m_unitInfo p)
      then (m_unitInfo p ! i)\<lparr>ResultInformation := info\<rparr>
      else m_unitInfo p ! j)"
  by (simp add: ExtractUnitResultInformation_def nth_InitializeFrom)

lemma nth_SetDetails:
  "m_unitInfo (SetDetails d i p) ! j =
     (if j = i \<and> i < length (m_unitInfo p)
      then (m_unitInfo p ! i)\<lparr>ResultInformation := (ResultInformation (m_unitInfo p ! i))\<lparr>Details := d\<rparr>\<rparr>
      else m_unitInfo p ! j)"
  by (simp add: SetDetails_def nth_updateUnitInfo)

lemma nth_SendProgress:
  "m_unitInfo (SendProgress st i p) ! j =
     (if j = i \<and> i < length (m_unitInfo p)
      then (m_unitInfo p ! i)\<lparr>Result_State := st\<rparr>
      else m_unitInfo p ! j)"
  by (simp add: SendProgress_def Let_def nth_updateUnitInfo)

lemma nth_SendProgressIfNotComplete:
  "m_unitInfo (SendProgressIfNotComplete st i p) ! j =
     (if j = i \<and> i < length (m_unitInfo p) \<and> Result_State (m_unitInfo p ! i) \<noteq> Completed
      then (m_unitInfo p ! i)\<lparr>Result_State := st\<rparr>
      else m_unitInfo p ! j)"
  by (simp add: SendProgressIfNotComplete_def nth_SendProgress)

lemma nth_SendProgressSet [simp]:
  "m_unitInfo (SendProgressSet ss p) = m_unitInfo p"
  by (simp add: SendProgressSet_def)

lemma nth_recordCall [simp]:
  "m_unitInfo (recordCall cl p) = m_unitInfo p"
  by (simp add: recordCall_def)

lemmas nth_prims =
  nth_updateUnitInfo nth_Initialize nth_InitializeFrom nth_ExtractUnitResultInformation
  nth_SetDetails nth_SendProgress nth_SendProgressIfNotComplete

lemma Initialize_other [simp]:
  "m_idToUnitInfoIndex (Initialize c s i p) = m_idToUnitInfoIndex p"
  "m_resultCode (Initialize c s i p) = m_resultCode p"
  "m_events (Initialize c s i p) = m_events p"
  "m_polls (Initialize c s i p) = m_polls p"
  "m_calls (Initialize c s i p) = m_calls p"
  "m_writes (Initialize c s i p) = m_writes p @ [(i, c)]"
  by (simp_all add: Initialize_def)

lemma InitializeFrom_other [simp]:
  "m_idToUnitInfoIndex (InitializeFrom info i p) = m_idToUnitInfoIndex p"
  "m_resultCode (InitializeFrom info i p) = m_resultCode p"
  "m_events (InitializeFrom info i p) = m_events p"
  "m_polls (InitializeFrom info i p) = m_polls p"
  "m_calls (InitializeFrom info i p) = m_calls p"
  "m_writes (InitializeFrom info i p) = m_writes p @ [(i, ResultCode info)]"
  by (simp_all add: InitializeFrom_def)

lemma ExtractUnitResultInformation_other [simp]:
  "m_idToUnitInfoIndex (ExtractUnitResultInformation info i p) = m_idToUnitInfoIndex p"
  "m_resultCode (ExtractUnitResultInformation info i p) = m_resultCode p"
  "m_events (ExtractUnitResultInformation info i p) = m_events p"
  "m_polls (ExtractUnitResultInformation info i p) = m_polls p"
  "m_calls (ExtractUnitResultInformation info i p) = m_calls p"
  "m_writes (ExtractUnitResultInformation info i p) = m_writes p @ [(i, ResultCode info)]"
  by (simp_all add: ExtractUnitResultInformation_def)

lemma SetDetails_other [simp]:
  "m_idToUnitInfoIndex (SetDetails d i p) = m_idToUnitInfoIndex p"
  "m_resultCode (SetDetails d i p) = m_resultCode p"
  "m_events (SetDetails d i p) = m_events p"
  "m_polls (SetDetails d i p) = m_polls p"
  "m_calls (SetDetails d i p) = m_calls p"
  "m_writes (SetDetails d i p) = m_writes p"
  by (simp_all add: SetDetails_def)

lemma SendProgress_other [simp]:
  "m_idToUnitInfoIndex (SendProgress st i p) = m_idToUnitInfoIndex p"
  "m_resultCode (SendProgress st i p) = m_resultCode p"
  "m_events (SendProgress st i p) =
     m_events p @ [UnitStateChange st (ResultInformation (m_unitInfo p ! i)) i]"
  "m_polls (SendProgress st i p) = m_polls p"
  "m_calls (SendProgress st i p) = m_calls p"
  "m_writes (SendProgress st i p) = m_writes p"
  by (simp_all add: SendProgress_def Let_def nth_updateUnitInfo)

lemma SendProgressIfNotComplete_other [simp]:
  "m_idToUnitInfoIndex (SendProgressIfNotComplete st i p) = m_idToUnitInfoIndex p"
  "m_resultCode (SendProgressIfNotComplete st i p) = m_resultCode p"
  "m_polls (SendProgressIfNotComplete st i p) = m_polls p"
  "m_calls (SendProgressIfNotComplete st i p) = m_calls p"
  "m_writes (SendProgressIfNotComplete st i p) = m_writes p"
  by (simp_all add: SendProgressIfNotComplete_def)

lemma events_SendProgressIfNotComplete:
  "m_events (SendProgressIfNotComplete st i p) =
     (if Result_State (m_unitInfo p ! i) \<noteq> Completed
      then m_events p @ [UnitStateChange st (ResultInformation (m_unitInfo p ! i)) i]
      else m_events p)"
  by (simp add: SendProgressIfNotComplete_def)

lemma SendProgressSet_other [simp]:
  "m_idToUnitInfoIndex (SendProgressSet ss p) = m_idToUnitInfoIndex p"
  "m_resultCode (SendProgressSet ss p) = m_resultCode p"
  "m_events (SendProgressSet ss p) = m_events p @ [SetStateChange ss]"
  "m_polls (SendProgressSet ss p) = m_polls p"
  "m_calls (SendProgressSet ss p) = m_calls p"
  "m_writes (SendProgressSet ss p) = m_writes p"
  by (simp_all add: SendProgressSet_def)

lemma recordCall_other [simp]:
  "m_idToUnitInfoIndex (recordCall cl p) = m_idToUnitInfoIndex p"
  "m_resultCode (recordCall cl p) = m_resultCode p"
  "m_events (recordCall cl p) = m_events p"
  "m_polls (recordCall cl p) = m_polls p"
  "m_calls (recordCall cl p) = m_calls p @ [cl]"
  "m_writes (recordCall cl p) = m_writes p"
  by (simp_all add: recordCall_def)

subsection \<open>What processing a unit changes\<close>

lemma unitFrame_refl: "unitFrame u p p"
  by (simp add: unitFrame_def)

lemma unitFrame_trans: "unitFrame u p q \<Longrightarrow> unitFrame u q r \<Longrightarrow> unitFrame u p r"
  by (simp add: unitFrame_def)

lemma unitFrame_prims:
  "unitFrame u p (Initialize c s u p)"
  "unitFrame u p (InitializeFrom info u p)"
  "unitFrame u p (ExtractUnitResultInformation info u p)"
  "unitFrame u p (SendProgress st u p)"
  "unitFrame u p (recordCall cl p)"
  "unitFrame u p (updateUnitInfo u (\<lambda>ui. ui\<lparr>Processed := True\<rparr>) p)"
  "unitFrame u p (updateUnitInfo u (\<lambda>ui. ui\<lparr>Result_PreviouslyInDesiredState := True\<rparr>) p)"
  "unitFrame u p (updateUnitInfo u (\<lambda>ui. ui\<lparr>Result_RebootRequired := b\<rparr>) p)"
  "unitFrame u p (snd (ThrowIfCancelled env p))"
  by (simp_all add: unitFrame_def nth_prims ThrowIfCancelled_def)

lemma unitFrame_step:
  "unitFrame u p q \<Longrightarrow> unitFrame u p (Initialize c s u q)"
  "unitFrame u p q \<Longrightarrow> unitFrame u p (InitializeFrom info u q)"
  "unitFrame u p q \<Longrightarrow> unitFrame u p (ExtractUnitResultInformation info u q)"
  "unitFrame u p q \<Longrightarrow> unitFrame u p (SendProgress st u q)"
  "unitFrame u p q \<Longrightarrow> unitFrame u p (recordCall cl q)"
  "unitFrame u p q \<Longrightarrow> unitFrame u p (updateUnitInfo u (\<lambda>ui. ui\<lparr>Processed := True\<rparr>) q)"
  "unitFrame u p q \<Longrightarrow> unitFrame u p (updateUnitInfo u (\<lambda>ui. ui\<lparr>Result_PreviouslyInDesiredState := True\<rparr>) q)"
  "unitFrame u p q \<Longrightarrow> unitFrame u p (updateUnitInfo u (\<lambda>ui. ui\<lparr>Result_RebootRequired := b\<rparr>) q)"
  "unitFrame u p q \<Longrightarrow> unitFrame u p (snd (ThrowIfCancelled env q))"
  by (erule unitFrame_trans, rule unitFrame_prims)+

lemma ThrowIfCancelled_cases:
  "ThrowIfCancelled env p = (r, p') \<Longrightarrow> p' = snd (ThrowIfCancelled env p)"
  by simp

lemma ProcessUnit_Assert_frame:
  "unitFrame u p q \<Longrightarrow> unitFrame u p (snd (ProcessUnit_Assert env u q))"
  by (auto simp: ProcessUnit_Assert_def Let_def split: sum.splits intro!: unitFrame_step)

lemma ProcessUnit_Inform_frame:
  "unitFrame u p q \<Longrightarrow> unitFrame u p (snd (ProcessUnit_Inform env u q))"
  by (auto simp: ProcessUnit_Inform_def Let_def split: sum.splits intro!: unitFrame_step)

lemma ProcessUnit_Apply_frame:
  "unitFrame u p q \<Longrightarrow> unitFrame u p (snd (ProcessUnit_Apply env u q))"
  by (auto simp: ProcessUnit_Apply_def Let_def split: sum.splits prod.splits
      dest!: ThrowIfCancelled_cases intro!: unitFrame_step)

lemma ProcessUnit_Run_frame:
  "unitFrame u p q \<Longrightarrow> unitFrame u p (snd (ProcessUnit_Run env u q))"
  by (auto simp: ProcessUnit_Run_def Let_def
      split: sum.splits prod.splits option.splits ConfigurationUnitIntent.splits
      dest!: ThrowIfCancelled_cases
      intro!: unitFrame_step ProcessUnit_Assert_frame ProcessUnit_Inform_frame ProcessUnit_Apply_frame)

lemma ProcessUnit_unfold:
  "ProcessUnit env u p =
     (if IsCancelled env (m_polls p) then (Inl OperationCancelled, snd (ThrowIfCancelled env p))
      else if \<not> ShouldApply (Unit (m_unitInfo p ! u))
      then (Inr True,
            SendProgress Skipped u
              (Initialize WINGET_CONFIG_ERROR_MANUALLY_SKIPPED Precondition u (committed env u p)))
      else (fst (ProcessUnit_Run env u (SendProgress InProgress u (committed env u p))),
            SendProgress Completed u
              (snd (ProcessUnit_Run env u (SendProgress InProgress u (committed env u p))))))"
  by (simp add: ProcessUnit_def committed_def ThrowIfCancelled_def Let_def nth_updateUnitInfo
      split: prod.splits)

lemma committed_frame: "unitFrame u p (committed env u p)"
  unfolding committed_def by (intro unitFrame_step unitFrame_refl)

lemma ProcessUnit_frame: "ProcessUnit env u p = (r, p') \<Longrightarrow> unitFrame u p p'"
  by (auto simp: ProcessUnit_unfold split: if_splits
      intro!: unitFrame_prims unitFrame_step ProcessUnit_Run_frame committed_frame)

subsection \<open>The scan and the loop of a phase\<close>

lemma scanForReady_split:
  "scanForReady chk intent p cands = Some (u, rest) \<Longrightarrow>
     \<exists>before after. cands = before @ u # after \<and> rest = before @ after \<and>
       HasIntentAndSatisfiedDependencies p (m_unitInfo p ! u) intent chk \<and>
       (\<forall>v \<in> set before. \<not> HasIntentAndSatisfiedDependencies p (m_unitInfo p ! v) intent chk)"
proof (induction cands arbitrary: u rest)
  case Nil
  then show ?case by simp
next
  case (Cons c cands)
  show ?case
  proof (cases "HasIntentAndSatisfiedDependencies p (m_unitInfo p ! c) intent chk")
    case True
    with Cons.prems have "u = c" "rest = cands" by simp_all
    with True show ?thesis by (intro exI [of _ "[]"] exI [of _ cands]) simp
  next
    case False
    with Cons.prems obtain rest' where
      sc: "scanForReady chk intent p cands = Some (u, rest')" and r: "rest = c # rest'"
      by (auto split: option.splits)
    from Cons.IH [OF sc] obtain before after where
      "cands = before @ u # after" "rest' = before @ after"
      "HasIntentAndSatisfiedDependencies p (m_unitInfo p ! u) intent chk"
      "\<forall>v \<in> set before. \<not> HasIntentAndSatisfiedDependencies p (m_unitInfo p ! v) intent chk"
      by blast
    with False r show ?thesis
      by (intro exI [of _ "c # before"] exI [of _ after]) simp
  qed
qed

lemma scanForReady_None:
  "(scanForReady chk intent p cands = None) =
     (\<forall>v \<in> set cands. \<not> HasIntentAndSatisfiedDependencies p (m_unitInfo p ! v) intent chk)"
  by (induction cands) (auto split: option.splits)

lemma scanForReady_subset:
  "scanForReady chk intent p cands = Some (u, rest) \<Longrightarrow> u \<in> set cands \<and> set rest \<subseteq> set cands"
  by (drule scanForReady_split) auto

lemma scanForReady_distinct:
  "scanForReady chk intent p cands = Some (u, rest) \<Longrightarrow> distinct cands \<Longrightarrow>
     distinct rest \<and> set rest = set cands - {u}"
  by (drule scanForReady_split) auto

lemma scanForReady_sorted:
  assumes "scanForReady chk intent p cands = Some (u, rest)" and "sorted_wrt (<) cands"
  shows "sorted_wrt (<) rest \<and> rest = filter (\<lambda>v. v \<noteq> u) cands \<and>
         (\<forall>v \<in> set cands. HasIntentAndSatisfiedDependencies p (m_unitInfo p ! v) intent chk \<longrightarrow> u \<le> v)"
proof -
  from scanForReady_split [OF assms(1)] obtain before after where
    c: "cands = before @ u # after" and r: "rest = before @ after"
    and nb: "\<forall>v \<in> set before. \<not> HasIntentAndSatisfiedDependencies p (m_unitInfo p ! v) intent chk"
    by blast
  from assms(2) c have s: "sorted_wrt (<) before" "sorted_wrt (<) after"
    "\<forall>x \<in> set before. x < u" "\<forall>y \<in> set after. u < y" "\<forall>x \<in> set before. \<forall>y \<in> set after. x < y"
    by (auto simp: sorted_wrt_append)
  have "sorted_wrt (<) rest"
    using s r by (simp add: sorted_wrt_append)
  moreover have "filter (\<lambda>v. v \<noteq> u) cands = before @ after"
  proof -
    have "filter (\<lambda>v. v \<noteq> u) before = before" using s(3) by (intro filter_True) auto
    moreover have "filter (\<lambda>v. v \<noteq> u) after = after" using s(4) by (intro filter_True) auto
    ultimately show ?thesis by (simp add: c)
  qed
  moreover have "\<forall>v \<in> set cands. HasIntentAndSatisfiedDependencies p (m_unitInfo p ! v) intent chk \<longrightarrow> u \<le> v"
    using nb s(4) c by auto
  ultimately show ?thesis using r by simp
qed

lemma processReadyUnits_rule:
  assumes run: "processReadyUnits chk f intent hf cands p = (r, cands', p')"
    and base: "P hf cands p"
    and step: "\<And>h c q u rest ok q'. P h c q \<Longrightarrow> scanForReady chk intent q c = Some (u, rest) \<Longrightarrow>
                 f u q = (Inr ok, q') \<Longrightarrow> P (if \<not> ok then True else h) rest q'"
    and stop: "\<And>h c q. P h c q \<Longrightarrow> scanForReady chk intent q c = None \<Longrightarrow> Q (Inr h) c q"
    and throw: "\<And>h c q u rest e q'. P h c q \<Longrightarrow> scanForReady chk intent q c = Some (u, rest) \<Longrightarrow>
                 f u q = (Inl e, q') \<Longrightarrow> Q (Inl e) c q'"
  shows "Q r cands' p'"
  using assms
proof (induction chk f intent hf cands p rule: processReadyUnits.induct)
  case (1 chk f intent hf cands p)
  note run = "1.prems"(1) and base = "1.prems"(2) and step = "1.prems"(3)
    and stop = "1.prems"(4) and throw = "1.prems"(5)
  show ?case
  proof (cases "scanForReady chk intent p cands")
    case None
    with run have "r = Inr hf" "cands' = cands" "p' = p"
      by (simp_all add: processReadyUnits.simps)
    with stop [OF base None] show ?thesis by simp
  next
    case (Some a)
    then obtain u rest where sc: "scanForReady chk intent p cands = Some (u, rest)"
      by (cases a) simp
    obtain x q where fu: "f u p = (x, q)" by (cases "f u p")
    show ?thesis
    proof (cases x)
      case (Inl e)
      with run sc fu have "r = Inl e" "cands' = cands" "p' = q"
        by (simp_all add: processReadyUnits.simps)
      with throw [OF base sc] fu Inl show ?thesis by simp
    next
      case (Inr ok)
      with run sc fu have
        rec: "processReadyUnits chk f intent (if \<not> ok then True else hf) rest q = (r, cands', p')"
        by (simp add: processReadyUnits.simps)
      have "P (if \<not> ok then True else hf) rest q"
        using step [OF base sc] fu Inr by simp
      from "1.IH" [OF sc refl fu [symmetric] Inr rec this step stop throw] show ?thesis .
    qed
  qed
qed

lemma processReadyUnits_sorted:
  assumes "processReadyUnits chk f intent hf cands p = (r, cands', p')" and "sorted_wrt (<) cands"
  shows "sorted_wrt (<) cands'"
  by (rule processReadyUnits_rule [OF assms(1), where P = "\<lambda>h c q. sorted_wrt (<) c"
        and Q = "\<lambda>r c q. sorted_wrt (<) c"])
     (use assms(2) in \<open>auto dest: scanForReady_sorted\<close>)

lemma processReadyUnits_subset:
  assumes "processReadyUnits chk f intent hf cands p = (r, cands', p')"
  shows "set cands' \<subseteq> set cands"
  by (rule processReadyUnits_rule [OF assms(1), where P = "\<lambda>h c q. set c \<subseteq> set cands"
        and Q = "\<lambda>r c q. set c \<subseteq> set cands"])
     (auto dest: scanForReady_subset)

lemma processReadyUnits_distinct:
  assumes "processReadyUnits chk f intent hf cands p = (r, cands', p')" and "distinct cands"
  shows "distinct cands'"
  by (rule processReadyUnits_rule [OF assms(1), where P = "\<lambda>h c q. distinct c"
        and Q = "\<lambda>r c q. distinct c"])
     (use assms(2) in \<open>auto dest: scanForReady_distinct\<close>)

lemma ProcessIntentInternal_remaining:
  assumes "ProcessIntentInternal cands chk f intent e1 e2 sp p = (r, remaining, p')"
  shows "\<exists>r1 p1. processReadyUnits chk f intent False cands p = (r1, remaining, p1)"
  using assms
  by (auto simp: ProcessIntentInternal_def Let_def split: prod.splits sum.splits if_splits)

subsection \<open>The marking loops\<close>

lemma markOne_fields [simp]:
  "length (m_unitInfo (markOne code sp u p)) = length (m_unitInfo p)"
  "m_idToUnitInfoIndex (markOne code sp u p) = m_idToUnitInfoIndex p"
  "m_resultCode (markOne code sp u p) = m_resultCode p"
  "m_polls (markOne code sp u p) = m_polls p"
  "m_calls (markOne code sp u p) = m_calls p"
  "m_writes (markOne code sp u p) = m_writes p @ [(u, code)]"
  by (simp_all add: markOne_def Let_def)

lemma markOne_nth:
  "m_unitInfo (markOne code sp u p) ! j =
     (if j = u \<and> u < length (m_unitInfo p)
      then (m_unitInfo p ! u)
             \<lparr>ResultInformation := (ResultInformation (m_unitInfo p ! u))\<lparr>ResultCode := code, ResultSource := Precondition\<rparr>,
              Result_State := (if sp then Skipped else Result_State (m_unitInfo p ! u))\<rparr>
      else m_unitInfo p ! j)"
  by (simp add: markOne_def Let_def nth_prims)

lemma markOne_events:
  "m_events (markOne code sp u p) =
     (if sp
      then m_events p @
        [UnitStateChange Skipped
           (if u < length (m_unitInfo p)
            then (ResultInformation (m_unitInfo p ! u))\<lparr>ResultCode := code, ResultSource := Precondition\<rparr>
            else ResultInformation (m_unitInfo p ! u)) u]
      else m_events p)"
  by (simp add: markOne_def Let_def nth_prims)

lemma markOne_preserved [simp]:
  "Unit (m_unitInfo (markOne code sp u p) ! j) = Unit (m_unitInfo p ! j)"
  "DependencyIndices (m_unitInfo (markOne code sp u p) ! j) = DependencyIndices (m_unitInfo p ! j)"
  "PreProcessed (m_unitInfo (markOne code sp u p) ! j) = PreProcessed (m_unitInfo p ! j)"
  "Processed (m_unitInfo (markOne code sp u p) ! j) = Processed (m_unitInfo p ! j)"
  "Result_PreviouslyInDesiredState (m_unitInfo (markOne code sp u p) ! j) =
     Result_PreviouslyInDesiredState (m_unitInfo p ! j)"
  "Result_RebootRequired (m_unitInfo (markOne code sp u p) ! j) = Result_RebootRequired (m_unitInfo p ! j)"
  "Details (ResultInformation (m_unitInfo (markOne code sp u p) ! j)) =
     Details (ResultInformation (m_unitInfo p ! j))"
  by (simp_all add: markOne_nth)

lemma markAll_fields [simp]:
  "length (m_unitInfo (fold (markOne code sp) us p)) = length (m_unitInfo p)"
  "m_idToUnitInfoIndex (fold (markOne code sp) us p) = m_idToUnitInfoIndex p"
  "m_resultCode (fold (markOne code sp) us p) = m_resultCode p"
  "m_polls (fold (markOne code sp) us p) = m_polls p"
  "m_calls (fold (markOne code sp) us p) = m_calls p"
  "m_writes (fold (markOne code sp) us p) = m_writes p @ map (\<lambda>u. (u, code)) us"
  by (induction us arbitrary: p; simp)+

lemma markAll_preserved [simp]:
  "Unit (m_unitInfo (fold (markOne code sp) us p) ! j) = Unit (m_unitInfo p ! j)"
  "DependencyIndices (m_unitInfo (fold (markOne code sp) us p) ! j) = DependencyIndices (m_unitInfo p ! j)"
  "PreProcessed (m_unitInfo (fold (markOne code sp) us p) ! j) = PreProcessed (m_unitInfo p ! j)"
  "Processed (m_unitInfo (fold (markOne code sp) us p) ! j) = Processed (m_unitInfo p ! j)"
  "Result_PreviouslyInDesiredState (m_unitInfo (fold (markOne code sp) us p) ! j) =
     Result_PreviouslyInDesiredState (m_unitInfo p ! j)"
  "Result_RebootRequired (m_unitInfo (fold (markOne code sp) us p) ! j) =
     Result_RebootRequired (m_unitInfo p ! j)"
  "Details (ResultInformation (m_unitInfo (fold (markOne code sp) us p) ! j)) =
     Details (ResultInformation (m_unitInfo p ! j))"
  by (induction us arbitrary: p; simp)+

lemma markAll_untouched:
  "j \<notin> set us \<Longrightarrow> m_unitInfo (fold (markOne code sp) us p) ! j = m_unitInfo p ! j"
  by (induction us arbitrary: p) (auto simp: markOne_nth)

lemma markAll_events_prefix:
  "\<exists>es. m_events (fold (markOne code sp) us p) = m_events p @ es"
proof (induction us arbitrary: p)
  case Nil
  show ?case by simp
next
  case (Cons u us)
  from Cons.IH [of "markOne code sp u p"] show ?case
    by (auto simp: markOne_events)
qed

lemma markOne_marks:
  "u < length (m_unitInfo p) \<Longrightarrow>
     marked code sp (Details (ResultInformation (m_unitInfo p ! u))) u (markOne code sp u p)"
  by (simp add: marked_def markOne_nth markOne_events)

lemma markOne_keeps_marked:
  "marked code sp d u p \<Longrightarrow> marked code sp d u (markOne code sp v p)"
  by (auto simp: marked_def markOne_nth markOne_events)

lemma markAll_keeps_marked:
  "marked code sp d u p \<Longrightarrow> marked code sp d u (fold (markOne code sp) us p)"
  by (induction us arbitrary: p) (auto intro: markOne_keeps_marked)

lemma markAll_marks:
  "u \<in> set us \<Longrightarrow> u < length (m_unitInfo p) \<Longrightarrow>
     marked code sp (Details (ResultInformation (m_unitInfo p ! u))) u (fold (markOne code sp) us p)"
proof (induction us arbitrary: p)
  case Nil
  then show ?case by simp
next
  case (Cons v us)
  show ?case
  proof (cases "v = u")
    case True
    with Cons.prems(2) show ?thesis
      by (auto intro!: markAll_keeps_marked markOne_marks)
  next
    case False
    with Cons.prems have "u \<in> set us" by simp
    from Cons.IH [OF this, of "markOne code sp v p"] Cons.prems(2) show ?thesis
      by simp
  qed
qed

lemma markRemaining_eq:
  "markRemaining intent sp cands hr p =
     (hr \<or> (\<exists>u \<in> set cands. Intent (Unit (m_unitInfo p ! u)) = intent),
      fold (markOne WINGET_CONFIG_ERROR_DEPENDENCY_UNSATISFIED sp)
        (filter (\<lambda>u. Intent (Unit (m_unitInfo p ! u)) = intent) cands) p)"
proof (induction cands arbitrary: hr p)
  case Nil
  show ?case by simp
next
  case (Cons c cands)
  show ?case
  proof (cases "Intent (Unit (m_unitInfo p ! c)) = intent")
    case True
    have "markRemaining intent sp (c # cands) hr p =
          markRemaining intent sp cands True (markOne WINGET_CONFIG_ERROR_DEPENDENCY_UNSATISFIED sp c p)"
      using True by (simp add: markOne_def Let_def)
    then show ?thesis using True by (simp add: Cons.IH)
  next
    case False
    then show ?thesis by (simp add: Cons.IH)
  qed
qed

lemma markOtherIntents_eq:
  "markOtherIntents intent code sp cands p =
     fold (markOne code sp) (filter (\<lambda>u. Intent (Unit (m_unitInfo p ! u)) \<noteq> intent) cands) p"
proof (induction cands arbitrary: p)
  case Nil
  show ?case by simp
next
  case (Cons c cands)
  show ?case
  proof (cases "Intent (Unit (m_unitInfo p ! c)) \<noteq> intent")
    case True
    have "markOtherIntents intent code sp (c # cands) p =
          markOtherIntents intent code sp cands (markOne code sp c p)"
      using True by (simp add: markOne_def Let_def)
    then show ?thesis using True by (simp add: Cons.IH)
  next
    case False
    then show ?thesis by (simp add: Cons.IH)
  qed
qed

lemma ProcessIntentInternal_thrown:
  "processReadyUnits chk f intent False cands p = (Inl e, remaining, p1) \<Longrightarrow>
     ProcessIntentInternal cands chk f intent e1 e2 sp p = (Inl e, remaining, p1)"
  by (simp add: ProcessIntentInternal_def)

lemma ProcessIntentInternal_returned:
  assumes "processReadyUnits chk f intent False cands p = (Inr hasFailure, remaining, p1)"
  shows "ProcessIntentInternal cands chk f intent e1 e2 sp p =
     (if hasFailure \<or> (\<exists>u \<in> set remaining. Intent (Unit (m_unitInfo p1 ! u)) = intent)
      then (Inr False, remaining,
            (fold (markOne e1 sp) (filter (\<lambda>u. Intent (Unit (m_unitInfo p1 ! u)) \<noteq> intent) remaining)
               (fold (markOne WINGET_CONFIG_ERROR_DEPENDENCY_UNSATISFIED sp)
                  (filter (\<lambda>u. Intent (Unit (m_unitInfo p1 ! u)) = intent) remaining) p1))
              \<lparr>m_resultCode := (if hasFailure then e2 else WINGET_CONFIG_ERROR_DEPENDENCY_UNSATISFIED)\<rparr>)
      else (Inr True, remaining, p1))"
proof -
  have "filter (\<lambda>u. Intent (Unit (m_unitInfo p1 ! u)) = intent) remaining = []"
    if "\<not> (\<exists>u \<in> set remaining. Intent (Unit (m_unitInfo p1 ! u)) = intent)"
    using that by (simp add: filter_empty_conv)
  then show ?thesis
    using assms
    by (auto simp: ProcessIntentInternal_def markRemaining_eq markOtherIntents_eq Let_def)
qed

lemma processReadyUnits_length:
  assumes "processReadyUnits chk (ProcessUnit env) intent hf cands p = (r, cands', p')"
  shows "length (m_unitInfo p') = length (m_unitInfo p)"
  by (rule processReadyUnits_rule [OF assms, where P = "\<lambda>h c q. length (m_unitInfo q) = length (m_unitInfo p)"
        and Q = "\<lambda>r c q. length (m_unitInfo q) = length (m_unitInfo p)"])
     (auto dest: ProcessUnit_frame simp: unitFrame_def)

lemma failure_marks_remaining:
  assumes sub: "set cands \<subseteq> {..<length (m_unitInfo p)}"
    and run: "processReadyUnits HasProcessedSuccessfully (ProcessUnit env) intent False cands p =
          (Inr True, remaining, p1)"
  shows "\<exists>p'. ProcessIntentInternal cands HasProcessedSuccessfully (ProcessUnit env) intent
               errorForOtherIntents errorForFailures True p = (Inr False, remaining, p') \<and>
            m_resultCode p' = errorForFailures \<and>
            (\<forall>u \<in> set remaining. Intent (Unit (m_unitInfo p' ! u)) \<noteq> intent \<longrightarrow>
               ResultCode (ResultInformation (m_unitInfo p' ! u)) = errorForOtherIntents \<and>
               ResultSource (ResultInformation (m_unitInfo p' ! u)) = Precondition \<and>
               Result_State (m_unitInfo p' ! u) = Skipped \<and>
               UnitStateChange Skipped (ResultInformation (m_unitInfo p' ! u)) u \<in> set (m_events p'))"
proof -
  let ?same = "filter (\<lambda>u. Intent (Unit (m_unitInfo p1 ! u)) = intent) remaining"
  let ?other = "filter (\<lambda>u. Intent (Unit (m_unitInfo p1 ! u)) \<noteq> intent) remaining"
  let ?p2 = "fold (markOne WINGET_CONFIG_ERROR_DEPENDENCY_UNSATISFIED True) ?same p1"
  let ?p3 = "fold (markOne errorForOtherIntents True) ?other ?p2"
  let ?p' = "?p3\<lparr>m_resultCode := errorForFailures\<rparr>"
  have eq: "ProcessIntentInternal cands HasProcessedSuccessfully (ProcessUnit env) intent
               errorForOtherIntents errorForFailures True p = (Inr False, remaining, ?p')"
    by (simp add: ProcessIntentInternal_returned [OF run])
  have len: "length (m_unitInfo p1) = length (m_unitInfo p)"
    by (rule processReadyUnits_length [OF run])
  have rem: "set remaining \<subseteq> set cands"
    by (rule processReadyUnits_subset [OF run])
  have "ResultCode (ResultInformation (m_unitInfo ?p' ! u)) = errorForOtherIntents \<and>
        ResultSource (ResultInformation (m_unitInfo ?p' ! u)) = Precondition \<and>
        Result_State (m_unitInfo ?p' ! u) = Skipped \<and>
        UnitStateChange Skipped (ResultInformation (m_unitInfo ?p' ! u)) u \<in> set (m_events ?p')"
    if u: "u \<in> set remaining" and i: "Intent (Unit (m_unitInfo ?p' ! u)) \<noteq> intent" for u
  proof -
    from i have "u \<in> set ?other" using u by simp
    moreover have "u < length (m_unitInfo ?p2)" using u rem sub len by auto
    ultimately have "marked errorForOtherIntents True (Details (ResultInformation (m_unitInfo ?p2 ! u))) u ?p3"
      by (rule markAll_marks)
    then show ?thesis by (simp add: marked_def)
  qed
  with eq show ?thesis by (intro exI [of _ ?p']) simp
qed

subsection \<open>A failure in a phase\<close>

text \<open>
  Claim C2 as stated fails: with G (Assert, \<^verbatim>\<open>TestSettings\<close> Negative) and H (Apply,
  depending on G), H ends with the result code \<open>AssertionFailed\<close>, which is the
  \<^verbatim>\<open>errorForOtherIntents\<close> of the Assert phase, not with \<open>DependencyUnsatisfied\<close>.
\<close>

theorem later_phase_units_counterexample:
  "ResultCode (ResultInformation
      (m_unitInfo (snd (Process (testEnvironment Negative) (NewApplyProcessor unitsGH))) ! 1)) =
     WINGET_CONFIG_ERROR_ASSERTION_FAILED \<and>
   ResultCode (ResultInformation
      (m_unitInfo (snd (Process (testEnvironment Negative) (NewApplyProcessor unitsGH))) ! 1)) \<noteq>
     WINGET_CONFIG_ERROR_DEPENDENCY_UNSATISFIED"
  by code_simp

lemma scenario_GH:
  "fst (Process (testEnvironment Negative) (NewApplyProcessor unitsGH)) = Inr () \<and>
   ResultInformation (m_unitInfo (snd (Process (testEnvironment Negative) (NewApplyProcessor unitsGH))) ! 0) =
     \<lparr>ResultCode = WINGET_CONFIG_ERROR_ASSERTION_FAILED, ResultSource = Precondition, Details = []\<rparr> \<and>
   ResultInformation (m_unitInfo (snd (Process (testEnvironment Negative) (NewApplyProcessor unitsGH))) ! 1) =
     \<lparr>ResultCode = WINGET_CONFIG_ERROR_ASSERTION_FAILED, ResultSource = Precondition, Details = []\<rparr> \<and>
   Result_State (m_unitInfo (snd (Process (testEnvironment Negative) (NewApplyProcessor unitsGH))) ! 1) = Skipped \<and>
   m_events (snd (Process (testEnvironment Negative) (NewApplyProcessor unitsGH))) =
     [SetStateChange SetInProgress,
      UnitStateChange InProgress \<lparr>ResultCode = S_OK, ResultSource = SourceNone, Details = []\<rparr> 0,
      UnitStateChange Completed
        \<lparr>ResultCode = WINGET_CONFIG_ERROR_ASSERTION_FAILED, ResultSource = Precondition, Details = []\<rparr> 0,
      UnitStateChange Skipped
        \<lparr>ResultCode = WINGET_CONFIG_ERROR_ASSERTION_FAILED, ResultSource = Precondition, Details = []\<rparr> 1,
      SetStateChange SetCompleted] \<and>
   m_resultCode (snd (Process (testEnvironment Negative) (NewApplyProcessor unitsGH))) =
     WINGET_CONFIG_ERROR_ASSERTION_FAILED"
  by code_simp

subsection \<open>A unit that is not to be applied\<close>





subsection \<open>The phases\<close>

lemma ProcessIntentInternal_cases:
  assumes "ProcessIntentInternal cands chk f intent e1 e2 sp p = (r, remaining, p')"
  obtains
    (thrown) e where "r = Inl e"
      and "processReadyUnits chk f intent False cands p = (Inl e, remaining, p')"
  | (failed) hf p1 where "r = Inr False"
      and "processReadyUnits chk f intent False cands p = (Inr hf, remaining, p1)"
      and "hf \<or> (\<exists>u \<in> set remaining. Intent (Unit (m_unitInfo p1 ! u)) = intent)"
      and "p' = (fold (markOne e1 sp) (filter (\<lambda>u. Intent (Unit (m_unitInfo p1 ! u)) \<noteq> intent) remaining)
               (fold (markOne WINGET_CONFIG_ERROR_DEPENDENCY_UNSATISFIED sp)
                  (filter (\<lambda>u. Intent (Unit (m_unitInfo p1 ! u)) = intent) remaining) p1))
              \<lparr>m_resultCode := (if hf then e2 else WINGET_CONFIG_ERROR_DEPENDENCY_UNSATISFIED)\<rparr>"
  | (succeeded) "r = Inr True"
      and "processReadyUnits chk f intent False cands p = (Inr False, remaining, p')"
      and "\<forall>u \<in> set remaining. Intent (Unit (m_unitInfo p' ! u)) \<noteq> intent"
proof -
  obtain r1 c1 p1 where run: "processReadyUnits chk f intent False cands p = (r1, c1, p1)"
    by (cases "processReadyUnits chk f intent False cands p")
  show thesis
  proof (cases r1)
    case (Inl e)
    with run have "ProcessIntentInternal cands chk f intent e1 e2 sp p = (Inl e, c1, p1)"
      by (simp add: ProcessIntentInternal_thrown)
    with assms have "r = Inl e" "remaining = c1" "p' = p1"
      by simp_all
    with thrown [of e] run Inl show ?thesis by simp
  next
    case (Inr hf)
    note ret = ProcessIntentInternal_returned [OF run [unfolded Inr], of e1 e2 sp]
    show ?thesis
    proof (cases "hf \<or> (\<exists>u \<in> set c1. Intent (Unit (m_unitInfo p1 ! u)) = intent)")
      case True
      with ret assms have "r = Inr False" "remaining = c1"
        "p' = (fold (markOne e1 sp) (filter (\<lambda>u. Intent (Unit (m_unitInfo p1 ! u)) \<noteq> intent) c1)
               (fold (markOne WINGET_CONFIG_ERROR_DEPENDENCY_UNSATISFIED sp)
                  (filter (\<lambda>u. Intent (Unit (m_unitInfo p1 ! u)) = intent) c1) p1))
              \<lparr>m_resultCode := (if hf then e2 else WINGET_CONFIG_ERROR_DEPENDENCY_UNSATISFIED)\<rparr>"
        by simp_all
      with failed [of hf p1] run Inr True show ?thesis by simp
    next
      case False
      with ret assms have "r = Inr True" "remaining = c1" "p' = p1" "\<not> hf"
        by simp_all
      with succeeded run Inr False show ?thesis by simp
    qed
  qed
qed

lemma ProcessInternal_cases:
  assumes "ProcessInternal chk f sp p = (r, p')"
  obtains
    (assert_ended) c1 where
      "ProcessIntentInternal [0 ..< length (m_unitInfo p)] chk f Assert
         WINGET_CONFIG_ERROR_ASSERTION_FAILED WINGET_CONFIG_ERROR_ASSERTION_FAILED sp p = (r, c1, p')"
      and "r \<noteq> Inr True"
  | (inform_ended) c1 p1 c2 where
      "ProcessIntentInternal [0 ..< length (m_unitInfo p)] chk f Assert
         WINGET_CONFIG_ERROR_ASSERTION_FAILED WINGET_CONFIG_ERROR_ASSERTION_FAILED sp p = (Inr True, c1, p1)"
      and "ProcessIntentInternal c1 chk f Inform
         WINGET_CONFIG_ERROR_DEPENDENCY_UNSATISFIED WINGET_CONFIG_ERROR_DEPENDENCY_UNSATISFIED sp p1 = (r, c2, p')"
      and "r \<noteq> Inr True"
  | (apply_ended) c1 p1 c2 p2 c3 where
      "ProcessIntentInternal [0 ..< length (m_unitInfo p)] chk f Assert
         WINGET_CONFIG_ERROR_ASSERTION_FAILED WINGET_CONFIG_ERROR_ASSERTION_FAILED sp p = (Inr True, c1, p1)"
      and "ProcessIntentInternal c1 chk f Inform
         WINGET_CONFIG_ERROR_DEPENDENCY_UNSATISFIED WINGET_CONFIG_ERROR_DEPENDENCY_UNSATISFIED sp p1 = (Inr True, c2, p2)"
      and "ProcessIntentInternal c2 chk f Apply E_FAIL WINGET_CONFIG_ERROR_SET_APPLY_FAILED sp p2 = (r, c3, p')"
proof -
  obtain r1 c1 p1 where a: "ProcessIntentInternal [0 ..< length (m_unitInfo p)] chk f Assert
         WINGET_CONFIG_ERROR_ASSERTION_FAILED WINGET_CONFIG_ERROR_ASSERTION_FAILED sp p = (r1, c1, p1)"
    using prod_cases3 by blast
  show thesis
  proof (cases "r1 = Inr True")
    case False
    with a assms have "r = r1" "p' = p1"
      by (auto simp: ProcessInternal_def Let_def split: sum.splits bool.splits)
    with assert_ended a False show ?thesis by simp
  next
    case True
    obtain r2 c2 p2 where b: "ProcessIntentInternal c1 chk f Inform
         WINGET_CONFIG_ERROR_DEPENDENCY_UNSATISFIED WINGET_CONFIG_ERROR_DEPENDENCY_UNSATISFIED sp p1 = (r2, c2, p2)"
      using prod_cases3 by blast
    show ?thesis
    proof (cases "r2 = Inr True")
      case False
      with a b True assms have "r = r2" "p' = p2"
        by (auto simp: ProcessInternal_def Let_def split: sum.splits bool.splits)
      with inform_ended a b True False show ?thesis by simp
    next
      case r2: True
      obtain r3 c3 p3 where c: "ProcessIntentInternal c2 chk f Apply E_FAIL
           WINGET_CONFIG_ERROR_SET_APPLY_FAILED sp p2 = (r3, c3, p3)"
        using prod_cases3 by blast
      with a b True r2 assms have "r = r3" "p' = p3"
        by (auto simp: ProcessInternal_def Let_def split: sum.splits bool.splits)
      with apply_ended a b c True r2 show ?thesis by simp
    qed
  qed
qed

lemma scanForReady_intent:
  "scanForReady chk intent p cands = Some (u, rest) \<Longrightarrow> Intent (Unit (m_unitInfo p ! u)) = intent"
  by (drule scanForReady_split) (auto simp: HasIntentAndSatisfiedDependencies_def split: if_splits)

lemma scanForReady_ready:
  "scanForReady chk intent p cands = Some (u, rest) \<Longrightarrow>
     HasIntentAndSatisfiedDependencies p (m_unitInfo p ! u) intent chk"
  by (drule scanForReady_split) auto

lemma processReadyUnits_cong:
  assumes "\<And>u q. HasIntentAndSatisfiedDependencies q (m_unitInfo q ! u) intent chk \<Longrightarrow> f u q = g u q"
  shows "processReadyUnits chk f intent hf cands p = processReadyUnits chk g intent hf cands p"
  using assms
proof (induction chk f intent hf cands p rule: processReadyUnits.induct)
  case (1 chk f intent hf cands p)
  show ?case
  proof (cases "scanForReady chk intent p cands")
    case None
    then show ?thesis
      by (simp add: processReadyUnits.simps [of chk f] processReadyUnits.simps [of chk g])
  next
    case (Some a)
    then obtain u rest where sc: "scanForReady chk intent p cands = Some (u, rest)"
      by (cases a) simp
    have fg: "f u p = g u p"
      by (rule "1.prems") (rule scanForReady_ready [OF sc])
    obtain x q where fu: "f u p = (x, q)" by (cases "f u p")
    show ?thesis
    proof (cases x)
      case (Inl e)
      with sc fu fg show ?thesis
        by (simp add: processReadyUnits.simps [of chk f] processReadyUnits.simps [of chk g])
    next
      case (Inr ok)
      have "processReadyUnits chk f intent (if \<not> ok then True else hf) rest q =
            processReadyUnits chk g intent (if \<not> ok then True else hf) rest q"
        by (rule "1.IH" [OF sc refl fu [symmetric] Inr]) (rule "1.prems")
      with sc fu fg Inr show ?thesis
        by (simp add: processReadyUnits.simps [of chk f _ _ cands] processReadyUnits.simps [of chk g _ _ cands])
    qed
  qed
qed

lemma ProcessIntentInternal_cong:
  assumes "\<And>u q. HasIntentAndSatisfiedDependencies q (m_unitInfo q ! u) intent chk \<Longrightarrow> f u q = g u q"
  shows "ProcessIntentInternal cands chk f intent e1 e2 sp p =
         ProcessIntentInternal cands chk g intent e1 e2 sp p"
  by (simp add: ProcessIntentInternal_def processReadyUnits_cong [of intent chk f g, OF assms])

lemma ProcessInternal_cong:
  assumes "\<And>u q. Intent (Unit (m_unitInfo q ! u)) \<noteq> OtherIntent \<Longrightarrow> f u q = g u q"
  shows "ProcessInternal chk f sp p = ProcessInternal chk g sp p"
proof -
  have "ProcessIntentInternal cands chk f intent e1 e2 sp q =
        ProcessIntentInternal cands chk g intent e1 e2 sp q"
    if "intent \<noteq> OtherIntent" for cands intent e1 e2 q
    by (rule ProcessIntentInternal_cong, rule assms)
       (use that in \<open>auto simp: HasIntentAndSatisfiedDependencies_def split: if_splits\<close>)
  then show ?thesis
    by (simp add: ProcessInternal_def Let_def split: prod.splits sum.splits bool.splits)
qed

subsection \<open>Every member function is a sequence of single writes\<close>

lemma lastWritten_append:
  "lastWritten j (ws @ [(i, c)]) = (if i = j then c else lastWritten j ws)"
  by (induction ws) (auto simp: image_iff)

lemma steps_step: "primStep\<^sup>*\<^sup>* p q \<Longrightarrow> primStep q q' \<Longrightarrow> primStep\<^sup>*\<^sup>* p q'"
  by (rule rtranclp.rtrancl_into_rtrancl)

lemma steps_update:
  "primStep\<^sup>*\<^sup>* p q \<Longrightarrow>
     (\<And>ui. Unit (f ui) = Unit ui \<and> ResultInformation (f ui) = ResultInformation ui) \<Longrightarrow>
     primStep\<^sup>*\<^sup>* p (updateUnitInfo i f q)"
  by (erule steps_step) (rule ps_update)

lemma steps_prims:
  "primStep\<^sup>*\<^sup>* p q \<Longrightarrow> primStep\<^sup>*\<^sup>* p (Initialize c s i q)"
  "primStep\<^sup>*\<^sup>* p q \<Longrightarrow> primStep\<^sup>*\<^sup>* p (InitializeFrom info i q)"
  "primStep\<^sup>*\<^sup>* p q \<Longrightarrow> primStep\<^sup>*\<^sup>* p (ExtractUnitResultInformation info i q)"
  "primStep\<^sup>*\<^sup>* p q \<Longrightarrow> primStep\<^sup>*\<^sup>* p (SetDetails d i q)"
  "primStep\<^sup>*\<^sup>* p q \<Longrightarrow> primStep\<^sup>*\<^sup>* p (SendProgress st i q)"
  "primStep\<^sup>*\<^sup>* p q \<Longrightarrow> primStep\<^sup>*\<^sup>* p (SendProgressSet ss q)"
  "primStep\<^sup>*\<^sup>* p q \<Longrightarrow> primStep\<^sup>*\<^sup>* p (SendProgressIfNotComplete st i q)"
  "primStep\<^sup>*\<^sup>* p q \<Longrightarrow> primStep\<^sup>*\<^sup>* p (recordCall cl q)"
  "primStep\<^sup>*\<^sup>* p q \<Longrightarrow> primStep\<^sup>*\<^sup>* p (q\<lparr>m_polls := n\<rparr>)"
  "primStep\<^sup>*\<^sup>* p q \<Longrightarrow> primStep\<^sup>*\<^sup>* p (q\<lparr>m_idToUnitInfoIndex := m\<rparr>)"
  "primStep\<^sup>*\<^sup>* p q \<Longrightarrow> primStep\<^sup>*\<^sup>* p (q\<lparr>m_resultCode := rc\<rparr>)"
  "primStep\<^sup>*\<^sup>* p q \<Longrightarrow> primStep\<^sup>*\<^sup>* p (snd (ThrowIfCancelled env q))"
  by (auto simp: ExtractUnitResultInformation_def SendProgressIfNotComplete_def ThrowIfCancelled_def
      intro: steps_step primStep.intros)

lemma steps_flags:
  "primStep\<^sup>*\<^sup>* p q \<Longrightarrow> primStep\<^sup>*\<^sup>* p (updateUnitInfo i (\<lambda>ui. ui\<lparr>Processed := True\<rparr>) q)"
  "primStep\<^sup>*\<^sup>* p q \<Longrightarrow> primStep\<^sup>*\<^sup>* p (updateUnitInfo i (\<lambda>ui. ui\<lparr>PreProcessed := True\<rparr>) q)"
  "primStep\<^sup>*\<^sup>* p q \<Longrightarrow> primStep\<^sup>*\<^sup>* p (updateUnitInfo i (\<lambda>ui. ui\<lparr>Result_PreviouslyInDesiredState := True\<rparr>) q)"
  "primStep\<^sup>*\<^sup>* p q \<Longrightarrow> primStep\<^sup>*\<^sup>* p (updateUnitInfo i (\<lambda>ui. ui\<lparr>Result_RebootRequired := b\<rparr>) q)"
  "primStep\<^sup>*\<^sup>* p q \<Longrightarrow>
     primStep\<^sup>*\<^sup>* p (updateUnitInfo i (\<lambda>ui. ui\<lparr>DependencyIndices := DependencyIndices ui @ [k]\<rparr>) q)"
  by (erule steps_update, simp)+

lemma steps_markOne: "primStep\<^sup>*\<^sup>* p q \<Longrightarrow> primStep\<^sup>*\<^sup>* p (markOne code sp u q)"
  by (simp add: markOne_def Let_def steps_prims)

lemma steps_markAll: "primStep\<^sup>*\<^sup>* p q \<Longrightarrow> primStep\<^sup>*\<^sup>* p (fold (markOne code sp) us q)"
  by (induction us arbitrary: q) (simp_all add: steps_markOne)

lemma steps_MarkPreprocessed: "primStep\<^sup>*\<^sup>* p q \<Longrightarrow> primStep\<^sup>*\<^sup>* p (snd (MarkPreprocessed u q))"
  by (simp add: MarkPreprocessed_def steps_flags)

lemma steps_ProcessUnit_Assert:
  "primStep\<^sup>*\<^sup>* p q \<Longrightarrow> primStep\<^sup>*\<^sup>* p (snd (ProcessUnit_Assert env u q))"
  by (auto simp: ProcessUnit_Assert_def Let_def split: sum.splits intro!: steps_prims steps_flags)

lemma steps_ProcessUnit_Inform:
  "primStep\<^sup>*\<^sup>* p q \<Longrightarrow> primStep\<^sup>*\<^sup>* p (snd (ProcessUnit_Inform env u q))"
  by (auto simp: ProcessUnit_Inform_def Let_def split: sum.splits intro!: steps_prims steps_flags)

lemma steps_ProcessUnit_Apply:
  "primStep\<^sup>*\<^sup>* p q \<Longrightarrow> primStep\<^sup>*\<^sup>* p (snd (ProcessUnit_Apply env u q))"
  by (auto simp: ProcessUnit_Apply_def Let_def split: sum.splits prod.splits
      dest!: ThrowIfCancelled_cases intro!: steps_prims steps_flags)

lemma steps_ProcessUnit_Run:
  "primStep\<^sup>*\<^sup>* p q \<Longrightarrow> primStep\<^sup>*\<^sup>* p (snd (ProcessUnit_Run env u q))"
  by (auto simp: ProcessUnit_Run_def Let_def
      split: sum.splits prod.splits option.splits ConfigurationUnitIntent.splits
      dest!: ThrowIfCancelled_cases
      intro!: steps_prims steps_flags steps_ProcessUnit_Assert steps_ProcessUnit_Inform steps_ProcessUnit_Apply)

lemma steps_ProcessUnit:
  "primStep\<^sup>*\<^sup>* p q \<Longrightarrow> primStep\<^sup>*\<^sup>* p (snd (ProcessUnit env u q))"
  by (auto simp: ProcessUnit_unfold committed_def intro!: steps_prims steps_flags steps_ProcessUnit_Run)

lemma steps_processReadyUnits:
  assumes run: "processReadyUnits chk f intent hf cands p = (r, cands', p')"
    and f: "\<And>u q. primStep\<^sup>*\<^sup>* q (snd (f u q))"
  shows "primStep\<^sup>*\<^sup>* p p'"
proof (rule processReadyUnits_rule [OF run, where P = "\<lambda>h c q. primStep\<^sup>*\<^sup>* p q"
      and Q = "\<lambda>r c q. primStep\<^sup>*\<^sup>* p q"])
  show "primStep\<^sup>*\<^sup>* p p" by simp
next
  fix q u ok q' assume "primStep\<^sup>*\<^sup>* p q" "f u q = (Inr ok, q')"
  with f [of q u] show "primStep\<^sup>*\<^sup>* p q'" by simp
next
  fix q u e q' assume "primStep\<^sup>*\<^sup>* p q" "f u q = (Inl e, q')"
  with f [of q u] show "primStep\<^sup>*\<^sup>* p q'" by simp
qed

lemma steps_ProcessIntentInternal:
  assumes run: "ProcessIntentInternal cands chk f intent e1 e2 sp p = (r, remaining, p')"
    and f: "\<And>u q. primStep\<^sup>*\<^sup>* q (snd (f u q))"
  shows "primStep\<^sup>*\<^sup>* p p'"
  using run
proof (cases rule: ProcessIntentInternal_cases)
  case (thrown e)
  then show ?thesis using steps_processReadyUnits f by blast
next
  case (failed hf p1)
  from failed(2) have "primStep\<^sup>*\<^sup>* p p1" using steps_processReadyUnits f by blast
  then show ?thesis
    unfolding failed(4) by (intro steps_prims steps_markAll)
next
  case succeeded
  then show ?thesis using steps_processReadyUnits f by blast
qed

lemma steps_ProcessInternal:
  assumes run: "ProcessInternal chk f sp p = (r, p')"
    and f: "\<And>u q. primStep\<^sup>*\<^sup>* q (snd (f u q))"
  shows "primStep\<^sup>*\<^sup>* p p'"
  using run
proof (cases rule: ProcessInternal_cases)
  case (assert_ended c1)
  then show ?thesis using steps_ProcessIntentInternal f by blast
next
  case (inform_ended c1 p1 c2)
  from steps_ProcessIntentInternal [OF inform_ended(1) f] steps_ProcessIntentInternal [OF inform_ended(2) f]
  show ?thesis by simp
next
  case (apply_ended c1 p1 c2 p2 c3)
  from steps_ProcessIntentInternal [OF apply_ended(1) f] steps_ProcessIntentInternal [OF apply_ended(2) f]
    steps_ProcessIntentInternal [OF apply_ended(3) f]
  show ?thesis by simp
qed

lemma steps_AddUnitToMap:
  "primStep\<^sup>*\<^sup>* p q \<Longrightarrow> primStep\<^sup>*\<^sup>* p (snd (AddUnitToMap env i q))"
  by (auto simp: AddUnitToMap_def Let_def split: option.splits intro!: steps_prims)

lemma steps_addUnitsToMap:
  "primStep\<^sup>*\<^sup>* p q \<Longrightarrow> primStep\<^sup>*\<^sup>* p (snd (addUnitsToMap env is r q))"
proof (induction "is" arbitrary: r q)
  case Nil
  then show ?case by simp
next
  case (Cons i "is")
  obtain ok q' where eq: "AddUnitToMap env i q = (ok, q')"
    by (cases "AddUnitToMap env i q")
  with steps_AddUnitToMap [OF Cons.prems, of env i] have "primStep\<^sup>*\<^sup>* p q'"
    by simp
  from Cons.IH [OF this] eq show ?case
    by simp
qed

lemma steps_resolveDependencies:
  "primStep\<^sup>*\<^sup>* p q \<Longrightarrow> primStep\<^sup>*\<^sup>* p (snd (resolveDependencies env i deps q))"
proof (induction deps arbitrary: q)
  case Nil
  then show ?case by simp
next
  case (Cons d deps)
  show ?case
  proof (cases "d = []")
    case True
    with Cons show ?thesis by simp
  next
    case False
    show ?thesis
    proof (cases "m_idToUnitInfoIndex q (GetNormalizedIdentifier env d)")
      case None
      with False Cons.prems show ?thesis by (simp add: steps_prims)
    next
      case (Some k)
      with False Cons.IH [OF steps_flags(5) [OF Cons.prems, of i k]] show ?thesis by simp
    qed
  qed
qed

lemma steps_resolveUnits:
  "primStep\<^sup>*\<^sup>* p q \<Longrightarrow> primStep\<^sup>*\<^sup>* p (snd (resolveUnits env is r q))"
proof (induction "is" arbitrary: r q)
  case Nil
  then show ?case by simp
next
  case (Cons i "is")
  obtain ok q' where eq: "resolveDependencies env i (Dependencies (Unit (m_unitInfo q ! i))) q = (ok, q')"
    by (cases "resolveDependencies env i (Dependencies (Unit (m_unitInfo q ! i))) q")
  with steps_resolveDependencies [OF Cons.prems, of env i] have "primStep\<^sup>*\<^sup>* p q'"
    by (metis snd_conv)
  from Cons.IH [OF this] eq show ?case
    by simp
qed

lemma steps_PreProcess: "primStep\<^sup>*\<^sup>* p (snd (PreProcess env p))"
proof -
  obtain r1 p1 where a: "addUnitsToMap env [0 ..< length (m_unitInfo p)] True p = (r1, p1)"
    by (cases "addUnitsToMap env [0 ..< length (m_unitInfo p)] True p")
  have s1: "primStep\<^sup>*\<^sup>* p p1"
    using steps_addUnitsToMap [of p p env "[0 ..< length (m_unitInfo p)]" True] a by simp
  obtain r2 p2 where b: "resolveUnits env [0 ..< length (m_unitInfo p1)] True p1 = (r2, p2)"
    by (cases "resolveUnits env [0 ..< length (m_unitInfo p1)] True p1")
  have s2: "primStep\<^sup>*\<^sup>* p p2"
    using steps_resolveUnits [OF s1, of env "[0 ..< length (m_unitInfo p1)]" True] b by simp
  obtain r3 p3 where c: "ProcessInternal HasPreprocessed MarkPreprocessed False p2 = (r3, p3)"
    by (cases "ProcessInternal HasPreprocessed MarkPreprocessed False p2")
  have "primStep\<^sup>*\<^sup>* p2 p3"
    by (rule steps_ProcessInternal [OF c]) (rule steps_MarkPreprocessed, simp)
  with s2 have s3: "primStep\<^sup>*\<^sup>* p p3" by simp
  show ?thesis
    using a b c s1 s2 s3
    by (auto simp: PreProcess_def split: bool.splits sum.splits intro!: steps_prims)
qed

lemma steps_Process: "primStep\<^sup>*\<^sup>* p (snd (Process env p))"
proof -
  obtain r1 p1 where a: "PreProcess env p = (r1, p1)"
    by (cases "PreProcess env p")
  have s1: "primStep\<^sup>*\<^sup>* p p1"
    using steps_PreProcess [of p env] a by simp
  obtain r2 p2 where b: "ProcessInternal HasProcessedSuccessfully (ProcessUnit env) True
      (SendProgressSet SetInProgress p1) = (r2, p2)"
    by (cases "ProcessInternal HasProcessedSuccessfully (ProcessUnit env) True
      (SendProgressSet SetInProgress p1)")
  have "primStep\<^sup>*\<^sup>* (SendProgressSet SetInProgress p1) p2"
    by (rule steps_ProcessInternal [OF b]) (rule steps_ProcessUnit, simp)
  with steps_prims(6) [OF s1, of SetInProgress] have s2: "primStep\<^sup>*\<^sup>* p p2" by simp
  show ?thesis
    using a b s1 s2
    by (auto simp: Process_def split: bool.splits sum.splits intro!: steps_prims)
qed

lemma primStep_sameUnits: "primStep p q \<Longrightarrow> sameUnits p q"
  by (induction rule: primStep.induct) (simp_all add: sameUnits_def nth_prims)

lemma sameUnits_refl: "sameUnits p p"
  by (simp add: sameUnits_def)

lemma sameUnits_trans: "sameUnits p q \<Longrightarrow> sameUnits q r \<Longrightarrow> sameUnits p r"
  by (simp add: sameUnits_def)

lemma steps_sameUnits: "primStep\<^sup>*\<^sup>* p q \<Longrightarrow> sameUnits p q"
  by (induction rule: rtranclp_induct)
     (auto intro: sameUnits_refl sameUnits_trans primStep_sameUnits)

lemma primStep_codesFollowWrites: "primStep p q \<Longrightarrow> codesFollowWrites p \<Longrightarrow> codesFollowWrites q"
  by (induction rule: primStep.induct)
     (auto simp: codesFollowWrites_def nth_prims lastWritten_append)

lemma steps_codesFollowWrites: "primStep\<^sup>*\<^sup>* p q \<Longrightarrow> codesFollowWrites p \<Longrightarrow> codesFollowWrites q"
  by (induction rule: rtranclp_induct) (auto intro: primStep_codesFollowWrites)

lemma NewApplyProcessor_codesFollowWrites: "codesFollowWrites (NewApplyProcessor units)"
  by (simp add: codesFollowWrites_def)

subsection \<open>The intents of the units that are processed\<close>

lemma ProcessUnit_processedHaveNamedIntent:
  assumes "ProcessUnit env u q = (x, q')" and "Intent (Unit (m_unitInfo q ! u)) \<noteq> OtherIntent"
    and "processedHaveNamedIntent q"
  shows "processedHaveNamedIntent q'"
proof -
  from ProcessUnit_frame [OF assms(1)] have fr: "unitFrame u q q'" .
  show ?thesis
    unfolding processedHaveNamedIntent_def
  proof (intro allI impI)
    fix j assume j: "j < length (m_unitInfo q')" and pr: "Processed (m_unitInfo q' ! j)"
    show "Intent (Unit (m_unitInfo q' ! j)) \<noteq> OtherIntent"
    proof (cases "j = u")
      case True
      with fr assms(2) show ?thesis by (simp add: unitFrame_def)
    next
      case False
      with fr j pr assms(3) show ?thesis
        by (simp add: unitFrame_def processedHaveNamedIntent_def)
    qed
  qed
qed

lemma markAll_processedHaveNamedIntent:
  "processedHaveNamedIntent q \<Longrightarrow> processedHaveNamedIntent (fold (markOne code sp) us q)"
  by (simp add: processedHaveNamedIntent_def)

lemma processReadyUnits_processedHaveNamedIntent:
  assumes run: "processReadyUnits chk (ProcessUnit env) intent hf cands p = (r, cands', p')"
    and "intent \<noteq> OtherIntent" and "processedHaveNamedIntent p"
  shows "processedHaveNamedIntent p'"
  by (rule processReadyUnits_rule [OF run, where P = "\<lambda>h c q. processedHaveNamedIntent q"
        and Q = "\<lambda>r c q. processedHaveNamedIntent q"])
     (use assms(2,3) in \<open>auto dest: scanForReady_intent intro: ProcessUnit_processedHaveNamedIntent\<close>)

lemma ProcessIntentInternal_processedHaveNamedIntent:
  assumes run: "ProcessIntentInternal cands chk (ProcessUnit env) intent e1 e2 sp p = (r, remaining, p')"
    and "intent \<noteq> OtherIntent" and "processedHaveNamedIntent p"
  shows "processedHaveNamedIntent p'"
  using run
proof (cases rule: ProcessIntentInternal_cases)
  case (thrown e)
  then show ?thesis using processReadyUnits_processedHaveNamedIntent assms(2,3) by blast
next
  case (failed hf p1)
  from failed(2) have "processedHaveNamedIntent p1"
    using processReadyUnits_processedHaveNamedIntent assms(2,3) by blast
  then show ?thesis
    unfolding failed(4) by (simp add: processedHaveNamedIntent_def)
next
  case succeeded
  then show ?thesis using processReadyUnits_processedHaveNamedIntent assms(2,3) by blast
qed

lemma ProcessInternal_processedHaveNamedIntent:
  assumes run: "ProcessInternal chk (ProcessUnit env) sp p = (r, p')"
    and "processedHaveNamedIntent p"
  shows "processedHaveNamedIntent p'"
  using run
proof (cases rule: ProcessInternal_cases)
  case (assert_ended c1)
  then show ?thesis
    using ProcessIntentInternal_processedHaveNamedIntent [OF assert_ended(1)] assms(2) by simp
next
  case (inform_ended c1 p1 c2)
  have "processedHaveNamedIntent p1"
    using ProcessIntentInternal_processedHaveNamedIntent [OF inform_ended(1)] assms(2) by simp
  then show ?thesis
    using ProcessIntentInternal_processedHaveNamedIntent [OF inform_ended(2)] by simp
next
  case (apply_ended c1 p1 c2 p2 c3)
  have "processedHaveNamedIntent p1"
    using ProcessIntentInternal_processedHaveNamedIntent [OF apply_ended(1)] assms(2) by simp
  then have "processedHaveNamedIntent p2"
    using ProcessIntentInternal_processedHaveNamedIntent [OF apply_ended(2)] by simp
  then show ?thesis
    using ProcessIntentInternal_processedHaveNamedIntent [OF apply_ended(3)] by simp
qed

text \<open>
  Claim C10. The process function of a phase is called only on units that have the intent of
  the phase and satisfied dependencies: the phase is the same for any two process functions
  that agree on those units. The phases are those of Assert, Inform and Apply, so what
  \<^verbatim>\<open>ProcessUnit\<close> does for a unit of any other intent, which is the default branch of its
  switch, has no effect on \<^verbatim>\<open>ProcessInternal\<close>; and when the units processed so far have
  named intents, so have the units processed after it.
\<close>

theorem default_branch_unreachable:
  "((\<forall>u q. HasIntentAndSatisfiedDependencies q (m_unitInfo q ! u) intent chk \<longrightarrow> f u q = g u q) \<longrightarrow>
      ProcessIntentInternal cands chk f intent e1 e2 sendProgress p =
      ProcessIntentInternal cands chk g intent e1 e2 sendProgress p) \<and>
   ((\<forall>u q. Intent (Unit (m_unitInfo q ! u)) \<noteq> OtherIntent \<longrightarrow> f u q = ProcessUnit env u q) \<longrightarrow>
      ProcessInternal chk f sendProgress p = ProcessInternal chk (ProcessUnit env) sendProgress p) \<and>
   ((\<forall>j < length (m_unitInfo p).
        Processed (m_unitInfo p ! j) \<longrightarrow> Intent (Unit (m_unitInfo p ! j)) \<noteq> OtherIntent) \<longrightarrow>
      (\<forall>j < length (m_unitInfo (snd (ProcessInternal chk (ProcessUnit env) sendProgress p))).
         Processed (m_unitInfo (snd (ProcessInternal chk (ProcessUnit env) sendProgress p)) ! j) \<longrightarrow>
         Intent (Unit (m_unitInfo (snd (ProcessInternal chk (ProcessUnit env) sendProgress p)) ! j)) \<noteq>
           OtherIntent))"
proof -
  have a: "ProcessIntentInternal cands chk f intent e1 e2 sendProgress p =
      ProcessIntentInternal cands chk g intent e1 e2 sendProgress p"
    if "\<forall>u q. HasIntentAndSatisfiedDependencies q (m_unitInfo q ! u) intent chk \<longrightarrow> f u q = g u q"
    using that by (intro ProcessIntentInternal_cong) simp
  have b: "ProcessInternal chk f sendProgress p = ProcessInternal chk (ProcessUnit env) sendProgress p"
    if "\<forall>u q. Intent (Unit (m_unitInfo q ! u)) \<noteq> OtherIntent \<longrightarrow> f u q = ProcessUnit env u q"
    using that by (intro ProcessInternal_cong) simp
  have c: "processedHaveNamedIntent (snd (ProcessInternal chk (ProcessUnit env) sendProgress p))"
    if "processedHaveNamedIntent p"
    using ProcessInternal_processedHaveNamedIntent [OF _ that, of chk env sendProgress]
    by (metis prod.collapse)
  show ?thesis
    using a b c unfolding processedHaveNamedIntent_def by blast
qed

theorem default_branch_unreachable_witness:
  "ProcessIntentInternal [0, 1] HasProcessedSuccessfully (otherwiseProcessUnit (testEnvironment Positive)) Apply
      E_FAIL WINGET_CONFIG_ERROR_SET_APPLY_FAILED True (NewApplyProcessor unitsWithOtherIntent) =
   ProcessIntentInternal [0, 1] HasProcessedSuccessfully (ProcessUnit (testEnvironment Positive)) Apply
      E_FAIL WINGET_CONFIG_ERROR_SET_APPLY_FAILED True (NewApplyProcessor unitsWithOtherIntent) \<and>
   ProcessInternal HasProcessedSuccessfully (otherwiseProcessUnit (testEnvironment Positive)) True
      (NewApplyProcessor unitsWithOtherIntent) =
   ProcessInternal HasProcessedSuccessfully (ProcessUnit (testEnvironment Positive)) True
      (NewApplyProcessor unitsWithOtherIntent) \<and>
   Processed (m_unitInfo (snd (ProcessInternal HasProcessedSuccessfully (ProcessUnit (testEnvironment Positive))
      True (NewApplyProcessor unitsWithOtherIntent))) ! 1) \<and>
   Intent (Unit (m_unitInfo (snd (ProcessInternal HasProcessedSuccessfully (ProcessUnit (testEnvironment Positive))
      True (NewApplyProcessor unitsWithOtherIntent))) ! 1)) \<noteq> OtherIntent"
proof -
  let ?env = "testEnvironment Positive"
  let ?p = "NewApplyProcessor unitsWithOtherIntent"
  let ?p' = "snd (ProcessInternal HasProcessedSuccessfully (ProcessUnit ?env) True ?p)"
  note inst = default_branch_unreachable [of Apply HasProcessedSuccessfully "otherwiseProcessUnit ?env"
      "ProcessUnit ?env" "[0, 1]" E_FAIL WINGET_CONFIG_ERROR_SET_APPLY_FAILED True ?p ?env]
  have h1: "\<forall>u q. HasIntentAndSatisfiedDependencies q (m_unitInfo q ! u) Apply HasProcessedSuccessfully \<longrightarrow>
      otherwiseProcessUnit ?env u q = ProcessUnit ?env u q"
    by (auto simp: otherwiseProcessUnit_def HasIntentAndSatisfiedDependencies_def split: if_splits)
  have h2: "\<forall>u q. Intent (Unit (m_unitInfo q ! u)) \<noteq> OtherIntent \<longrightarrow>
      otherwiseProcessUnit ?env u q = ProcessUnit ?env u q"
    by (simp add: otherwiseProcessUnit_def)
  have h3: "\<forall>j < length (m_unitInfo ?p).
      Processed (m_unitInfo ?p ! j) \<longrightarrow> Intent (Unit (m_unitInfo ?p ! j)) \<noteq> OtherIntent"
    by simp
  have len: "1 < length (m_unitInfo ?p')" and pr: "Processed (m_unitInfo ?p' ! 1)"
    by code_simp+
  from inst [THEN conjunct1, THEN mp, OF h1] inst [THEN conjunct2, THEN conjunct1, THEN mp, OF h2]
    inst [THEN conjunct2, THEN conjunct2, THEN mp, OF h3, rule_format, OF len pr] pr
  show ?thesis by blast
qed

subsection \<open>Terminal states\<close>

lemma ProcessUnit_Run_length:
  "length (m_unitInfo (snd (ProcessUnit_Run env u q))) = length (m_unitInfo q)"
  using ProcessUnit_Run_frame [OF unitFrame_refl, of u q env] by (simp add: unitFrame_def)

lemma ProcessUnit_terminal:
  assumes "ProcessUnit env u p = (Inr b, p')" and "u < length (m_unitInfo p)"
  shows "Result_State (m_unitInfo p' ! u) = Completed \<or> Result_State (m_unitInfo p' ! u) = Skipped"
proof -
  have len: "length (m_unitInfo (committed env u p)) = length (m_unitInfo p)"
    using committed_frame [of u p env] by (simp add: unitFrame_def)
  from assms len show ?thesis
    by (auto simp: ProcessUnit_unfold nth_prims ProcessUnit_Run_length split: if_splits)
qed

lemma processReadyUnits_terminalOutside:
  assumes run: "processReadyUnits chk (ProcessUnit env) intent hf cands p = (Inr b, cands', p')"
    and "terminalOutside cands p"
  shows "terminalOutside cands' p'"
proof -
  have "\<forall>b. r = Inr b \<longrightarrow> terminalOutside c q"
    if "processReadyUnits chk (ProcessUnit env) intent hf cands p = (r, c, q)" for r c q
  proof (rule processReadyUnits_rule [OF that, where P = "\<lambda>h c q. terminalOutside c q"
        and Q = "\<lambda>r c q. \<forall>b. r = Inr b \<longrightarrow> terminalOutside c q"])
    show "terminalOutside cands p" by fact
  next
    fix c q u rest ok q'
    assume inv: "terminalOutside c q" and sc: "scanForReady chk intent q c = Some (u, rest)"
      and pu: "ProcessUnit env u q = (Inr ok, q')"
    from ProcessUnit_frame [OF pu] have fr: "unitFrame u q q'" .
    from scanForReady_split [OF sc] have cs: "set c = insert u (set rest)" by auto
    show "terminalOutside rest q'"
      unfolding terminalOutside_def
    proof (intro allI impI)
      fix j assume j: "j < length (m_unitInfo q')" and nr: "j \<notin> set rest"
      show "Result_State (m_unitInfo q' ! j) = Completed \<or> Result_State (m_unitInfo q' ! j) = Skipped"
      proof (cases "j = u")
        case True
        with j fr ProcessUnit_terminal [OF pu] show ?thesis by (simp add: unitFrame_def)
      next
        case False
        with nr cs have "j \<notin> set c" by simp
        with inv j fr False show ?thesis by (simp add: terminalOutside_def unitFrame_def)
      qed
    qed
  qed simp_all
  with run show ?thesis by blast
qed

lemma marked_terminal:
  assumes "terminalOutside remaining p1"
  shows "terminalOutside []
     (fold (markOne e1 True) (filter (\<lambda>u. Intent (Unit (m_unitInfo p1 ! u)) \<noteq> intent) remaining)
        (fold (markOne WINGET_CONFIG_ERROR_DEPENDENCY_UNSATISFIED True)
           (filter (\<lambda>u. Intent (Unit (m_unitInfo p1 ! u)) = intent) remaining) p1))"
    (is "terminalOutside [] (fold _ ?other ?p2)")
  unfolding terminalOutside_def
proof (intro allI impI)
  fix j assume "j < length (m_unitInfo (fold (markOne e1 True) ?other ?p2))"
  then have j: "j < length (m_unitInfo p1)" by simp
  let ?st = "\<lambda>q. Result_State (m_unitInfo q ! j)"
  have two: "?st ?p2 = Completed \<or> ?st ?p2 = Skipped"
    if "j \<notin> set ?other"
  proof (cases "j \<in> set remaining")
    case True
    with that have "j \<in> set (filter (\<lambda>u. Intent (Unit (m_unitInfo p1 ! u)) = intent) remaining)"
      by simp
    from markAll_marks [OF this j, of WINGET_CONFIG_ERROR_DEPENDENCY_UNSATISFIED True]
    show ?thesis by (simp add: marked_def)
  next
    case False
    then have "m_unitInfo ?p2 ! j = m_unitInfo p1 ! j"
      by (intro markAll_untouched) simp
    with assms j False show ?thesis by (simp add: terminalOutside_def)
  qed
  show "?st (fold (markOne e1 True) ?other ?p2) = Completed \<or>
        ?st (fold (markOne e1 True) ?other ?p2) = Skipped"
  proof (cases "j \<in> set ?other")
    case True
    from markAll_marks [OF True, of ?p2 e1 True] j show ?thesis
      by (simp add: marked_def)
  next
    case False
    then have "m_unitInfo (fold (markOne e1 True) ?other ?p2) ! j = m_unitInfo ?p2 ! j"
      by (rule markAll_untouched)
    with two [OF False] show ?thesis by simp
  qed
qed

lemma ProcessIntentInternal_terminal:
  assumes run: "ProcessIntentInternal cands chk (ProcessUnit env) intent e1 e2 True p = (Inr b, remaining, p')"
    and inv: "terminalOutside cands p"
  shows "if b then terminalOutside remaining p' \<and> set remaining \<subseteq> set cands \<and>
               (\<forall>u \<in> set remaining. Intent (Unit (m_unitInfo p' ! u)) \<noteq> intent)
         else terminalOutside [] p'"
  using run
proof (cases rule: ProcessIntentInternal_cases)
  case (thrown e)
  then show ?thesis by simp
next
  case (failed hf p1)
  from processReadyUnits_terminalOutside [OF failed(2) inv] have "terminalOutside remaining p1" .
  from marked_terminal [OF this, of e1 intent] failed(1,4) show ?thesis
    by (simp add: terminalOutside_def)
next
  case succeeded
  with processReadyUnits_terminalOutside [OF succeeded(2) inv] processReadyUnits_subset [OF succeeded(2)]
  show ?thesis by simp
qed

lemma sameUnits_ProcessIntentInternal:
  assumes "ProcessIntentInternal cands chk (ProcessUnit env) intent e1 e2 sp p = (r, remaining, p')"
  shows "sameUnits p p'"
  by (rule steps_sameUnits, rule steps_ProcessIntentInternal [OF assms]) (rule steps_ProcessUnit, simp)

lemma ProcessInternal_terminal:
  assumes run: "ProcessInternal chk (ProcessUnit env) True p = (Inr b, p')"
    and named: "\<forall>j < length (m_unitInfo p). Intent (Unit (m_unitInfo p ! j)) \<noteq> OtherIntent"
  shows "terminalOutside [] p'"
proof -
  have start: "terminalOutside [0 ..< length (m_unitInfo p)] p"
    by (simp add: terminalOutside_def)
  from run show ?thesis
  proof (cases rule: ProcessInternal_cases)
    case (assert_ended c1)
    then have "b = False" by simp
    with ProcessIntentInternal_terminal [OF assert_ended(1) start] show ?thesis by simp
  next
    case (inform_ended c1 p1 c2)
    then have b: "b = False" by simp
    from ProcessIntentInternal_terminal [OF inform_ended(1) start] have "terminalOutside c1 p1" by simp
    from ProcessIntentInternal_terminal [OF inform_ended(2) this] b show ?thesis by simp
  next
    case (apply_ended c1 p1 c2 p2 c3)
    from ProcessIntentInternal_terminal [OF apply_ended(1) start]
    have t1: "terminalOutside c1 p1" and s1: "set c1 \<subseteq> {..<length (m_unitInfo p)}"
      and i1: "\<forall>u \<in> set c1. Intent (Unit (m_unitInfo p1 ! u)) \<noteq> Assert"
      by auto
    from ProcessIntentInternal_terminal [OF apply_ended(2) t1]
    have t2: "terminalOutside c2 p2" and s2: "set c2 \<subseteq> set c1"
      and i2: "\<forall>u \<in> set c2. Intent (Unit (m_unitInfo p2 ! u)) \<noteq> Inform"
      by auto
    note u1 = sameUnits_ProcessIntentInternal [OF apply_ended(1)]
      and u2 = sameUnits_ProcessIntentInternal [OF apply_ended(2)]
      and u3 = sameUnits_ProcessIntentInternal [OF apply_ended(3)]
    show ?thesis
    proof (cases b)
      case False
      with ProcessIntentInternal_terminal [OF apply_ended(3) t2] show ?thesis by simp
    next
      case True
      with ProcessIntentInternal_terminal [OF apply_ended(3) t2]
      have t3: "terminalOutside c3 p'" and s3: "set c3 \<subseteq> set c2"
        and i3: "\<forall>u \<in> set c3. Intent (Unit (m_unitInfo p' ! u)) \<noteq> Apply"
        by auto
      have "c3 = []"
      proof (rule ccontr)
        assume "c3 \<noteq> []"
        then obtain u where u: "u \<in> set c3" by (cases c3) auto
        with s3 s2 s1 have "u \<in> set c2" "u \<in> set c1" "u < length (m_unitInfo p)" by auto
        with i1 i2 i3 u u1 u2 u3 named
        have "Intent (Unit (m_unitInfo p ! u)) \<noteq> Assert" "Intent (Unit (m_unitInfo p ! u)) \<noteq> Inform"
          "Intent (Unit (m_unitInfo p ! u)) \<noteq> Apply" "Intent (Unit (m_unitInfo p ! u)) \<noteq> OtherIntent"
          by (simp_all add: sameUnits_def)
        then show False by (cases "Intent (Unit (m_unitInfo p ! u))") simp_all
      qed
      with t3 show ?thesis by simp
    qed
  qed
qed

lemma Process_returns:
  assumes "PreProcess env p = (Inr ok, p1)"
    and "fst (Process env p) = Inr ()"
  shows "if ok
         then \<exists>b p2. ProcessInternal HasProcessedSuccessfully (ProcessUnit env) True
                  (SendProgressSet SetInProgress p1) = (Inr b, p2) \<and>
                snd (Process env p) = SendProgressSet SetCompleted p2
         else snd (Process env p) = SendProgressSet SetCompleted p1"
  using assms
  by (cases "ProcessInternal HasProcessedSuccessfully (ProcessUnit env) True
        (SendProgressSet SetInProgress p1)")
     (auto simp: Process_def split: sum.splits)

text \<open>
  Claim C9 as stated fails: for P and Q that depend on each other, validation fails in the dry
  run, which sends no progress; the apply emits the set-level \<open>Completed\<close> event, and it is
  the only event, while both units are still in state \<open>Unknown\<close>.
\<close>

theorem terminal_states_counterexample:
  "fst (Process (testEnvironment Positive) (NewApplyProcessor unitsPQ)) = Inr () \<and>
   m_events (snd (Process (testEnvironment Positive) (NewApplyProcessor unitsPQ))) =
     [SetStateChange SetCompleted] \<and>
   m_resultCode (snd (Process (testEnvironment Positive) (NewApplyProcessor unitsPQ))) =
     WINGET_CONFIG_ERROR_SET_DEPENDENCY_CYCLE \<and>
   Result_State (m_unitInfo (snd (Process (testEnvironment Positive) (NewApplyProcessor unitsPQ))) ! 0) =
     Unknown \<and>
   Result_State (m_unitInfo (snd (Process (testEnvironment Positive) (NewApplyProcessor unitsPQ))) ! 1) =
     Unknown"
  by code_simp

subsection \<open>The writes of result codes\<close>

lemma writesAtMostOnce_ProcessUnit_Assert:
  "writesAtMostOnce u q (snd (ProcessUnit_Assert env u q))"
  by (auto simp: writesAtMostOnce_def ProcessUnit_Assert_def Let_def split: sum.splits)

lemma writesAtMostOnce_ProcessUnit_Inform:
  "writesAtMostOnce u q (snd (ProcessUnit_Inform env u q))"
  by (auto simp: writesAtMostOnce_def ProcessUnit_Inform_def Let_def split: sum.splits)

lemma writesAtMostOnce_ProcessUnit_Apply:
  "writesAtMostOnce u q (snd (ProcessUnit_Apply env u q))"
  by (auto simp: writesAtMostOnce_def ProcessUnit_Apply_def Let_def ThrowIfCancelled_def
      split: sum.splits)

lemma writesAtMostOnce_ProcessUnit_Run:
  "writesAtMostOnce u q (snd (ProcessUnit_Run env u q))"
proof -
  let ?q2 = "(recordCall (Call_CreateUnitProcessor u) q)\<lparr>m_polls := Suc (m_polls q)\<rparr>"
  have w: "m_writes ?q2 = m_writes q"
    by simp
  have "writesAtMostOnce u ?q2 (snd (ProcessUnit_Assert env u ?q2))"
    "writesAtMostOnce u ?q2 (snd (ProcessUnit_Inform env u ?q2))"
    "writesAtMostOnce u ?q2 (snd (ProcessUnit_Apply env u ?q2))"
    by (rule writesAtMostOnce_ProcessUnit_Assert writesAtMostOnce_ProcessUnit_Inform
        writesAtMostOnce_ProcessUnit_Apply)+
  then have named: "writesAtMostOnce u q (snd (ProcessUnit_Assert env u ?q2))"
    "writesAtMostOnce u q (snd (ProcessUnit_Inform env u ?q2))"
    "writesAtMostOnce u q (snd (ProcessUnit_Apply env u ?q2))"
    by (simp_all add: writesAtMostOnce_def w)
  show ?thesis
  proof (cases "CreateUnitProcessor env u")
    case (Some exn)
    then show ?thesis by (simp add: ProcessUnit_Run_def Let_def writesAtMostOnce_def)
  next
    case None
    show ?thesis
    proof (cases "IsCancelled env (m_polls q)")
      case True
      with None show ?thesis
        by (simp add: ProcessUnit_Run_def Let_def writesAtMostOnce_def ThrowIfCancelled_def)
    next
      case False
      then have t: "ThrowIfCancelled env (recordCall (Call_CreateUnitProcessor u) q) = (Inr (), ?q2)"
        by (simp add: ThrowIfCancelled_def)
      show ?thesis
      proof (cases "Intent (Unit (m_unitInfo ?q2 ! u))")
        case Assert
        with None t named(1) show ?thesis by (simp add: ProcessUnit_Run_def Let_def)
      next
        case Inform
        with None t named(2) show ?thesis by (simp add: ProcessUnit_Run_def Let_def)
      next
        case Apply
        with None t named(3) show ?thesis by (simp add: ProcessUnit_Run_def Let_def)
      next
        case OtherIntent
        with None t w show ?thesis by (simp add: ProcessUnit_Run_def Let_def writesAtMostOnce_def)
      qed
    qed
  qed
qed

lemma writesAtMostOnce_ProcessUnit:
  "writesAtMostOnce u p (snd (ProcessUnit env u p))"
  using writesAtMostOnce_ProcessUnit_Run [of u "SendProgress InProgress u (committed env u p)" env]
  by (auto simp: ProcessUnit_unfold writesAtMostOnce_def committed_def ThrowIfCancelled_def
      split: if_splits)

lemma writesAtMostOnce_MarkPreprocessed:
  "writesAtMostOnce u p (snd (MarkPreprocessed u p))"
  by (auto simp: MarkPreprocessed_def writesAtMostOnce_def)

lemma processReadyUnits_unwritten:
  assumes run: "processReadyUnits chk f intent hf cands p = (r, cands', p')"
    and f: "\<And>u q. writesAtMostOnce u q (snd (f u q))"
    and inv: "unwrittenCandidates cands p"
  shows "distinct (map fst (m_writes p')) \<and> (\<forall>b. r = Inr b \<longrightarrow> unwrittenCandidates cands' p')"
proof (rule processReadyUnits_rule [OF run, where P = "\<lambda>h c q. unwrittenCandidates c q"
      and Q = "\<lambda>r c q. distinct (map fst (m_writes q)) \<and> (\<forall>b. r = Inr b \<longrightarrow> unwrittenCandidates c q)"])
  show "unwrittenCandidates cands p" by fact
next
  fix h c q u rest ok q'
  assume i: "unwrittenCandidates c q" and sc: "scanForReady chk intent q c = Some (u, rest)"
    and fu: "f u q = (Inr ok, q')"
  from scanForReady_distinct [OF sc] scanForReady_subset [OF sc] i
  have d: "distinct rest" "set rest = set c - {u}" "u \<in> set c"
    by (simp_all add: unwrittenCandidates_def)
  from f [of u q] fu i d show "unwrittenCandidates rest q'"
    by (auto simp: writesAtMostOnce_def unwrittenCandidates_def)
next
  fix h c q
  assume "unwrittenCandidates c q"
  then show "distinct (map fst (m_writes q)) \<and> (\<forall>b. Inr h = Inr b \<longrightarrow> unwrittenCandidates c q)"
    by (simp add: unwrittenCandidates_def)
next
  fix h c q u rest e q'
  assume i: "unwrittenCandidates c q" and sc: "scanForReady chk intent q c = Some (u, rest)"
    and fu: "f u q = (Inl e, q')"
  from scanForReady_subset [OF sc] have "u \<in> set c" by simp
  with f [of u q] fu i
  show "distinct (map fst (m_writes q')) \<and> (\<forall>b. Inl e = Inr b \<longrightarrow> unwrittenCandidates c q')"
    by (auto simp: writesAtMostOnce_def unwrittenCandidates_def)
qed

lemma ProcessIntentInternal_unwritten:
  assumes run: "ProcessIntentInternal cands chk f intent e1 e2 sp p = (r, remaining, p')"
    and f: "\<And>u q. writesAtMostOnce u q (snd (f u q))"
    and inv: "unwrittenCandidates cands p"
  shows "distinct (map fst (m_writes p')) \<and> (r = Inr True \<longrightarrow> unwrittenCandidates remaining p')"
  using run
proof (cases rule: ProcessIntentInternal_cases)
  case (thrown e)
  with processReadyUnits_unwritten [OF thrown(2) f inv] show ?thesis by blast
next
  case (failed hf p1)
  from processReadyUnits_unwritten [OF failed(2) f inv] have u: "unwrittenCandidates remaining p1"
    by blast
  let ?same = "filter (\<lambda>u. Intent (Unit (m_unitInfo p1 ! u)) = intent) remaining"
  let ?other = "filter (\<lambda>u. Intent (Unit (m_unitInfo p1 ! u)) \<noteq> intent) remaining"
  have "map fst (m_writes p') = map fst (m_writes p1) @ ?same @ ?other"
    unfolding failed(4) by (simp add: comp_def)
  moreover have "distinct (map fst (m_writes p1) @ ?same @ ?other)"
    using u by (auto simp: unwrittenCandidates_def)
  ultimately show ?thesis using failed(1) by simp
next
  case succeeded
  with processReadyUnits_unwritten [OF succeeded(2) f inv] show ?thesis by blast
qed

lemma ProcessInternal_distinct_writes:
  assumes run: "ProcessInternal chk f sp p = (r, p')"
    and f: "\<And>u q. writesAtMostOnce u q (snd (f u q))"
    and w: "m_writes p = []"
  shows "distinct (map fst (m_writes p'))"
proof -
  have start: "unwrittenCandidates [0 ..< length (m_unitInfo p)] p"
    using w by (simp add: unwrittenCandidates_def)
  from run show ?thesis
  proof (cases rule: ProcessInternal_cases)
    case (assert_ended c1)
    from ProcessIntentInternal_unwritten [OF assert_ended(1) f start] show ?thesis by simp
  next
    case (inform_ended c1 p1 c2)
    from ProcessIntentInternal_unwritten [OF inform_ended(1) f start]
    have "unwrittenCandidates c1 p1" by simp
    from ProcessIntentInternal_unwritten [OF inform_ended(2) f this] show ?thesis by simp
  next
    case (apply_ended c1 p1 c2 p2 c3)
    from ProcessIntentInternal_unwritten [OF apply_ended(1) f start]
    have "unwrittenCandidates c1 p1" by simp
    from ProcessIntentInternal_unwritten [OF apply_ended(2) f this]
    have "unwrittenCandidates c2 p2" by simp
    from ProcessIntentInternal_unwritten [OF apply_ended(3) f this] show ?thesis by simp
  qed
qed

lemma failuresWritten_refl: "failuresWritten p p"
  by (simp add: failuresWritten_def)

lemma failuresWritten_same: "m_writes p' = m_writes p \<Longrightarrow> failuresWritten p p'"
  by (simp add: failuresWritten_def)

lemma failuresWritten_trans: "failuresWritten p q \<Longrightarrow> failuresWritten q r \<Longrightarrow> failuresWritten p r"
  by (auto simp: failuresWritten_def)

lemma AddUnitToMap_ok:
  "AddUnitToMap env i p = (True, p') \<Longrightarrow> onlyIndexChanged p p'"
  by (auto simp: AddUnitToMap_def Let_def onlyIndexChanged_def split: if_splits option.splits)

lemma AddUnitToMap_failuresWritten: "failuresWritten p (snd (AddUnitToMap env i p))"
  by (auto simp: AddUnitToMap_def Let_def failuresWritten_def split: option.splits)

lemma addUnitsToMap_ok:
  "addUnitsToMap env is r p = (True, p') \<Longrightarrow> r \<and> onlyIndexChanged p p'"
proof (induction "is" arbitrary: r p)
  case Nil
  then show ?case by (simp add: onlyIndexChanged_def)
next
  case (Cons i "is")
  obtain ok q where a: "AddUnitToMap env i p = (ok, q)"
    by (cases "AddUnitToMap env i p")
  with Cons.prems have rec: "addUnitsToMap env is (if \<not> ok then False else r) q = (True, p')"
    by simp
  from Cons.IH [OF rec] have ok: "ok" and r: "r" and p': "onlyIndexChanged q p'"
    by (auto split: if_splits)
  from a ok have "onlyIndexChanged p q"
    by (simp add: AddUnitToMap_ok)
  with p' r show ?case
    by (simp add: onlyIndexChanged_def)
qed

lemma addUnitsToMap_failuresWritten: "failuresWritten p (snd (addUnitsToMap env is r p))"
proof (induction "is" arbitrary: r p)
  case Nil
  show ?case by (simp add: failuresWritten_refl)
next
  case (Cons i "is")
  obtain ok q where a: "AddUnitToMap env i p = (ok, q)"
    by (cases "AddUnitToMap env i p")
  with AddUnitToMap_failuresWritten [of p env i] have "failuresWritten p q" by simp
  from failuresWritten_trans [OF this Cons.IH] a show ?case by simp
qed

lemma resolveDependencies_writes:
  "failuresWritten p (snd (resolveDependencies env i deps p)) \<and>
   (fst (resolveDependencies env i deps p) \<longrightarrow>
      m_writes (snd (resolveDependencies env i deps p)) = m_writes p)"
proof (induction deps arbitrary: p)
  case Nil
  show ?case by (simp add: failuresWritten_refl)
next
  case (Cons d deps)
  show ?case
  proof (cases "d = []")
    case True
    with Cons.IH show ?thesis by simp
  next
    case False
    show ?thesis
    proof (cases "m_idToUnitInfoIndex p (GetNormalizedIdentifier env d)")
      case None
      with False show ?thesis by (simp add: failuresWritten_def)
    next
      case (Some k)
      let ?q = "updateUnitInfo i (\<lambda>ui. ui\<lparr>DependencyIndices := DependencyIndices ui @ [k]\<rparr>) p"
      from Cons.IH [of ?q] False Some show ?thesis by (simp add: failuresWritten_def)
    qed
  qed
qed

lemma resolveUnits_writes:
  "failuresWritten p (snd (resolveUnits env is r p)) \<and>
   (fst (resolveUnits env is r p) \<longrightarrow> r \<and> m_writes (snd (resolveUnits env is r p)) = m_writes p)"
proof (induction "is" arbitrary: r p)
  case Nil
  show ?case by (simp add: failuresWritten_refl)
next
  case (Cons i "is")
  let ?deps = "Dependencies (Unit (m_unitInfo p ! i))"
  obtain ok q where a: "resolveDependencies env i ?deps p = (ok, q)"
    by (cases "resolveDependencies env i ?deps p")
  from resolveDependencies_writes [of p env i ?deps] a
  have 1: "failuresWritten p q" and 2: "ok \<longrightarrow> m_writes q = m_writes p" by simp_all
  from Cons.IH [of q "if \<not> ok then False else r"] a 1 2 show ?case
    by (auto intro: failuresWritten_trans split: if_splits)
qed

lemma processReadyUnits_MarkPreprocessed_writes:
  assumes "processReadyUnits chk MarkPreprocessed intent hf cands p = (r, cands', p')"
  shows "m_writes p' = m_writes p"
  by (rule processReadyUnits_rule [OF assms, where P = "\<lambda>h c q. m_writes q = m_writes p"
        and Q = "\<lambda>r c q. m_writes q = m_writes p"])
     (auto simp: MarkPreprocessed_def)

lemma ProcessIntentInternal_MarkPreprocessed_writes:
  assumes "ProcessIntentInternal cands chk MarkPreprocessed intent e1 e2 sp p = (r, remaining, p')"
    and "\<not> SUCCEEDED e1"
  shows "failuresWritten p p' \<and> (r = Inr True \<longrightarrow> m_writes p' = m_writes p)"
  using assms(1)
proof (cases rule: ProcessIntentInternal_cases)
  case (thrown e)
  with processReadyUnits_MarkPreprocessed_writes show ?thesis
    by (simp add: failuresWritten_same)
next
  case (failed hf p1)
  from processReadyUnits_MarkPreprocessed_writes [OF failed(2)] have "m_writes p1 = m_writes p" .
  with failed(1) assms(2) show ?thesis
    unfolding failed(4) by (auto simp: failuresWritten_def)
next
  case succeeded
  with processReadyUnits_MarkPreprocessed_writes show ?thesis
    by (simp add: failuresWritten_same)
qed

lemma dry_run_writes:
  assumes "ProcessInternal chk MarkPreprocessed sp p = (r, p')"
  shows "failuresWritten p p' \<and> (r = Inr True \<longrightarrow> m_writes p' = m_writes p)"
  using assms
proof (cases rule: ProcessInternal_cases)
  case (assert_ended c1)
  with ProcessIntentInternal_MarkPreprocessed_writes [OF assert_ended(1)] show ?thesis by simp
next
  case (inform_ended c1 p1 c2)
  from ProcessIntentInternal_MarkPreprocessed_writes [OF inform_ended(1)]
    ProcessIntentInternal_MarkPreprocessed_writes [OF inform_ended(2)] inform_ended(3)
  show ?thesis by (simp add: failuresWritten_def)
next
  case (apply_ended c1 p1 c2 p2 c3)
  from ProcessIntentInternal_MarkPreprocessed_writes [OF apply_ended(1)]
    ProcessIntentInternal_MarkPreprocessed_writes [OF apply_ended(2)]
    ProcessIntentInternal_MarkPreprocessed_writes [OF apply_ended(3)]
  show ?thesis by (auto simp: failuresWritten_def)
qed

lemma PreProcess_writes:
  assumes "PreProcess env p = (r, p')"
  shows "failuresWritten p p' \<and> (r = Inr True \<longrightarrow> m_writes p' = m_writes p)"
proof -
  obtain r1 p1 where a: "addUnitsToMap env [0 ..< length (m_unitInfo p)] True p = (r1, p1)"
    by (cases "addUnitsToMap env [0 ..< length (m_unitInfo p)] True p")
  from addUnitsToMap_failuresWritten [of p env "[0 ..< length (m_unitInfo p)]" True] a
  have f1: "failuresWritten p p1" by simp
  show ?thesis
  proof (cases r1)
    case False
    with a assms f1 show ?thesis by (auto simp: PreProcess_def failuresWritten_def)
  next
    case True
    with addUnitsToMap_ok [of env _ True p p1] a have w1: "m_writes p1 = m_writes p"
      by (simp add: onlyIndexChanged_def)
    obtain r2 p2 where b: "resolveUnits env [0 ..< length (m_unitInfo p1)] True p1 = (r2, p2)"
      by (cases "resolveUnits env [0 ..< length (m_unitInfo p1)] True p1")
    from resolveUnits_writes [of p1 env "[0 ..< length (m_unitInfo p1)]" True] b
    have f2: "failuresWritten p1 p2" and w2: "r2 \<longrightarrow> m_writes p2 = m_writes p1" by simp_all
    show ?thesis
    proof (cases r2)
      case False
      with a b True assms f2 w1 show ?thesis by (auto simp: PreProcess_def failuresWritten_def)
    next
      case r2: True
      obtain r3 p3 where c: "ProcessInternal HasPreprocessed MarkPreprocessed False p2 = (r3, p3)"
        by (cases "ProcessInternal HasPreprocessed MarkPreprocessed False p2")
      from dry_run_writes [OF c] have f3: "failuresWritten p2 p3"
        and w3: "r3 = Inr True \<longrightarrow> m_writes p3 = m_writes p2" by simp_all
      from a b c True r2 assms have "m_writes p' = m_writes p3" "r = Inr True \<longrightarrow> r3 = Inr True"
        by (auto simp: PreProcess_def split: sum.splits bool.splits)
      with f3 w3 w2 r2 w1 show ?thesis by (auto simp: failuresWritten_def)
    qed
  qed
qed

lemma Process_writes:
  "(\<forall>w \<in> set (m_writes (snd (Process env (NewApplyProcessor units)))). \<not> SUCCEEDED (snd w)) \<or>
   distinct (map fst (m_writes (snd (Process env (NewApplyProcessor units)))))"
proof -
  let ?p0 = "NewApplyProcessor units"
  obtain r1 p1 where pre: "PreProcess env ?p0 = (r1, p1)"
    by (cases "PreProcess env ?p0")
  from PreProcess_writes [OF pre]
  have f1: "\<forall>w \<in> set (m_writes p1). \<not> SUCCEEDED (snd w)" and w1: "r1 = Inr True \<longrightarrow> m_writes p1 = []"
    by (auto simp: failuresWritten_def)
  show ?thesis
  proof (cases "r1 = Inr True")
    case False
    with pre have "m_writes (snd (Process env ?p0)) = m_writes p1"
      by (auto simp: Process_def split: sum.splits bool.splits)
    with f1 show ?thesis by simp
  next
    case True
    obtain r2 p2 where run: "ProcessInternal HasProcessedSuccessfully (ProcessUnit env) True
        (SendProgressSet SetInProgress p1) = (r2, p2)"
      by (cases "ProcessInternal HasProcessedSuccessfully (ProcessUnit env) True
        (SendProgressSet SetInProgress p1)")
    have "distinct (map fst (m_writes p2))"
      by (rule ProcessInternal_distinct_writes [OF run writesAtMostOnce_ProcessUnit])
         (use True w1 in simp)
    moreover from pre True run have "m_writes (snd (Process env ?p0)) = m_writes p2"
      by (auto simp: Process_def split: sum.splits)
    ultimately show ?thesis by simp
  qed
qed

subsection \<open>A failure code is not replaced by a success code\<close>

text \<open>
  Claim C8. In an execution of the engine on a new processor, whether it returns or is
  cancelled, the result code each unit ends with is the last code written for it (\<open>S_OK\<close>
  when none was), and the list of all writes of result codes, in their order, has no write of
  a success code to a unit after a write of a failure code to the same unit.
\<close>

theorem failure_code_not_replaced_by_success:
  "(\<forall>j < length (m_unitInfo (snd (Process env (NewApplyProcessor units)))).
      ResultCode (ResultInformation (m_unitInfo (snd (Process env (NewApplyProcessor units))) ! j)) =
        lastWritten j (m_writes (snd (Process env (NewApplyProcessor units))))) \<and>
   (\<forall>a b. a < b \<and> b < length (m_writes (snd (Process env (NewApplyProcessor units)))) \<and>
      fst (m_writes (snd (Process env (NewApplyProcessor units))) ! a) =
        fst (m_writes (snd (Process env (NewApplyProcessor units))) ! b) \<and>
      \<not> SUCCEEDED (snd (m_writes (snd (Process env (NewApplyProcessor units))) ! a)) \<longrightarrow>
      \<not> SUCCEEDED (snd (m_writes (snd (Process env (NewApplyProcessor units))) ! b)))"
proof -
  let ?ws = "m_writes (snd (Process env (NewApplyProcessor units)))"
  have "codesFollowWrites (snd (Process env (NewApplyProcessor units)))"
    by (rule steps_codesFollowWrites [OF steps_Process NewApplyProcessor_codesFollowWrites])
  then have codes: "\<forall>j < length (m_unitInfo (snd (Process env (NewApplyProcessor units)))).
      ResultCode (ResultInformation (m_unitInfo (snd (Process env (NewApplyProcessor units))) ! j)) =
        lastWritten j ?ws"
    by (simp add: codesFollowWrites_def)
  have "\<not> SUCCEEDED (snd (?ws ! b))"
    if "a < b" "b < length ?ws" "fst (?ws ! a) = fst (?ws ! b)" for a b
  proof -
    from Process_writes [of env units] show ?thesis
    proof
      assume "\<forall>w \<in> set ?ws. \<not> SUCCEEDED (snd w)"
      with that(2) show ?thesis by simp
    next
      assume d: "distinct (map fst ?ws)"
      from that have e: "map fst ?ws ! a = map fst ?ws ! b" and la: "a < length (map fst ?ws)"
        and lb: "b < length (map fst ?ws)" by simp_all
      from nth_eq_iff_index_eq [OF d la lb] e have "a = b" by blast
      with that(1) show ?thesis by simp
    qed
  qed
  with codes show ?thesis by blast
qed

theorem failure_code_not_replaced_by_success_witness:
  "(0 :: nat) < 2 \<and>
   2 < length (m_writes (snd (Process (testEnvironment Positive) (NewApplyProcessor unitsDup3)))) \<and>
   fst (m_writes (snd (Process (testEnvironment Positive) (NewApplyProcessor unitsDup3))) ! 0) =
     fst (m_writes (snd (Process (testEnvironment Positive) (NewApplyProcessor unitsDup3))) ! 2) \<and>
   \<not> SUCCEEDED (snd (m_writes (snd (Process (testEnvironment Positive) (NewApplyProcessor unitsDup3))) ! 0)) \<and>
   \<not> SUCCEEDED (snd (m_writes (snd (Process (testEnvironment Positive) (NewApplyProcessor unitsDup3))) ! 2)) \<and>
   ResultCode (ResultInformation
       (m_unitInfo (snd (Process (testEnvironment Positive) (NewApplyProcessor unitsDup3))) ! 0)) =
     lastWritten 0 (m_writes (snd (Process (testEnvironment Positive) (NewApplyProcessor unitsDup3))))"
proof -
  let ?p' = "snd (Process (testEnvironment Positive) (NewApplyProcessor unitsDup3))"
  have h: "(0 :: nat) < 2 \<and> 2 < length (m_writes ?p') \<and>
      fst (m_writes ?p' ! 0) = fst (m_writes ?p' ! 2) \<and> \<not> SUCCEEDED (snd (m_writes ?p' ! 0))"
    by code_simp
  have len: "0 < length (m_unitInfo ?p')"
    by code_simp
  note inst = failure_code_not_replaced_by_success [of "testEnvironment Positive" unitsDup3]
  from inst [THEN conjunct2, rule_format, OF h] inst [THEN conjunct1, rule_format, OF len] h
  show ?thesis by blast
qed

subsection \<open>Dependency resolution\<close>

lemma updateUnitInfo_twice:
  "updateUnitInfo i f (updateUnitInfo i g p) = updateUnitInfo i (\<lambda>ui. f (g ui)) p"
  by (cases "i < length (m_unitInfo p)") (simp_all add: updateUnitInfo_def list_update_beyond)

lemma updateUnitInfo_id:
  "(\<And>ui. f ui = ui) \<Longrightarrow> updateUnitInfo i f p = p"
  by (simp add: updateUnitInfo_def)

lemma resolveFrame_refl: "resolveFrame i p p"
  by (simp add: resolveFrame_def)

lemma resolveFrame_trans: "resolveFrame i p q \<Longrightarrow> resolveFrame i q r \<Longrightarrow> resolveFrame i p r"
  by (auto simp: resolveFrame_def)

lemma resolveDependencies_frame: "resolveFrame i p (snd (resolveDependencies env i deps p))"
proof (induction deps arbitrary: p)
  case Nil
  show ?case by (simp add: resolveFrame_refl)
next
  case (Cons d deps)
  show ?case
  proof (cases "d = []")
    case True
    with Cons.IH show ?thesis by simp
  next
    case False
    show ?thesis
    proof (cases "m_idToUnitInfoIndex p (GetNormalizedIdentifier env d)")
      case None
      with False show ?thesis by (auto simp: resolveFrame_def nth_prims)
    next
      case (Some k)
      let ?q = "updateUnitInfo i (\<lambda>ui. ui\<lparr>DependencyIndices := DependencyIndices ui @ [k]\<rparr>) p"
      have "resolveFrame i p ?q" by (simp add: resolveFrame_def nth_prims)
      from resolveFrame_trans [OF this Cons.IH [of ?q]] False Some show ?thesis by simp
    qed
  qed
qed

lemma resolveDependencies_prefix:
  assumes "\<forall>x \<in> set before. x \<noteq> [] \<longrightarrow> m_idToUnitInfoIndex p (GetNormalizedIdentifier env x) \<noteq> None"
  shows "resolveDependencies env i (before @ rest) p =
         resolveDependencies env i rest
           (updateUnitInfo i (\<lambda>ui. ui\<lparr>DependencyIndices := DependencyIndices ui @ resolved env p before\<rparr>) p)"
  using assms
proof (induction before arbitrary: p)
  case Nil
  show ?case by (simp add: resolved_def updateUnitInfo_id)
next
  case (Cons d before)
  show ?case
  proof (cases "d = []")
    case True
    with Cons show ?thesis by (simp add: resolved_def)
  next
    case False
    with Cons.prems obtain k where k: "m_idToUnitInfoIndex p (GetNormalizedIdentifier env d) = Some k"
      by auto
    let ?q = "updateUnitInfo i (\<lambda>ui. ui\<lparr>DependencyIndices := DependencyIndices ui @ [k]\<rparr>) p"
    have "\<forall>x \<in> set before. x \<noteq> [] \<longrightarrow> m_idToUnitInfoIndex ?q (GetNormalizedIdentifier env x) \<noteq> None"
      using Cons.prems by simp
    from Cons.IH [OF this] False k show ?thesis
      by (simp add: resolved_def updateUnitInfo_twice)
  qed
qed

lemma resolveDependencies_missing:
  assumes "\<forall>x \<in> set before. x \<noteq> [] \<longrightarrow> m_idToUnitInfoIndex p (GetNormalizedIdentifier env x) \<noteq> None"
    and "d \<noteq> []" and "m_idToUnitInfoIndex p (GetNormalizedIdentifier env d) = None"
  shows "resolveDependencies env i (before @ d # after) p =
     (False,
      SendProgress Completed i
        (SetDetails d i
          (Initialize WINGET_CONFIG_ERROR_MISSING_DEPENDENCY ConfigurationSet i
            (updateUnitInfo i (\<lambda>ui. ui\<lparr>DependencyIndices := DependencyIndices ui @ resolved env p before\<rparr>) p))))"
  using assms by (simp add: resolveDependencies_prefix)

lemma resolveUnits_append:
  "resolveUnits env (xs @ ys) r p =
     (case resolveUnits env xs r p of (r', p') \<Rightarrow> resolveUnits env ys r' p')"
  by (induction xs arbitrary: r p) (simp_all split: prod.splits)

lemma keptUnit_refl: "keptUnit i p p"
  by (simp add: keptUnit_def)

lemma keptUnit_trans: "keptUnit i p q \<Longrightarrow> keptUnit i q r \<Longrightarrow> keptUnit i p r"
  by (auto simp: keptUnit_def)

lemma resolveUnits_keptUnit:
  "i \<notin> set is \<Longrightarrow> keptUnit i p (snd (resolveUnits env is r p))"
proof (induction "is" arbitrary: r p)
  case Nil
  show ?case by (simp add: keptUnit_refl)
next
  case (Cons j "is")
  let ?deps = "Dependencies (Unit (m_unitInfo p ! j))"
  obtain ok q where a: "resolveDependencies env j ?deps p = (ok, q)"
    by (cases "resolveDependencies env j ?deps p")
  from resolveDependencies_frame [of j p env ?deps] a Cons.prems have "keptUnit i p q"
    by (auto simp: resolveFrame_def keptUnit_def)
  from keptUnit_trans [OF this Cons.IH [where p = q]] a Cons.prems show ?case by simp
qed

lemma resolveUnits_calls:
  "m_calls (snd (resolveUnits env is r p)) = m_calls p \<and>
   length (m_unitInfo (snd (resolveUnits env is r p))) = length (m_unitInfo p)"
proof (induction "is" arbitrary: r p)
  case Nil
  show ?case by simp
next
  case (Cons j "is")
  let ?deps = "Dependencies (Unit (m_unitInfo p ! j))"
  obtain ok q where a: "resolveDependencies env j ?deps p = (ok, q)"
    by (cases "resolveDependencies env j ?deps p")
  from resolveDependencies_frame [of j p env ?deps] a have "m_calls q = m_calls p"
    "length (m_unitInfo q) = length (m_unitInfo p)"
    by (simp_all add: resolveFrame_def)
  with Cons.IH [where p = q] a show ?case by simp
qed

lemma resolveUnits_False: "\<not> fst (resolveUnits env is False p)"
  by (induction "is" arbitrary: p) (simp_all split: prod.splits)

lemma missing_dependency:
  assumes a: "addUnitsToMap env [0 ..< length units] True (NewApplyProcessor units) = (True, p1)"
    and i: "i < length units"
    and deps: "Dependencies (units ! i) = before @ d # after"
    and d: "d \<noteq> []"
    and miss: "m_idToUnitInfoIndex p1 (GetNormalizedIdentifier env d) = None"
    and found: "\<forall>x \<in> set before. x \<noteq> [] \<longrightarrow> m_idToUnitInfoIndex p1 (GetNormalizedIdentifier env x) \<noteq> None"
  shows "\<exists>p'. PreProcess env (NewApplyProcessor units) = (Inr False, p') \<and>
      Process env (NewApplyProcessor units) = (Inr (), SendProgressSet SetCompleted p') \<and>
      m_resultCode p' = WINGET_CONFIG_ERROR_MISSING_DEPENDENCY \<and>
      ResultInformation (m_unitInfo p' ! i) =
        \<lparr>ResultCode = WINGET_CONFIG_ERROR_MISSING_DEPENDENCY, ResultSource = ConfigurationSet, Details = d\<rparr> \<and>
      Result_State (m_unitInfo p' ! i) = Completed \<and>
      UnitStateChange Completed
        \<lparr>ResultCode = WINGET_CONFIG_ERROR_MISSING_DEPENDENCY, ResultSource = ConfigurationSet, Details = d\<rparr> i
        \<in> set (m_events p') \<and>
      DependencyIndices (m_unitInfo p' ! i) = resolved env p1 before \<and>
      m_calls p' = []"
proof -
  let ?p0 = "NewApplyProcessor units"
  let ?n = "length units"
  from addUnitsToMap_ok [OF a] have p1: "m_unitInfo p1 = map NewUnitInfo units" "m_calls p1 = []"
    by (simp_all add: onlyIndexChanged_def)
  obtain ra qa where ra: "resolveUnits env [0 ..< i] True p1 = (ra, qa)"
    by (cases "resolveUnits env [0 ..< i] True p1")
  from resolveUnits_keptUnit [of i "[0 ..< i]" p1 env True] ra have ka: "keptUnit i p1 qa"
    by simp
  with p1 i have ua: "m_unitInfo qa ! i = NewUnitInfo (units ! i)" and la: "i < length (m_unitInfo qa)"
    and ma: "m_idToUnitInfoIndex qa = m_idToUnitInfoIndex p1"
    by (simp_all add: keptUnit_def)
  let ?qb = "SendProgress Completed i
        (SetDetails d i
          (Initialize WINGET_CONFIG_ERROR_MISSING_DEPENDENCY ConfigurationSet i
            (updateUnitInfo i (\<lambda>ui. ui\<lparr>DependencyIndices := DependencyIndices ui @ resolved env qa before\<rparr>) qa)))"
  have rb: "resolveDependencies env i (Dependencies (Unit (m_unitInfo qa ! i))) qa = (False, ?qb)"
    using resolveDependencies_missing [of before qa env d i after] found d miss
    by (simp add: ua deps ma)
  have res: "resolved env qa before = resolved env p1 before"
    by (simp add: resolved_def ma)
  have ub: "ResultInformation (m_unitInfo ?qb ! i) =
        \<lparr>ResultCode = WINGET_CONFIG_ERROR_MISSING_DEPENDENCY, ResultSource = ConfigurationSet, Details = d\<rparr>"
    "Result_State (m_unitInfo ?qb ! i) = Completed"
    "DependencyIndices (m_unitInfo ?qb ! i) = resolved env p1 before"
    "UnitStateChange Completed
        \<lparr>ResultCode = WINGET_CONFIG_ERROR_MISSING_DEPENDENCY, ResultSource = ConfigurationSet, Details = d\<rparr> i
        \<in> set (m_events ?qb)"
    using la by (simp_all add: nth_prims ua res)
  obtain rc qc where rc: "resolveUnits env [Suc i ..< ?n] False ?qb = (rc, qc)"
    by (cases "resolveUnits env [Suc i ..< ?n] False ?qb")
  from resolveUnits_False [of env "[Suc i ..< ?n]" ?qb] rc have "\<not> rc" by simp
  from resolveUnits_keptUnit [of i "[Suc i ..< ?n]" ?qb env False] rc have kc: "keptUnit i ?qb qc"
    by simp
  have split: "[0 ..< ?n] = [0 ..< i] @ i # [Suc i ..< ?n]"
    using i upt_add_eq_append [of 0 i "?n - i"] by (simp add: upt_conv_Cons)
  have all: "resolveUnits env [0 ..< length (m_unitInfo p1)] True p1 = (False, qc)"
    using ra rb rc \<open>\<not> rc\<close> by (simp add: p1 split resolveUnits_append)
  have calls: "m_calls qc = []"
    using resolveUnits_calls [of env "[0 ..< length (m_unitInfo p1)]" True p1] all p1 by simp
  let ?p' = "qc\<lparr>m_resultCode := WINGET_CONFIG_ERROR_MISSING_DEPENDENCY\<rparr>"
  have pre: "PreProcess env ?p0 = (Inr False, ?p')"
    using a all by (simp add: PreProcess_def)
  then have pro: "Process env ?p0 = (Inr (), SendProgressSet SetCompleted ?p')"
    by (simp add: Process_def)
  from kc ub have "ResultInformation (m_unitInfo ?p' ! i) =
        \<lparr>ResultCode = WINGET_CONFIG_ERROR_MISSING_DEPENDENCY, ResultSource = ConfigurationSet, Details = d\<rparr>"
    "Result_State (m_unitInfo ?p' ! i) = Completed"
    "DependencyIndices (m_unitInfo ?p' ! i) = resolved env p1 before"
    "UnitStateChange Completed
        \<lparr>ResultCode = WINGET_CONFIG_ERROR_MISSING_DEPENDENCY, ResultSource = ConfigurationSet, Details = d\<rparr> i
        \<in> set (m_events ?p')"
    by (auto simp: keptUnit_def)
  with pre pro calls show ?thesis
    by (intro exI [of _ ?p']) simp
qed

text \<open>
  Claim C4. An empty dependency string is skipped. When the identifier validation has passed
  and the first dependency string of a unit that is not empty and whose normalized form is not
  in the identifier index is \<open>d\<close>, then \<^verbatim>\<open>PreProcess\<close> returns false with the set result code
  \<open>MissingDependency\<close>; the unit has the result \<open>MissingDependency\<close> with source
  \<open>ConfigurationSet\<close> and the detail \<open>d\<close> as it was written, a \<open>Completed\<close> event was sent
  for it, its resolved dependencies are those of the strings before \<open>d\<close> (the rest of the
  list was not examined), and the apply ends without any call to a processor.
\<close>

theorem missing_dependency_reported:
  "resolveDependencies env i ([] # rest) p = resolveDependencies env i rest p \<and>
   (addUnitsToMap env [0 ..< length units] True (NewApplyProcessor units) = (True, p1) \<and>
    i < length units \<and> Dependencies (units ! i) = before @ d # after \<and> d \<noteq> [] \<and>
    m_idToUnitInfoIndex p1 (GetNormalizedIdentifier env d) = None \<and>
    (\<forall>x \<in> set before. x \<noteq> [] \<longrightarrow> m_idToUnitInfoIndex p1 (GetNormalizedIdentifier env x) \<noteq> None) \<longrightarrow>
    (\<exists>p'. PreProcess env (NewApplyProcessor units) = (Inr False, p') \<and>
       Process env (NewApplyProcessor units) = (Inr (), SendProgressSet SetCompleted p') \<and>
       m_resultCode p' = WINGET_CONFIG_ERROR_MISSING_DEPENDENCY \<and>
       ResultInformation (m_unitInfo p' ! i) =
         \<lparr>ResultCode = WINGET_CONFIG_ERROR_MISSING_DEPENDENCY, ResultSource = ConfigurationSet, Details = d\<rparr> \<and>
       Result_State (m_unitInfo p' ! i) = Completed \<and>
       UnitStateChange Completed
         \<lparr>ResultCode = WINGET_CONFIG_ERROR_MISSING_DEPENDENCY, ResultSource = ConfigurationSet, Details = d\<rparr> i
         \<in> set (m_events p') \<and>
       DependencyIndices (m_unitInfo p' ! i) =
         map (\<lambda>x. the (m_idToUnitInfoIndex p1 (GetNormalizedIdentifier env x))) (filter (\<lambda>x. x \<noteq> []) before) \<and>
       m_calls p' = []))"
  using missing_dependency [of env units p1 i before d after]
  by (simp add: resolved_def)

theorem missing_dependency_reported_witness:
  "fst (PreProcess (testEnvironment Positive) (NewApplyProcessor unitsXY)) = Inr False \<and>
   m_resultCode (snd (PreProcess (testEnvironment Positive) (NewApplyProcessor unitsXY))) =
     WINGET_CONFIG_ERROR_MISSING_DEPENDENCY \<and>
   ResultInformation (m_unitInfo (snd (PreProcess (testEnvironment Positive) (NewApplyProcessor unitsXY))) ! 0) =
     \<lparr>ResultCode = WINGET_CONFIG_ERROR_MISSING_DEPENDENCY, ResultSource = ConfigurationSet,
      Details = ''ghost''\<rparr> \<and>
   DependencyIndices (m_unitInfo (snd (PreProcess (testEnvironment Positive) (NewApplyProcessor unitsXY))) ! 0) =
     [1] \<and>
   m_calls (snd (Process (testEnvironment Positive) (NewApplyProcessor unitsXY))) = []"
proof -
  let ?env = "testEnvironment Positive"
  let ?a = "addUnitsToMap ?env [0 ..< length unitsXY] True (NewApplyProcessor unitsXY)"
  have "fst ?a = True"
    by code_simp
  then have h1: "?a = (True, snd ?a)"
    by (metis prod.collapse)
  have h2: "0 < length unitsXY"
    and h3: "Dependencies (unitsXY ! 0) = ['''', ''Y''] @ ''ghost'' # [''X'']"
    and h4: "''ghost'' \<noteq> []"
    by (simp_all add: unitsXY_def)
  have h5: "m_idToUnitInfoIndex (snd ?a) (GetNormalizedIdentifier ?env ''ghost'') = None"
    by code_simp
  have h6: "\<forall>x \<in> set ['''', ''Y'']. x \<noteq> [] \<longrightarrow>
      m_idToUnitInfoIndex (snd ?a) (GetNormalizedIdentifier ?env x) \<noteq> None"
    by code_simp
  have h7: "the (m_idToUnitInfoIndex (snd ?a) (GetNormalizedIdentifier ?env ''Y'')) = 1"
    by code_simp
  from missing_dependency_reported [where env = ?env and units = unitsXY and ?p1.0 = "snd ?a"
      and i = 0 and before = "['''', ''Y'']" and d = "''ghost''" and after = "[''X'']",
      THEN conjunct2, THEN mp, OF conjI [OF h1 conjI [OF h2 conjI [OF h3 conjI [OF h4 conjI [OF h5 h6]]]]]]
  show ?thesis
    by (auto simp: h7)
qed

subsection \<open>Duplicate identifiers\<close>

lemma firstWith_exists:
  assumes "i < k" "Identifier (us ! i) \<noteq> []" "normalizedId env us i = key"
  shows "\<exists>m. firstWith env us k key m"
proof -
  define P where "P j = (Identifier (us ! j) \<noteq> [] \<and> normalizedId env us j = key)" for j
  have "P i" using assms by (simp add: P_def)
  then have "\<exists>m. P m \<and> (\<forall>j < m. \<not> P j)"
    using exists_least_iff [of P] by blast
  then obtain m where m: "P m" "\<forall>j < m. \<not> P j" by blast
  with \<open>P i\<close> have "\<not> i < m" by blast
  with assms(1) have "m < k" by simp
  with m show ?thesis
    unfolding firstWith_def P_def by (intro exI [of _ m]) auto
qed

lemma firstWith_unique: "firstWith env us k key i \<Longrightarrow> firstWith env us k key j \<Longrightarrow> i = j"
  unfolding firstWith_def by (cases i j rule: linorder_cases) auto

lemma collides_empty:
  assumes "Identifier (us ! k) = []"
  shows "collides env us (Suc k) u = collides env us k u"
  using assms unfolding collides_def by (auto simp: less_Suc_eq)

lemma firstWith_empty:
  assumes "Identifier (us ! k) = []"
  shows "firstWith env us (Suc k) key i = firstWith env us k key i"
  using assms unfolding firstWith_def by (auto simp: less_Suc_eq)

lemma collides_fresh:
  assumes "\<forall>i < k. Identifier (us ! i) \<noteq> [] \<longrightarrow> normalizedId env us i \<noteq> normalizedId env us k"
  shows "collides env us (Suc k) u = collides env us k u"
  using assms unfolding collides_def by (auto simp: less_Suc_eq)

lemma firstWith_fresh:
  assumes "Identifier (us ! k) \<noteq> []"
    and "\<forall>i < k. Identifier (us ! i) \<noteq> [] \<longrightarrow> normalizedId env us i \<noteq> normalizedId env us k"
  shows "firstWith env us (Suc k) key i =
         (firstWith env us k key i \<or> (i = k \<and> key = normalizedId env us k))"
  using assms unfolding firstWith_def by (auto simp: less_Suc_eq)

lemma collides_incumbent:
  assumes "Identifier (us ! k) \<noteq> []" and "firstWith env us k (normalizedId env us k) inc"
  shows "collides env us (Suc k) u = (collides env us k u \<or> u = k \<or> u = inc)"
proof -
  from assms(2) have inc: "inc < k" "Identifier (us ! inc) \<noteq> []"
    "normalizedId env us inc = normalizedId env us k"
    by (simp_all add: firstWith_def)
  show ?thesis
  proof (cases "u = k \<or> u = inc")
    case True
    with inc assms(1) show ?thesis
      unfolding collides_def by (auto simp: less_Suc_eq)
  next
    case False
    show ?thesis
    proof
      assume c: "collides env us (Suc k) u"
      then obtain v where v: "u < Suc k" "Identifier (us ! u) \<noteq> []" "v < Suc k" "v \<noteq> u"
        "Identifier (us ! v) \<noteq> []" "normalizedId env us v = normalizedId env us u"
        unfolding collides_def by blast
      from v(1) False have uk: "u < k" by simp
      show "collides env us k u \<or> u = k \<or> u = inc"
      proof (cases "v = k")
        case True
        with v inc False uk have "collides env us k u"
          unfolding collides_def by (intro conjI exI [of _ inc]) auto
        then show ?thesis by simp
      next
        case False
        with v uk have "collides env us k u"
          unfolding collides_def by (intro conjI exI [of _ v]) auto
        then show ?thesis by simp
      qed
    next
      assume "collides env us k u \<or> u = k \<or> u = inc"
      with False have "collides env us k u" by simp
      then show "collides env us (Suc k) u"
        unfolding collides_def by (auto simp: less_Suc_eq)
    qed
  qed
qed

lemma firstWith_incumbent:
  assumes "firstWith env us k (normalizedId env us k) inc"
  shows "firstWith env us (Suc k) key i = firstWith env us k key i"
proof (cases "i = k")
  case True
  from assms have "inc < k" "Identifier (us ! inc) \<noteq> []"
    "normalizedId env us inc = normalizedId env us k"
    by (simp_all add: firstWith_def)
  with True show ?thesis
    unfolding firstWith_def by auto
next
  case False
  then show ?thesis
    unfolding firstWith_def by (auto simp: less_Suc_eq)
qed

lemma addedUnits_start: "addedUnits env us 0 True (NewApplyProcessor us)"
  by (simp add: addedUnits_def collides_def firstWith_def completedEvents_def)

lemma AddUnitToMap_empty:
  "Identifier (Unit (m_unitInfo p ! i)) = [] \<Longrightarrow> AddUnitToMap env i p = (True, p)"
  by (simp add: AddUnitToMap_def)

lemma duplicateUnitInfo_marked:
  "(NewUnitInfo u)\<lparr>ResultInformation := (ResultInformation (NewUnitInfo u))
      \<lparr>ResultCode := WINGET_CONFIG_ERROR_DUPLICATE_IDENTIFIER, ResultSource := ConfigurationSet\<rparr>,
     Result_State := Completed\<rparr> = duplicateUnitInfo u"
  "(duplicateUnitInfo u)\<lparr>ResultInformation := (ResultInformation (duplicateUnitInfo u))
      \<lparr>ResultCode := WINGET_CONFIG_ERROR_DUPLICATE_IDENTIFIER, ResultSource := ConfigurationSet\<rparr>\<rparr> =
     duplicateUnitInfo u"
  "Result_State (duplicateUnitInfo u) = Completed"
  "Unit (duplicateUnitInfo u) = u"
  "DependencyIndices (duplicateUnitInfo u) = []"
  "ResultInformation (duplicateUnitInfo u) =
     \<lparr>ResultCode = WINGET_CONFIG_ERROR_DUPLICATE_IDENTIFIER, ResultSource = ConfigurationSet, Details = []\<rparr>"
  by (simp_all add: duplicateUnitInfo_def NewUnitInfo_def)

lemma AddUnitToMap_step:
  assumes inv: "addedUnits env us k r p" and k: "k < length us"
    and run: "AddUnitToMap env k p = (ok, p')"
  shows "addedUnits env us (Suc k) (if \<not> ok then False else r) p'"
proof -
  from inv have len: "length (m_unitInfo p) = length us"
    and idx: "\<And>key i. (m_idToUnitInfoIndex p key = Some i) = firstWith env us k key i"
    and units: "\<And>u. u < length us \<Longrightarrow>
        m_unitInfo p ! u = (if collides env us k u then duplicateUnitInfo (us ! u) else NewUnitInfo (us ! u))"
    and evs: "\<And>u. completedEvents u p = (if collides env us k u then 1 else 0)"
    and res: "r = (\<forall>u. \<not> collides env us k u)"
    by (simp_all add: addedUnits_def)
  have nk: "\<not> collides env us k k"
    by (simp add: collides_def)
  with units [OF k] have uk: "m_unitInfo p ! k = NewUnitInfo (us ! k)"
    by simp
  then have idk: "Identifier (Unit (m_unitInfo p ! k)) = Identifier (us ! k)"
    by simp
  show ?thesis
  proof (cases "Identifier (us ! k) = []")
    case True
    with run idk have "ok" "p' = p"
      by (simp_all add: AddUnitToMap_def)
    with inv show ?thesis
      by (simp add: addedUnits_def collides_empty [OF True] firstWith_empty [OF True])
  next
    case False
    let ?key = "normalizedId env us k"
    have key: "GetNormalizedIdentifier env (Identifier (Unit (m_unitInfo p ! k))) = ?key"
      by (simp add: normalizedId_def idk)
    show ?thesis
    proof (cases "m_idToUnitInfoIndex p ?key")
      case None
      with run False idk key have ok: "ok"
        and p': "p' = p\<lparr>m_idToUnitInfoIndex := (m_idToUnitInfoIndex p)(?key \<mapsto> k)\<rparr>"
        by (simp_all add: AddUnitToMap_def Let_def)
      have fresh: "\<forall>i < k. Identifier (us ! i) \<noteq> [] \<longrightarrow> normalizedId env us i \<noteq> ?key"
      proof (intro allI impI notI)
        fix i assume "i < k" "Identifier (us ! i) \<noteq> []" "normalizedId env us i = ?key"
        from firstWith_exists [OF this] obtain m where "firstWith env us k ?key m" ..
        with idx [of ?key m] None show False by simp
      qed
      have "(m_idToUnitInfoIndex p' key = Some i) = firstWith env us (Suc k) key i" for key i
        using idx [of key i] None idx [of ?key i]
        by (auto simp: p' firstWith_fresh [OF False fresh])
      moreover have "completedEvents u p' = completedEvents u p" for u
        by (simp add: p' completedEvents_def)
      ultimately show ?thesis
        using ok len units evs res
        by (simp add: addedUnits_def collides_fresh [OF fresh] p')
    next
      case (Some inc)
      with idx have fw: "firstWith env us k ?key inc" by simp
      then have inc: "inc < k" "inc \<noteq> k" by (simp_all add: firstWith_def)
      with k len have linc: "inc < length (m_unitInfo p)" "inc < length us" by simp_all
      let ?q1 = "Initialize WINGET_CONFIG_ERROR_DUPLICATE_IDENTIFIER ConfigurationSet inc p"
      let ?q2 = "SendProgressIfNotComplete Completed inc ?q1"
      let ?q3 = "Initialize WINGET_CONFIG_ERROR_DUPLICATE_IDENTIFIER ConfigurationSet k ?q2"
      from run False idk key Some have ok: "\<not> ok" and p': "p' = SendProgress Completed k ?q3"
        by (simp_all add: AddUnitToMap_def Let_def)
      note col = collides_incumbent [OF False fw]
      have st: "Result_State (m_unitInfo ?q1 ! inc) = (if collides env us k inc then Completed else Unknown)"
        using linc units [of inc] by (simp add: nth_prims duplicateUnitInfo_def)
      have a: "(m_idToUnitInfoIndex p' key = Some i) = firstWith env us (Suc k) key i" for key i
        using idx [of key i] by (simp add: p' firstWith_incumbent [OF fw])
      have b: "m_unitInfo p' ! u =
          (if collides env us (Suc k) u then duplicateUnitInfo (us ! u) else NewUnitInfo (us ! u))"
        if u: "u < length us" for u
      proof (cases "u = k")
        case True
        with inc k len uk show ?thesis
          by (simp add: p' nth_prims col duplicateUnitInfo_def)
      next
        case nk: False
        show ?thesis
        proof (cases "u = inc")
          case True
          with inc linc units [of inc] st show ?thesis
            by (simp add: p' nth_prims col duplicateUnitInfo_def)
        next
          case False
          with nk units [OF u] show ?thesis
            by (simp add: p' nth_prims col)
        qed
      qed
      have c: "completedEvents u p' = (if collides env us (Suc k) u then 1 else 0)" for u
        using evs [of u] evs [of inc] evs [of k] st inc nk
        by (auto simp: p' completedEvents_def events_SendProgressIfNotComplete col)
      have d: "\<exists>u. collides env us (Suc k) u"
        using col [of k] by blast
      from a b c d ok len show ?thesis
        by (simp add: addedUnits_def p')
    qed
  qed
qed

lemma addUnitsToMap_append:
  "addUnitsToMap env (xs @ ys) r p =
     (case addUnitsToMap env xs r p of (r', p') \<Rightarrow> addUnitsToMap env ys r' p')"
  by (induction xs arbitrary: r p) (simp_all split: prod.splits)

lemma addUnitsToMap_addedUnits:
  "k \<le> length us \<Longrightarrow>
     addedUnits env us k (fst (addUnitsToMap env [0 ..< k] True (NewApplyProcessor us)))
       (snd (addUnitsToMap env [0 ..< k] True (NewApplyProcessor us)))"
proof (induction k)
  case 0
  show ?case by (simp add: addedUnits_start)
next
  case (Suc k)
  obtain r p where a: "addUnitsToMap env [0 ..< k] True (NewApplyProcessor us) = (r, p)"
    by (cases "addUnitsToMap env [0 ..< k] True (NewApplyProcessor us)")
  obtain ok p' where b: "AddUnitToMap env k p = (ok, p')"
    by (cases "AddUnitToMap env k p")
  from Suc a have "addedUnits env us k r p" "k < length us" by simp_all
  from AddUnitToMap_step [OF this b] a b show ?case
    by (simp add: addUnitsToMap_append)
qed

lemma duplicate_pair:
  assumes u: "u < length units" and v: "v < u"
    and iu: "Identifier (units ! u) \<noteq> []" and iv: "Identifier (units ! v) \<noteq> []"
    and same: "GetNormalizedIdentifier env (Identifier (units ! u)) =
               GetNormalizedIdentifier env (Identifier (units ! v))"
  shows "fst (AddUnitToMap env u (snd (addUnitsToMap env [0 ..< u] True (NewApplyProcessor units)))) = False"
    and "\<exists>p'. PreProcess env (NewApplyProcessor units) = (Inr False, p') \<and>
      m_resultCode p' = WINGET_CONFIG_ERROR_DUPLICATE_IDENTIFIER \<and>
      ResultInformation (m_unitInfo p' ! u) =
        \<lparr>ResultCode = WINGET_CONFIG_ERROR_DUPLICATE_IDENTIFIER, ResultSource = ConfigurationSet, Details = []\<rparr> \<and>
      ResultInformation (m_unitInfo p' ! v) =
        \<lparr>ResultCode = WINGET_CONFIG_ERROR_DUPLICATE_IDENTIFIER, ResultSource = ConfigurationSet, Details = []\<rparr> \<and>
      Result_State (m_unitInfo p' ! u) = Completed \<and> Result_State (m_unitInfo p' ! v) = Completed \<and>
      length (filter (isCompletedEventOf u) (m_events p')) = 1 \<and>
      length (filter (isCompletedEventOf v) (m_events p')) = 1 \<and>
      (\<forall>j < length units. DependencyIndices (m_unitInfo p' ! j) = []) \<and>
      (\<forall>j < length units. Identifier (units ! j) = [] \<longrightarrow>
         m_unitInfo p' ! j = NewUnitInfo (units ! j) \<and> (\<forall>key. m_idToUnitInfoIndex p' key \<noteq> Some j))"
proof -
  let ?p0 = "NewApplyProcessor units"
  let ?n = "length units"
  have nid: "normalizedId env units u = normalizedId env units v"
    using same by (simp add: normalizedId_def)
  \<comment> \<open>the turn of \<open>u\<close>\<close>
  obtain ru qu where au: "addUnitsToMap env [0 ..< u] True ?p0 = (ru, qu)"
    by (cases "addUnitsToMap env [0 ..< u] True ?p0")
  from addUnitsToMap_addedUnits [of u units env] u au have invu: "addedUnits env units u ru qu"
    by simp
  have "\<not> collides env units u u" by (simp add: collides_def)
  with invu u have "m_unitInfo qu ! u = NewUnitInfo (units ! u)"
    by (simp add: addedUnits_def)
  then have idu: "Identifier (Unit (m_unitInfo qu ! u)) = Identifier (units ! u)" by simp
  from firstWith_exists [of v u units env, OF v iv refl] obtain m where
    m: "firstWith env units u (normalizedId env units u) m"
    using nid by auto
  with invu have "m_idToUnitInfoIndex qu (normalizedId env units u) = Some m"
    by (simp add: addedUnits_def)
  with idu iu au show "fst (AddUnitToMap env u (snd (addUnitsToMap env [0 ..< u] True ?p0))) = False"
    by (simp add: AddUnitToMap_def Let_def normalizedId_def)
  \<comment> \<open>the end of the loop\<close>
  obtain r p where a: "addUnitsToMap env [0 ..< ?n] True ?p0 = (r, p)"
    by (cases "addUnitsToMap env [0 ..< ?n] True ?p0")
  from addUnitsToMap_addedUnits [of ?n units env] a have inv: "addedUnits env units ?n r p"
    by simp
  then have idx: "\<And>key i. (m_idToUnitInfoIndex p key = Some i) = firstWith env units ?n key i"
    and units: "\<And>j. j < ?n \<Longrightarrow>
        m_unitInfo p ! j =
          (if collides env units ?n j then duplicateUnitInfo (units ! j) else NewUnitInfo (units ! j))"
    and evs: "\<And>j. completedEvents j p = (if collides env units ?n j then 1 else 0)"
    and res: "r = (\<forall>j. \<not> collides env units ?n j)"
    by (simp_all add: addedUnits_def)
  have cu: "collides env units ?n u"
    using u v iu iv nid unfolding collides_def by (intro conjI exI [of _ v]) auto
  have cv: "collides env units ?n v"
    using u v iu iv nid unfolding collides_def by (intro conjI exI [of _ u]) auto
  from res cu have "\<not> r" by blast
  let ?p' = "p\<lparr>m_resultCode := WINGET_CONFIG_ERROR_DUPLICATE_IDENTIFIER\<rparr>"
  have pre: "PreProcess env ?p0 = (Inr False, ?p')"
    using a \<open>\<not> r\<close> by (simp add: PreProcess_def)
  have uu: "m_unitInfo ?p' ! u = duplicateUnitInfo (units ! u)"
    and uv: "m_unitInfo ?p' ! v = duplicateUnitInfo (units ! v)"
    using units [of u] units [of v] cu cv u v by simp_all
  have deps: "\<forall>j < ?n. DependencyIndices (m_unitInfo ?p' ! j) = []"
    using units by (simp add: duplicateUnitInfo_marked)
  have empty: "\<forall>j < ?n. Identifier (units ! j) = [] \<longrightarrow>
         m_unitInfo ?p' ! j = NewUnitInfo (units ! j) \<and> (\<forall>key. m_idToUnitInfoIndex ?p' key \<noteq> Some j)"
    using units idx by (auto simp: collides_def firstWith_def)
  have counts: "length (filter (isCompletedEventOf u) (m_events ?p')) = 1"
    "length (filter (isCompletedEventOf v) (m_events ?p')) = 1"
    using evs [of u] evs [of v] cu cv by (simp_all add: completedEvents_def)
  from pre uu uv deps empty counts
  show "\<exists>p'. PreProcess env ?p0 = (Inr False, p') \<and>
      m_resultCode p' = WINGET_CONFIG_ERROR_DUPLICATE_IDENTIFIER \<and>
      ResultInformation (m_unitInfo p' ! u) =
        \<lparr>ResultCode = WINGET_CONFIG_ERROR_DUPLICATE_IDENTIFIER, ResultSource = ConfigurationSet, Details = []\<rparr> \<and>
      ResultInformation (m_unitInfo p' ! v) =
        \<lparr>ResultCode = WINGET_CONFIG_ERROR_DUPLICATE_IDENTIFIER, ResultSource = ConfigurationSet, Details = []\<rparr> \<and>
      Result_State (m_unitInfo p' ! u) = Completed \<and> Result_State (m_unitInfo p' ! v) = Completed \<and>
      length (filter (isCompletedEventOf u) (m_events p')) = 1 \<and>
      length (filter (isCompletedEventOf v) (m_events p')) = 1 \<and>
      (\<forall>j < length units. DependencyIndices (m_unitInfo p' ! j) = []) \<and>
      (\<forall>j < length units. Identifier (units ! j) = [] \<longrightarrow>
         m_unitInfo p' ! j = NewUnitInfo (units ! j) \<and> (\<forall>key. m_idToUnitInfoIndex p' key \<noteq> Some j))"
    by (intro exI [of _ ?p']) (simp add: duplicateUnitInfo_marked)
qed

text \<open>
  Claim C3. \<^verbatim>\<open>AddUnitToMap\<close> on a unit with an empty identifier returns true and changes
  nothing. For two units \<open>v\<close>, \<open>u\<close> of a set (\<open>v\<close> before \<open>u\<close>) whose identifiers are not
  empty and have the same normal form: \<^verbatim>\<open>AddUnitToMap\<close> returns false at \<open>u\<close>;
  \<^verbatim>\<open>PreProcess\<close> returns false with the set result code \<open>DuplicateIdentifier\<close>; both units
  have the result \<open>DuplicateIdentifier\<close> with source \<open>ConfigurationSet\<close> and are completed,
  and exactly one \<open>Completed\<close> event was sent for each; no dependency was resolved; a unit
  with an empty identifier is as it was constructed and is not in the identifier index.
\<close>

theorem duplicate_identifiers_rejected:
  "(Identifier (Unit (m_unitInfo p ! i)) = [] \<longrightarrow> AddUnitToMap env i p = (True, p)) \<and>
   (u < length units \<and> v < u \<and> Identifier (units ! u) \<noteq> [] \<and> Identifier (units ! v) \<noteq> [] \<and>
    GetNormalizedIdentifier env (Identifier (units ! u)) =
      GetNormalizedIdentifier env (Identifier (units ! v)) \<longrightarrow>
    fst (AddUnitToMap env u (snd (addUnitsToMap env [0 ..< u] True (NewApplyProcessor units)))) = False \<and>
    (\<exists>p'. PreProcess env (NewApplyProcessor units) = (Inr False, p') \<and>
      m_resultCode p' = WINGET_CONFIG_ERROR_DUPLICATE_IDENTIFIER \<and>
      ResultInformation (m_unitInfo p' ! u) =
        \<lparr>ResultCode = WINGET_CONFIG_ERROR_DUPLICATE_IDENTIFIER, ResultSource = ConfigurationSet, Details = []\<rparr> \<and>
      ResultInformation (m_unitInfo p' ! v) =
        \<lparr>ResultCode = WINGET_CONFIG_ERROR_DUPLICATE_IDENTIFIER, ResultSource = ConfigurationSet, Details = []\<rparr> \<and>
      Result_State (m_unitInfo p' ! u) = Completed \<and> Result_State (m_unitInfo p' ! v) = Completed \<and>
      length (filter (isCompletedEventOf u) (m_events p')) = 1 \<and>
      length (filter (isCompletedEventOf v) (m_events p')) = 1 \<and>
      (\<forall>j < length units. DependencyIndices (m_unitInfo p' ! j) = []) \<and>
      (\<forall>j < length units. Identifier (units ! j) = [] \<longrightarrow>
         m_unitInfo p' ! j = NewUnitInfo (units ! j) \<and> (\<forall>key. m_idToUnitInfoIndex p' key \<noteq> Some j))))"
  using AddUnitToMap_empty [of p i env] duplicate_pair [of u units v env]
  by blast

theorem duplicate_identifiers_rejected_witness:
  "AddUnitToMap (testEnvironment Positive) 2 (NewApplyProcessor unitsU12) =
     (True, NewApplyProcessor unitsU12) \<and>
   fst (AddUnitToMap (testEnvironment Positive) 1
     (snd (addUnitsToMap (testEnvironment Positive) [0 ..< 1] True (NewApplyProcessor unitsU12)))) = False \<and>
   fst (PreProcess (testEnvironment Positive) (NewApplyProcessor unitsU12)) = Inr False \<and>
   length (filter (isCompletedEventOf 0)
     (m_events (snd (PreProcess (testEnvironment Positive) (NewApplyProcessor unitsU12))))) = 1"
proof -
  let ?env = "testEnvironment Positive"
  let ?p = "NewApplyProcessor unitsU12"
  have h1: "Identifier (Unit (m_unitInfo ?p ! 2)) = []"
    by code_simp
  have h2: "1 < length unitsU12 \<and> (0 :: nat) < 1 \<and> Identifier (unitsU12 ! 1) \<noteq> [] \<and>
      Identifier (unitsU12 ! 0) \<noteq> [] \<and>
      GetNormalizedIdentifier ?env (Identifier (unitsU12 ! 1)) =
        GetNormalizedIdentifier ?env (Identifier (unitsU12 ! 0))"
    by code_simp
  note inst = duplicate_identifiers_rejected [where p = ?p and i = 2 and env = ?env and u = 1 and v = 0
      and units = unitsU12]
  from inst [THEN conjunct1, THEN mp, OF h1] inst [THEN conjunct2, THEN mp, OF h2]
  show ?thesis by auto
qed

subsection \<open>The dry run\<close>

lemma PreProcess_validated:
  assumes "addUnitsToMap env [0 ..< length (m_unitInfo p)] True p = (True, p1)"
    and "resolveUnits env [0 ..< length (m_unitInfo p1)] True p1 = (True, p2)"
  shows "PreProcess env p =
     (case ProcessInternal HasPreprocessed MarkPreprocessed False p2 of
        (Inl e, p3) \<Rightarrow> (Inl e, p3)
      | (Inr False, p3) \<Rightarrow> (Inr False, p3\<lparr>m_resultCode := WINGET_CONFIG_ERROR_SET_DEPENDENCY_CYCLE\<rparr>)
      | (Inr True, p3) \<Rightarrow> (Inr True, p3))"
  using assms by (simp add: PreProcess_def)

text \<open>
  Claim C1 fails on the code. The set of A (Assert, depending on B) and B (Apply) passes the
  identifier and the dependency validation, and its dependency graph has the single edge from
  A to B, so it has no cycle; yet the dry run stalls in the Assert phase, where B cannot be
  preprocessed, and \<^verbatim>\<open>PreProcess\<close> returns false with the set result code
  \<open>DependencyCycle\<close>.
\<close>

theorem dry_run_stalls_without_cycle:
  "fst (addUnitsToMap (testEnvironment Positive) [0 ..< 2] True (NewApplyProcessor unitsAssertOnApply)) = True \<and>
   fst (resolveUnits (testEnvironment Positive) [0 ..< 2] True
         (snd (addUnitsToMap (testEnvironment Positive) [0 ..< 2] True
            (NewApplyProcessor unitsAssertOnApply)))) = True \<and>
   dependencyEdges (snd (PreProcess (testEnvironment Positive) (NewApplyProcessor unitsAssertOnApply))) =
     [(0, 1)] \<and>
   acyclic (set (dependencyEdges
     (snd (PreProcess (testEnvironment Positive) (NewApplyProcessor unitsAssertOnApply))))) \<and>
   fst (PreProcess (testEnvironment Positive) (NewApplyProcessor unitsAssertOnApply)) = Inr False \<and>
   m_resultCode (snd (PreProcess (testEnvironment Positive) (NewApplyProcessor unitsAssertOnApply))) =
     WINGET_CONFIG_ERROR_SET_DEPENDENCY_CYCLE \<and>
   map PreProcessed
     (m_unitInfo (snd (PreProcess (testEnvironment Positive) (NewApplyProcessor unitsAssertOnApply)))) =
     [False, False]"
proof -
  let ?p' = "snd (PreProcess (testEnvironment Positive) (NewApplyProcessor unitsAssertOnApply))"
  have edges: "dependencyEdges ?p' = [(0, 1)]"
    by code_simp
  have "acyclic (set [(0 :: nat, 1 :: nat)])"
    by (simp add: acyclic_insert wf_acyclic)
  with edges have "acyclic (set (dependencyEdges ?p'))"
    by simp
  moreover have
    "fst (addUnitsToMap (testEnvironment Positive) [0 ..< 2] True (NewApplyProcessor unitsAssertOnApply)) = True"
    "fst (resolveUnits (testEnvironment Positive) [0 ..< 2] True
         (snd (addUnitsToMap (testEnvironment Positive) [0 ..< 2] True
            (NewApplyProcessor unitsAssertOnApply)))) = True"
    "fst (PreProcess (testEnvironment Positive) (NewApplyProcessor unitsAssertOnApply)) = Inr False"
    "m_resultCode ?p' = WINGET_CONFIG_ERROR_SET_DEPENDENCY_CYCLE"
    "map PreProcessed (m_unitInfo ?p') = [False, False]"
    by code_simp+
  ultimately show ?thesis
    using edges by blast
qed

subsection \<open>The order of processing within a phase\<close>

lemma scanForReady_lowest:
  assumes "sorted_wrt (<) cands"
  shows "scanForReady chk intent p cands =
     (if readyUnits chk intent p cands = [] then None
      else Some (Min (set (readyUnits chk intent p cands)),
                 removeAll (Min (set (readyUnits chk intent p cands))) cands))"
proof (cases "scanForReady chk intent p cands")
  case None
  then have "readyUnits chk intent p cands = []"
    by (simp add: scanForReady_None readyUnits_def filter_empty_conv)
  with None show ?thesis by simp
next
  case (Some a)
  then obtain u rest where sc: "scanForReady chk intent p cands = Some (u, rest)"
    by (cases a) simp
  from scanForReady_split [OF sc] scanForReady_subset [OF sc]
  have u: "u \<in> set (readyUnits chk intent p cands)"
    by (auto simp: readyUnits_def)
  from scanForReady_sorted [OF sc assms]
  have rest: "rest = filter (\<lambda>v. v \<noteq> u) cands"
    and low: "\<forall>v \<in> set (readyUnits chk intent p cands). u \<le> v"
    by (auto simp: readyUnits_def)
  have "Min (set (readyUnits chk intent p cands)) = u"
    using u low by (intro Min_eqI) auto
  moreover have "removeAll u cands = filter (\<lambda>v. v \<noteq> u) cands"
    by (induction cands) auto
  ultimately show ?thesis
    using sc rest u by auto
qed

lemma processReadyUnits_lowest:
  "sorted_wrt (<) cands \<Longrightarrow>
     processReadyUnits chk f intent hasFailure cands p = spec_MainLoop chk f intent hasFailure cands p"
proof (induction chk f intent hasFailure cands p rule: processReadyUnits.induct)
  case (1 chk f intent hasFailure cands p)
  note sc = scanForReady_lowest [OF "1.prems", of chk intent p]
  show ?case
  proof (cases "readyUnits chk intent p cands = []")
    case True
    with sc show ?thesis
      by (subst processReadyUnits.simps, subst spec_MainLoop.simps) simp
  next
    case False
    let ?u = "Min (set (readyUnits chk intent p cands))"
    let ?rest = "removeAll ?u cands"
    from sc False have s: "scanForReady chk intent p cands = Some (?u, ?rest)" by simp
    from scanForReady_sorted [OF s "1.prems"] have sorted: "sorted_wrt (<) ?rest" by blast
    obtain x q where fu: "f ?u p = (x, q)" by (cases "f ?u p")
    show ?thesis
    proof (cases x)
      case (Inl e)
      with s fu False show ?thesis
        by (subst processReadyUnits.simps, subst spec_MainLoop.simps) simp
    next
      case (Inr ok)
      from "1.IH" [OF s refl fu [symmetric] Inr sorted]
      have "processReadyUnits chk f intent (if \<not> ok then True else hasFailure) ?rest q =
            spec_MainLoop chk f intent (if \<not> ok then True else hasFailure) ?rest q" .
      moreover have "(if \<not> ok then True else hasFailure) = (hasFailure \<or> \<not> ok)" by simp
      ultimately show ?thesis
        using s fu Inr False
        by (subst processReadyUnits.simps, subst spec_MainLoop.simps) simp
    qed
  qed
qed

lemma ProcessIntentInternal_classification:
  "ProcessIntentInternal cands chk f intent errorForOtherIntents errorForFailures sendProgress p =
     spec_PostLoopClassification intent errorForOtherIntents errorForFailures sendProgress
       (processReadyUnits chk f intent False cands p)"
  by (simp add: ProcessIntentInternal_def spec_PostLoopClassification_def Let_def
      split: prod.splits sum.splits)

lemma ProcessIntentInternal_lowest:
  "sorted_wrt (<) cands \<Longrightarrow>
     ProcessIntentInternal cands chk f intent errorForOtherIntents errorForFailures sendProgress p =
       spec_PhaseScheduler cands chk f intent errorForOtherIntents errorForFailures sendProgress p"
  by (simp add: ProcessIntentInternal_classification spec_PhaseScheduler_def processReadyUnits_lowest)

lemma ProcessIntentInternal_sorted:
  assumes "ProcessIntentInternal cands chk f intent e1 e2 sp p = (r, remaining, p')"
    and "sorted_wrt (<) cands"
  shows "sorted_wrt (<) remaining \<and> set remaining \<subseteq> set cands"
  using ProcessIntentInternal_remaining [OF assms(1)] processReadyUnits_sorted assms(2)
    processReadyUnits_subset by blast

lemma ProcessInternal_lowest:
  "ProcessInternal chk f sendProgress p = spec_PhaseSequence chk f sendProgress p"
proof -
  let ?n = "length (m_unitInfo p)"
  have s0: "sorted_wrt (<) [0 ..< ?n]"
    by (simp add: sorted_wrt_upt)
  obtain r1 c1 p1 where a: "ProcessIntentInternal [0 ..< ?n] chk f Assert
       WINGET_CONFIG_ERROR_ASSERTION_FAILED WINGET_CONFIG_ERROR_ASSERTION_FAILED sendProgress p = (r1, c1, p1)"
    using prod_cases3 by blast
  from ProcessIntentInternal_sorted [OF a s0] have s1: "sorted_wrt (<) c1" by simp
  obtain r2 c2 p2 where b: "ProcessIntentInternal c1 chk f Inform
       WINGET_CONFIG_ERROR_DEPENDENCY_UNSATISFIED WINGET_CONFIG_ERROR_DEPENDENCY_UNSATISFIED sendProgress p1 =
       (r2, c2, p2)"
    using prod_cases3 by blast
  from ProcessIntentInternal_sorted [OF b s1] have s2: "sorted_wrt (<) c2" by simp
  note a' = a [unfolded ProcessIntentInternal_lowest [OF s0]]
    and b' = b [unfolded ProcessIntentInternal_lowest [OF s1]]
  show ?thesis
    using a a' b b' ProcessIntentInternal_lowest [OF s2, of chk f Apply E_FAIL
        WINGET_CONFIG_ERROR_SET_APPLY_FAILED sendProgress p2]
    by (simp add: ProcessInternal_def spec_PhaseSequence_def Let_def split: sum.splits bool.splits)
qed

text \<open>
  Claim C6. The candidate list holds unit indices in input order (strictly increasing). When
  the scan finds a ready unit, that unit is a candidate that has the phase intent and satisfied
  dependencies, no ready candidate has a lower input position, the candidate list after the
  erase is the old one without that unit, still in input order, and the loop goes on with a new
  scan of that list from its front. When the scan finds none, no candidate is ready and the
  loop ends. So the loop of the source is the loop that always processes the ready candidate
  with the lowest input position, and a phase of the source on candidates in input order is the
  phase built on that loop; the list a phase leaves for the next one is again in input order.
  \<^verbatim>\<open>ProcessInternal\<close> starts from all unit indices in input order and hands each phase
  the list left by the one before, so in each of its phases the ready unit with the lowest
  input position is processed next: it is the phase sequence built on that loop.
\<close>

theorem lowest_ready_unit_first:
  "(sorted_wrt (<) cands \<longrightarrow>
      (\<forall>u rest. scanForReady chk intent p cands = Some (u, rest) \<longrightarrow>
          u \<in> set cands \<and>
          HasIntentAndSatisfiedDependencies p (m_unitInfo p ! u) intent chk \<and>
          (\<forall>v \<in> set cands.
             HasIntentAndSatisfiedDependencies p (m_unitInfo p ! v) intent chk \<longrightarrow> u \<le> v) \<and>
          rest = filter (\<lambda>v. v \<noteq> u) cands \<and> sorted_wrt (<) rest \<and>
          processReadyUnits chk f intent hasFailure cands p =
            (case f u p of
               (Inl e, p') \<Rightarrow> (Inl e, cands, p')
             | (Inr ok, p') \<Rightarrow>
                 processReadyUnits chk f intent (if \<not> ok then True else hasFailure) rest p')) \<and>
      (scanForReady chk intent p cands = None \<longrightarrow>
          (\<forall>v \<in> set cands. \<not> HasIntentAndSatisfiedDependencies p (m_unitInfo p ! v) intent chk) \<and>
          processReadyUnits chk f intent hasFailure cands p = (Inr hasFailure, cands, p)) \<and>
      processReadyUnits chk f intent hasFailure cands p = spec_MainLoop chk f intent hasFailure cands p \<and>
      ProcessIntentInternal cands chk f intent errorForOtherIntents errorForFailures sendProgress p =
        spec_PhaseScheduler cands chk f intent errorForOtherIntents errorForFailures sendProgress p \<and>
      (\<forall>r remaining p'.
          ProcessIntentInternal cands chk f intent errorForOtherIntents errorForFailures sendProgress p =
            (r, remaining, p') \<longrightarrow>
          sorted_wrt (<) remaining \<and> set remaining \<subseteq> set cands)) \<and>
   ProcessInternal chk f sendProgress p = spec_PhaseSequence chk f sendProgress p"
proof -
  have found: "u \<in> set cands \<and>
        HasIntentAndSatisfiedDependencies p (m_unitInfo p ! u) intent chk \<and>
        (\<forall>v \<in> set cands.
           HasIntentAndSatisfiedDependencies p (m_unitInfo p ! v) intent chk \<longrightarrow> u \<le> v) \<and>
        rest = filter (\<lambda>v. v \<noteq> u) cands \<and> sorted_wrt (<) rest \<and>
        processReadyUnits chk f intent hasFailure cands p =
          (case f u p of
             (Inl e, p') \<Rightarrow> (Inl e, cands, p')
           | (Inr ok, p') \<Rightarrow>
               processReadyUnits chk f intent (if \<not> ok then True else hasFailure) rest p')"
    if sorted: "sorted_wrt (<) cands" and sc: "scanForReady chk intent p cands = Some (u, rest)" for u rest
  proof -
    have "processReadyUnits chk f intent hasFailure cands p =
          (case f u p of
             (Inl e, p') \<Rightarrow> (Inl e, cands, p')
           | (Inr ok, p') \<Rightarrow>
               processReadyUnits chk f intent (if \<not> ok then True else hasFailure) rest p')"
      by (subst processReadyUnits.simps) (simp add: sc)
    moreover have "HasIntentAndSatisfiedDependencies p (m_unitInfo p ! u) intent chk"
      using scanForReady_split [OF sc] by blast
    ultimately show ?thesis
      using scanForReady_sorted [OF sc sorted] scanForReady_subset [OF sc] by blast
  qed
  have none: "(\<forall>v \<in> set cands. \<not> HasIntentAndSatisfiedDependencies p (m_unitInfo p ! v) intent chk) \<and>
        processReadyUnits chk f intent hasFailure cands p = (Inr hasFailure, cands, p)"
    if sc: "scanForReady chk intent p cands = None"
  proof -
    have "processReadyUnits chk f intent hasFailure cands p = (Inr hasFailure, cands, p)"
      by (subst processReadyUnits.simps) (simp add: sc)
    then show ?thesis using sc by (simp add: scanForReady_None)
  qed
  have loop: "processReadyUnits chk f intent hasFailure cands p =
        spec_MainLoop chk f intent hasFailure cands p"
    if "sorted_wrt (<) cands"
    using that by (rule processReadyUnits_lowest)
  have phase: "ProcessIntentInternal cands chk f intent errorForOtherIntents errorForFailures sendProgress p =
        spec_PhaseScheduler cands chk f intent errorForOtherIntents errorForFailures sendProgress p"
    if "sorted_wrt (<) cands"
    using that by (rule ProcessIntentInternal_lowest)
  have left: "sorted_wrt (<) remaining \<and> set remaining \<subseteq> set cands"
    if "sorted_wrt (<) cands"
      and "ProcessIntentInternal cands chk f intent errorForOtherIntents errorForFailures sendProgress p =
          (r, remaining, p')" for r remaining p'
    using ProcessIntentInternal_sorted [OF that(2,1)] .
  have whole: "ProcessInternal chk f sendProgress p = spec_PhaseSequence chk f sendProgress p"
    by (rule ProcessInternal_lowest)
  show ?thesis
    using found none loop phase left whole by blast
qed

theorem lowest_ready_unit_first_witness:
  "sorted_wrt (<) [0, 1, 2 :: nat] \<and>
   scanForReady HasPreprocessed Apply threeUnits [0, 1, 2] = Some (1, [0, 2]) \<and>
   HasIntentAndSatisfiedDependencies threeUnits (m_unitInfo threeUnits ! 2) Apply HasPreprocessed \<and>
   (1 :: nat) \<le> 2 \<and>
   processReadyUnits HasPreprocessed MarkPreprocessed Apply False [0, 1, 2] threeUnits =
     processReadyUnits HasPreprocessed MarkPreprocessed Apply False [0, 2]
       (snd (MarkPreprocessed 1 threeUnits)) \<and>
   fst (snd (processReadyUnits HasPreprocessed MarkPreprocessed Apply False [0, 1, 2] threeUnits)) = [] \<and>
   m_calls (snd (ProcessInternal HasProcessedSuccessfully (ProcessUnit (testEnvironment Positive)) True
                   startedCBA)) =
     [Call_CreateUnitProcessor 1, Call_TestSettings 1,
      Call_CreateUnitProcessor 2, Call_TestSettings 2,
      Call_CreateUnitProcessor 0, Call_TestSettings 0]"
proof -
  have h: "sorted_wrt (<) [0, 1, 2 :: nat]"
    by simp
  have sc: "scanForReady HasPreprocessed Apply threeUnits [0, 1, 2] = Some (1, [0, 2])"
    by code_simp
  have r2: "HasIntentAndSatisfiedDependencies threeUnits (m_unitInfo threeUnits ! 2) Apply HasPreprocessed"
    by code_simp
  note inst = lowest_ready_unit_first [of "[0, 1, 2]" HasPreprocessed Apply threeUnits MarkPreprocessed False
      E_FAIL WINGET_CONFIG_ERROR_SET_APPLY_FAILED False, THEN conjunct1, THEN mp, OF h]
  note found = inst [THEN conjunct1, rule_format, OF sc]
  from found have "processReadyUnits HasPreprocessed MarkPreprocessed Apply False [0, 1, 2] threeUnits =
     processReadyUnits HasPreprocessed MarkPreprocessed Apply False [0, 2]
       (snd (MarkPreprocessed 1 threeUnits))"
    by (simp add: MarkPreprocessed_def)
  moreover from found r2 have "(1 :: nat) \<le> 2"
    by simp
  moreover have "fst (snd (spec_MainLoop HasPreprocessed MarkPreprocessed Apply False [0, 1, 2] threeUnits)) = []"
    by code_simp
  with inst [THEN conjunct2, THEN conjunct2, THEN conjunct1]
  have "fst (snd (processReadyUnits HasPreprocessed MarkPreprocessed Apply False [0, 1, 2] threeUnits)) = []"
    by simp
  moreover have "m_calls (snd (spec_PhaseSequence HasProcessedSuccessfully (ProcessUnit (testEnvironment Positive))
                   True startedCBA)) =
     [Call_CreateUnitProcessor 1, Call_TestSettings 1,
      Call_CreateUnitProcessor 2, Call_TestSettings 2,
      Call_CreateUnitProcessor 0, Call_TestSettings 0]"
    by code_simp
  with lowest_ready_unit_first [of "[]" HasProcessedSuccessfully Apply startedCBA
      "ProcessUnit (testEnvironment Positive)" False E_FAIL E_FAIL True, THEN conjunct2]
  have "m_calls (snd (ProcessInternal HasProcessedSuccessfully (ProcessUnit (testEnvironment Positive)) True
                   startedCBA)) =
     [Call_CreateUnitProcessor 1, Call_TestSettings 1,
      Call_CreateUnitProcessor 2, Call_TestSettings 2,
      Call_CreateUnitProcessor 0, Call_TestSettings 0]"
    by simp
  ultimately show ?thesis using h sc r2 by blast
qed

subsection \<open>A failure in a phase of the real run\<close>

lemma processReadyUnits_keeps_other_intents:
  assumes run: "processReadyUnits chk (ProcessUnit env) intent hf cands p = (r, remaining, p')"
    and u: "u \<in> set cands" "Intent (Unit (m_unitInfo p ! u)) \<noteq> intent"
  shows "u \<in> set remaining"
proof -
  let ?P = "\<lambda>c q. u \<in> set c \<and> Unit (m_unitInfo q ! u) = Unit (m_unitInfo p ! u)"
  have "?P remaining p'"
  proof (rule processReadyUnits_rule [OF run, where P = "\<lambda>h c q. ?P c q" and Q = "\<lambda>r c q. ?P c q"])
    show "?P cands p" using u by simp
  next
    fix h c q v rest ok q'
    assume inv: "?P c q" and sc: "scanForReady chk intent q c = Some (v, rest)"
      and pu: "ProcessUnit env v q = (Inr ok, q')"
    from scanForReady_intent [OF sc] inv u(2) have ne: "v \<noteq> u" by auto
    from scanForReady_split [OF sc] inv ne have "u \<in> set rest" by auto
    moreover from ProcessUnit_frame [OF pu] ne have "m_unitInfo q' ! u = m_unitInfo q ! u"
      by (simp add: unitFrame_def)
    ultimately show "?P rest q'" using inv by simp
  next
    fix h c q v rest e q'
    assume inv: "?P c q" and sc: "scanForReady chk intent q c = Some (v, rest)"
      and pu: "ProcessUnit env v q = (Inl e, q')"
    from scanForReady_intent [OF sc] inv u(2) have ne: "v \<noteq> u" by auto
    from ProcessUnit_frame [OF pu] ne have "m_unitInfo q' ! u = m_unitInfo q ! u"
      by (simp add: unitFrame_def)
    with inv show "?P c q'" by simp
  qed
  then show ?thesis by simp
qed

lemma hasFailure_stays:
  assumes "processReadyUnits chk f intent True cands p = (Inr r, remaining, p')"
  shows "r"
proof -
  have "\<forall>b. (Inr r :: error + bool) = Inr b \<longrightarrow> b"
    by (rule processReadyUnits_rule [OF assms, where P = "\<lambda>h c q. h"
          and Q = "\<lambda>r c q. \<forall>b. r = Inr b \<longrightarrow> b"]) simp_all
  then show ?thesis by simp
qed

lemma failed_unit_sets_hasFailure:
  assumes "scanForReady chk intent p cands = Some (u, rest)" and "f u p = (Inr False, q)"
  shows "processReadyUnits chk f intent hf cands p = processReadyUnits chk f intent True rest q"
  by (subst processReadyUnits.simps) (simp add: assms)

lemma ProcessIntentInternal_candidates:
  assumes "ProcessIntentInternal cands chk (ProcessUnit env) intent e1 e2 sp p = (Inr True, remaining, p')"
  shows "set remaining \<subseteq> set cands \<and> sameUnits p p' \<and>
         (\<forall>u \<in> set cands. Intent (Unit (m_unitInfo p ! u)) \<noteq> intent \<longrightarrow> u \<in> set remaining)"
  using assms
proof (cases rule: ProcessIntentInternal_cases)
  case succeeded
  from processReadyUnits_subset [OF succeeded(2)] processReadyUnits_keeps_other_intents [OF succeeded(2)]
    sameUnits_ProcessIntentInternal [OF assms]
  show ?thesis by blast
qed simp_all

lemma failed_phase:
  assumes sub: "set cands \<subseteq> {..<length (m_unitInfo p)}"
    and run: "processReadyUnits HasProcessedSuccessfully (ProcessUnit env) intent False cands p =
          (Inr True, remaining, p1)"
  shows "\<exists>p'. ProcessIntentInternal cands HasProcessedSuccessfully (ProcessUnit env) intent
               errorForOtherIntents errorForFailures True p = (Inr False, remaining, p') \<and>
            m_resultCode p' = errorForFailures \<and>
            (\<forall>u \<in> set remaining. Intent (Unit (m_unitInfo p' ! u)) \<noteq> intent \<longrightarrow>
               markedSkipped errorForOtherIntents u p') \<and>
            (\<forall>u \<in> set cands. Intent (Unit (m_unitInfo p ! u)) \<noteq> intent \<longrightarrow>
               markedSkipped errorForOtherIntents u p')"
proof -
  from failure_marks_remaining [OF sub run, of errorForOtherIntents errorForFailures]
  obtain p' where ph: "ProcessIntentInternal cands HasProcessedSuccessfully (ProcessUnit env) intent
               errorForOtherIntents errorForFailures True p = (Inr False, remaining, p')"
    and code: "m_resultCode p' = errorForFailures"
    and mk: "\<forall>u \<in> set remaining. Intent (Unit (m_unitInfo p' ! u)) \<noteq> intent \<longrightarrow>
               markedSkipped errorForOtherIntents u p'"
    unfolding markedSkipped_def by blast
  from sameUnits_ProcessIntentInternal [OF ph] have same: "sameUnits p p'" .
  have "markedSkipped errorForOtherIntents u p'"
    if "u \<in> set cands" "Intent (Unit (m_unitInfo p ! u)) \<noteq> intent" for u
  proof -
    from processReadyUnits_keeps_other_intents [OF run that] have "u \<in> set remaining" .
    moreover from same that(2) have "Intent (Unit (m_unitInfo p' ! u)) \<noteq> intent"
      by (simp add: sameUnits_def)
    ultimately show ?thesis using mk by blast
  qed
  with ph code mk show ?thesis by blast
qed

lemma ProcessInternal_Assert_failed:
  assumes "ProcessIntentInternal [0 ..< length (m_unitInfo p)] chk f Assert
             WINGET_CONFIG_ERROR_ASSERTION_FAILED WINGET_CONFIG_ERROR_ASSERTION_FAILED sp p = (Inr False, c, p')"
  shows "ProcessInternal chk f sp p = (Inr False, p')"
  using assms by (simp add: ProcessInternal_def)

lemma ProcessInternal_Inform_failed:
  assumes "ProcessIntentInternal [0 ..< length (m_unitInfo p)] chk f Assert
             WINGET_CONFIG_ERROR_ASSERTION_FAILED WINGET_CONFIG_ERROR_ASSERTION_FAILED sp p = (Inr True, c1, p1)"
    and "ProcessIntentInternal c1 chk f Inform
             WINGET_CONFIG_ERROR_DEPENDENCY_UNSATISFIED WINGET_CONFIG_ERROR_DEPENDENCY_UNSATISFIED sp p1 =
           (Inr False, c2, p')"
  shows "ProcessInternal chk f sp p = (Inr False, p')"
  using assms by (simp add: ProcessInternal_def)

lemma ProcessInternal_Apply_ended:
  assumes "ProcessIntentInternal [0 ..< length (m_unitInfo p)] chk f Assert
             WINGET_CONFIG_ERROR_ASSERTION_FAILED WINGET_CONFIG_ERROR_ASSERTION_FAILED sp p = (Inr True, c1, p1)"
    and "ProcessIntentInternal c1 chk f Inform
             WINGET_CONFIG_ERROR_DEPENDENCY_UNSATISFIED WINGET_CONFIG_ERROR_DEPENDENCY_UNSATISFIED sp p1 =
           (Inr True, c2, p2)"
    and "ProcessIntentInternal c2 chk f Apply E_FAIL WINGET_CONFIG_ERROR_SET_APPLY_FAILED sp p2 = (r, c3, p')"
  shows "ProcessInternal chk f sp p = (r, p')"
  using assms by (simp add: ProcessInternal_def)

lemma Process_after_run:
  assumes "PreProcess env p0 = (Inr True, pv)"
    and "ProcessInternal HasProcessedSuccessfully (ProcessUnit env) True (SendProgressSet SetInProgress pv) =
           (Inr r, p')"
  shows "Process env p0 = (Inr (), SendProgressSet SetCompleted p')"
  using assms by (simp add: Process_def)

lemma Assert_phase_failure:
  assumes run: "processReadyUnits HasProcessedSuccessfully (ProcessUnit env) Assert False
          [0 ..< length (m_unitInfo p)] p = (Inr True, remaining, p1)"
  shows "\<exists>p'. ProcessIntentInternal [0 ..< length (m_unitInfo p)] HasProcessedSuccessfully (ProcessUnit env)
               Assert WINGET_CONFIG_ERROR_ASSERTION_FAILED WINGET_CONFIG_ERROR_ASSERTION_FAILED True p =
               (Inr False, remaining, p') \<and>
            ProcessInternal HasProcessedSuccessfully (ProcessUnit env) True p = (Inr False, p') \<and>
            m_resultCode p' = WINGET_CONFIG_ERROR_ASSERTION_FAILED \<and>
            (\<forall>u \<in> set remaining. Intent (Unit (m_unitInfo p' ! u)) \<noteq> Assert \<longrightarrow>
               markedSkipped WINGET_CONFIG_ERROR_ASSERTION_FAILED u p') \<and>
            (\<forall>u < length (m_unitInfo p). Intent (Unit (m_unitInfo p ! u)) \<noteq> Assert \<longrightarrow>
               markedSkipped WINGET_CONFIG_ERROR_ASSERTION_FAILED u p')"
proof -
  have sub: "set [0 ..< length (m_unitInfo p)] \<subseteq> {..<length (m_unitInfo p)}" by auto
  from failed_phase [OF sub run, of WINGET_CONFIG_ERROR_ASSERTION_FAILED WINGET_CONFIG_ERROR_ASSERTION_FAILED]
  obtain p' where ph: "ProcessIntentInternal [0 ..< length (m_unitInfo p)] HasProcessedSuccessfully
               (ProcessUnit env) Assert WINGET_CONFIG_ERROR_ASSERTION_FAILED
               WINGET_CONFIG_ERROR_ASSERTION_FAILED True p = (Inr False, remaining, p')"
    and rest: "m_resultCode p' = WINGET_CONFIG_ERROR_ASSERTION_FAILED"
      "\<forall>u \<in> set remaining. Intent (Unit (m_unitInfo p' ! u)) \<noteq> Assert \<longrightarrow>
               markedSkipped WINGET_CONFIG_ERROR_ASSERTION_FAILED u p'"
      "\<forall>u \<in> set [0 ..< length (m_unitInfo p)]. Intent (Unit (m_unitInfo p ! u)) \<noteq> Assert \<longrightarrow>
               markedSkipped WINGET_CONFIG_ERROR_ASSERTION_FAILED u p'"
    by blast
  from rest(3) have "\<forall>u < length (m_unitInfo p). Intent (Unit (m_unitInfo p ! u)) \<noteq> Assert \<longrightarrow>
               markedSkipped WINGET_CONFIG_ERROR_ASSERTION_FAILED u p'"
    by simp
  with ph rest(1,2) ProcessInternal_Assert_failed [OF ph] show ?thesis by blast
qed

lemma Inform_phase_failure:
  assumes a: "ProcessIntentInternal [0 ..< length (m_unitInfo p)] HasProcessedSuccessfully (ProcessUnit env)
               Assert WINGET_CONFIG_ERROR_ASSERTION_FAILED WINGET_CONFIG_ERROR_ASSERTION_FAILED True p =
               (Inr True, afterAssert, pA)"
    and run: "processReadyUnits HasProcessedSuccessfully (ProcessUnit env) Inform False afterAssert pA =
               (Inr True, remaining, p1)"
  shows "\<exists>p'. ProcessIntentInternal afterAssert HasProcessedSuccessfully (ProcessUnit env)
               Inform WINGET_CONFIG_ERROR_DEPENDENCY_UNSATISFIED WINGET_CONFIG_ERROR_DEPENDENCY_UNSATISFIED
               True pA = (Inr False, remaining, p') \<and>
            ProcessInternal HasProcessedSuccessfully (ProcessUnit env) True p = (Inr False, p') \<and>
            m_resultCode p' = WINGET_CONFIG_ERROR_DEPENDENCY_UNSATISFIED \<and>
            (\<forall>u \<in> set remaining. Intent (Unit (m_unitInfo p' ! u)) \<noteq> Inform \<longrightarrow>
               markedSkipped WINGET_CONFIG_ERROR_DEPENDENCY_UNSATISFIED u p') \<and>
            (\<forall>u < length (m_unitInfo p).
               Intent (Unit (m_unitInfo p ! u)) \<noteq> Assert \<and> Intent (Unit (m_unitInfo p ! u)) \<noteq> Inform \<longrightarrow>
               markedSkipped WINGET_CONFIG_ERROR_DEPENDENCY_UNSATISFIED u p')"
proof -
  from ProcessIntentInternal_candidates [OF a]
  have c1: "set afterAssert \<subseteq> {..<length (m_unitInfo p)}" and s1: "sameUnits p pA"
    and k1: "\<forall>u < length (m_unitInfo p). Intent (Unit (m_unitInfo p ! u)) \<noteq> Assert \<longrightarrow> u \<in> set afterAssert"
    by auto
  from c1 s1 have sub: "set afterAssert \<subseteq> {..<length (m_unitInfo pA)}"
    by (simp add: sameUnits_def)
  from failed_phase [OF sub run, of WINGET_CONFIG_ERROR_DEPENDENCY_UNSATISFIED
      WINGET_CONFIG_ERROR_DEPENDENCY_UNSATISFIED]
  obtain p' where ph: "ProcessIntentInternal afterAssert HasProcessedSuccessfully (ProcessUnit env)
               Inform WINGET_CONFIG_ERROR_DEPENDENCY_UNSATISFIED WINGET_CONFIG_ERROR_DEPENDENCY_UNSATISFIED
               True pA = (Inr False, remaining, p')"
    and rest: "m_resultCode p' = WINGET_CONFIG_ERROR_DEPENDENCY_UNSATISFIED"
      "\<forall>u \<in> set remaining. Intent (Unit (m_unitInfo p' ! u)) \<noteq> Inform \<longrightarrow>
               markedSkipped WINGET_CONFIG_ERROR_DEPENDENCY_UNSATISFIED u p'"
      "\<forall>u \<in> set afterAssert. Intent (Unit (m_unitInfo pA ! u)) \<noteq> Inform \<longrightarrow>
               markedSkipped WINGET_CONFIG_ERROR_DEPENDENCY_UNSATISFIED u p'"
    by blast
  have "markedSkipped WINGET_CONFIG_ERROR_DEPENDENCY_UNSATISFIED u p'"
    if "u < length (m_unitInfo p)" "Intent (Unit (m_unitInfo p ! u)) \<noteq> Assert"
      "Intent (Unit (m_unitInfo p ! u)) \<noteq> Inform" for u
  proof -
    from k1 that have "u \<in> set afterAssert" by blast
    moreover from s1 that(3) have "Intent (Unit (m_unitInfo pA ! u)) \<noteq> Inform"
      by (simp add: sameUnits_def)
    ultimately show ?thesis using rest(3) by blast
  qed
  with ph rest(1,2) ProcessInternal_Inform_failed [OF a ph] show ?thesis by blast
qed

lemma Apply_phase_failure:
  assumes a: "ProcessIntentInternal [0 ..< length (m_unitInfo p)] HasProcessedSuccessfully (ProcessUnit env)
               Assert WINGET_CONFIG_ERROR_ASSERTION_FAILED WINGET_CONFIG_ERROR_ASSERTION_FAILED True p =
               (Inr True, afterAssert, pA)"
    and b: "ProcessIntentInternal afterAssert HasProcessedSuccessfully (ProcessUnit env)
               Inform WINGET_CONFIG_ERROR_DEPENDENCY_UNSATISFIED WINGET_CONFIG_ERROR_DEPENDENCY_UNSATISFIED
               True pA = (Inr True, afterInform, pI)"
    and run: "processReadyUnits HasProcessedSuccessfully (ProcessUnit env) Apply False afterInform pI =
               (Inr True, remaining, p1)"
  shows "\<exists>p'. ProcessIntentInternal afterInform HasProcessedSuccessfully (ProcessUnit env)
               Apply E_FAIL WINGET_CONFIG_ERROR_SET_APPLY_FAILED True pI = (Inr False, remaining, p') \<and>
            ProcessInternal HasProcessedSuccessfully (ProcessUnit env) True p = (Inr False, p') \<and>
            m_resultCode p' = WINGET_CONFIG_ERROR_SET_APPLY_FAILED \<and>
            (\<forall>u \<in> set remaining. Intent (Unit (m_unitInfo p' ! u)) \<noteq> Apply \<longrightarrow>
               markedSkipped E_FAIL u p') \<and>
            (\<forall>u < length (m_unitInfo p). Intent (Unit (m_unitInfo p ! u)) = OtherIntent \<longrightarrow>
               markedSkipped E_FAIL u p')"
proof -
  from ProcessIntentInternal_candidates [OF a]
  have c1: "set afterAssert \<subseteq> {..<length (m_unitInfo p)}" and s1: "sameUnits p pA"
    and k1: "\<forall>u < length (m_unitInfo p). Intent (Unit (m_unitInfo p ! u)) \<noteq> Assert \<longrightarrow> u \<in> set afterAssert"
    by auto
  from ProcessIntentInternal_candidates [OF b]
  have c2: "set afterInform \<subseteq> set afterAssert" and s2: "sameUnits pA pI"
    and k2: "\<forall>u \<in> set afterAssert. Intent (Unit (m_unitInfo pA ! u)) \<noteq> Inform \<longrightarrow> u \<in> set afterInform"
    by auto
  from c1 c2 s1 s2 have sub: "set afterInform \<subseteq> {..<length (m_unitInfo pI)}"
    by (auto simp: sameUnits_def)
  from failed_phase [OF sub run, of E_FAIL WINGET_CONFIG_ERROR_SET_APPLY_FAILED]
  obtain p' where ph: "ProcessIntentInternal afterInform HasProcessedSuccessfully (ProcessUnit env)
               Apply E_FAIL WINGET_CONFIG_ERROR_SET_APPLY_FAILED True pI = (Inr False, remaining, p')"
    and rest: "m_resultCode p' = WINGET_CONFIG_ERROR_SET_APPLY_FAILED"
      "\<forall>u \<in> set remaining. Intent (Unit (m_unitInfo p' ! u)) \<noteq> Apply \<longrightarrow> markedSkipped E_FAIL u p'"
      "\<forall>u \<in> set afterInform. Intent (Unit (m_unitInfo pI ! u)) \<noteq> Apply \<longrightarrow> markedSkipped E_FAIL u p'"
    by blast
  have "markedSkipped E_FAIL u p'"
    if "u < length (m_unitInfo p)" "Intent (Unit (m_unitInfo p ! u)) = OtherIntent" for u
  proof -
    from k1 that have "u \<in> set afterAssert" by simp
    moreover from s1 that(2) have "Intent (Unit (m_unitInfo pA ! u)) = OtherIntent"
      by (simp add: sameUnits_def)
    ultimately have "u \<in> set afterInform" using k2 by simp
    moreover from s1 s2 that(2) have "Intent (Unit (m_unitInfo pI ! u)) \<noteq> Apply"
      by (simp add: sameUnits_def)
    ultimately show ?thesis using rest(3) by blast
  qed
  with ph rest(1,2) ProcessInternal_Apply_ended [OF a b ph] show ?thesis by blast
qed

text \<open>
  Claim C2, amended. In the real run (\<^verbatim>\<open>ProcessInternal\<close> with \<^verbatim>\<open>HasProcessedSuccessfully\<close>,
  \<^verbatim>\<open>ProcessUnit\<close> and progress, as \<^verbatim>\<open>Process\<close> calls it), let a unit fail during a phase
  whose loop is not left by the cancellation exception: the loop of the phase ends with
  \<open>hasFailure\<close>, which a result false of \<^verbatim>\<open>ProcessUnit\<close> sets and nothing resets. Then the
  phase returns false, so does \<^verbatim>\<open>ProcessInternal\<close> without running a later phase, the set
  result code is the \<^verbatim>\<open>errorForFailures\<close> of the phase (\<open>AssertionFailed\<close>,
  \<open>DependencyUnsatisfied\<close>, \<open>SetApplyFailed\<close>), and every unit still in the candidate list whose
  intent is not the phase's is marked with the \<^verbatim>\<open>errorForOtherIntents\<close> of the phase
  (\<open>AssertionFailed\<close> in the Assert phase, \<open>DependencyUnsatisfied\<close> in the Inform phase,
  \<open>E_FAIL\<close> in the Apply phase) and source \<open>Precondition\<close>, is in state \<open>Skipped\<close> and has a
  \<open>Skipped\<close> event. These are all units of the later phases: every unit that is not an
  assertion in the Assert phase, every unit that is neither an assertion nor of intent Inform
  in the Inform phase. \<^verbatim>\<open>Process\<close> then emits the set-level \<open>Completed\<close> event and returns.
  For G and H, both end with \<open>AssertionFailed\<close>, H is skipped, and the set result code is
  \<open>AssertionFailed\<close>.
\<close>

theorem failed_phase_marks_other_intents:
  "(\<forall>remaining p1.
      processReadyUnits HasProcessedSuccessfully (ProcessUnit env) Assert False
        [0 ..< length (m_unitInfo p)] p = (Inr True, remaining, p1) \<longrightarrow>
      (\<exists>p'. ProcessIntentInternal [0 ..< length (m_unitInfo p)] HasProcessedSuccessfully (ProcessUnit env)
               Assert WINGET_CONFIG_ERROR_ASSERTION_FAILED WINGET_CONFIG_ERROR_ASSERTION_FAILED True p =
               (Inr False, remaining, p') \<and>
            ProcessInternal HasProcessedSuccessfully (ProcessUnit env) True p = (Inr False, p') \<and>
            m_resultCode p' = WINGET_CONFIG_ERROR_ASSERTION_FAILED \<and>
            (\<forall>u \<in> set remaining. Intent (Unit (m_unitInfo p' ! u)) \<noteq> Assert \<longrightarrow>
               markedSkipped WINGET_CONFIG_ERROR_ASSERTION_FAILED u p') \<and>
            (\<forall>u < length (m_unitInfo p). Intent (Unit (m_unitInfo p ! u)) \<noteq> Assert \<longrightarrow>
               markedSkipped WINGET_CONFIG_ERROR_ASSERTION_FAILED u p'))) \<and>
   (\<forall>afterAssert pA remaining p1.
      ProcessIntentInternal [0 ..< length (m_unitInfo p)] HasProcessedSuccessfully (ProcessUnit env)
        Assert WINGET_CONFIG_ERROR_ASSERTION_FAILED WINGET_CONFIG_ERROR_ASSERTION_FAILED True p =
        (Inr True, afterAssert, pA) \<and>
      processReadyUnits HasProcessedSuccessfully (ProcessUnit env) Inform False afterAssert pA =
        (Inr True, remaining, p1) \<longrightarrow>
      (\<exists>p'. ProcessIntentInternal afterAssert HasProcessedSuccessfully (ProcessUnit env)
               Inform WINGET_CONFIG_ERROR_DEPENDENCY_UNSATISFIED WINGET_CONFIG_ERROR_DEPENDENCY_UNSATISFIED
               True pA = (Inr False, remaining, p') \<and>
            ProcessInternal HasProcessedSuccessfully (ProcessUnit env) True p = (Inr False, p') \<and>
            m_resultCode p' = WINGET_CONFIG_ERROR_DEPENDENCY_UNSATISFIED \<and>
            (\<forall>u \<in> set remaining. Intent (Unit (m_unitInfo p' ! u)) \<noteq> Inform \<longrightarrow>
               markedSkipped WINGET_CONFIG_ERROR_DEPENDENCY_UNSATISFIED u p') \<and>
            (\<forall>u < length (m_unitInfo p).
               Intent (Unit (m_unitInfo p ! u)) \<noteq> Assert \<and> Intent (Unit (m_unitInfo p ! u)) \<noteq> Inform \<longrightarrow>
               markedSkipped WINGET_CONFIG_ERROR_DEPENDENCY_UNSATISFIED u p'))) \<and>
   (\<forall>afterAssert pA afterInform pI remaining p1.
      ProcessIntentInternal [0 ..< length (m_unitInfo p)] HasProcessedSuccessfully (ProcessUnit env)
        Assert WINGET_CONFIG_ERROR_ASSERTION_FAILED WINGET_CONFIG_ERROR_ASSERTION_FAILED True p =
        (Inr True, afterAssert, pA) \<and>
      ProcessIntentInternal afterAssert HasProcessedSuccessfully (ProcessUnit env)
        Inform WINGET_CONFIG_ERROR_DEPENDENCY_UNSATISFIED WINGET_CONFIG_ERROR_DEPENDENCY_UNSATISFIED
        True pA = (Inr True, afterInform, pI) \<and>
      processReadyUnits HasProcessedSuccessfully (ProcessUnit env) Apply False afterInform pI =
        (Inr True, remaining, p1) \<longrightarrow>
      (\<exists>p'. ProcessIntentInternal afterInform HasProcessedSuccessfully (ProcessUnit env)
               Apply E_FAIL WINGET_CONFIG_ERROR_SET_APPLY_FAILED True pI = (Inr False, remaining, p') \<and>
            ProcessInternal HasProcessedSuccessfully (ProcessUnit env) True p = (Inr False, p') \<and>
            m_resultCode p' = WINGET_CONFIG_ERROR_SET_APPLY_FAILED \<and>
            (\<forall>u \<in> set remaining. Intent (Unit (m_unitInfo p' ! u)) \<noteq> Apply \<longrightarrow>
               markedSkipped E_FAIL u p') \<and>
            (\<forall>u < length (m_unitInfo p). Intent (Unit (m_unitInfo p ! u)) = OtherIntent \<longrightarrow>
               markedSkipped E_FAIL u p'))) \<and>
   (\<forall>intent cands u rest q hasFailure.
      scanForReady HasProcessedSuccessfully intent p cands = Some (u, rest) \<and>
      ProcessUnit env u p = (Inr False, q) \<longrightarrow>
      processReadyUnits HasProcessedSuccessfully (ProcessUnit env) intent hasFailure cands p =
        processReadyUnits HasProcessedSuccessfully (ProcessUnit env) intent True rest q) \<and>
   (\<forall>intent cands r remaining p1.
      processReadyUnits HasProcessedSuccessfully (ProcessUnit env) intent True cands p =
        (Inr r, remaining, p1) \<longrightarrow> r) \<and>
   (\<forall>p0 pv r p'.
      PreProcess env p0 = (Inr True, pv) \<and> p = SendProgressSet SetInProgress pv \<and>
      ProcessInternal HasProcessedSuccessfully (ProcessUnit env) True p = (Inr r, p') \<longrightarrow>
      Process env p0 = (Inr (), SendProgressSet SetCompleted p')) \<and>
   (fst (Process (testEnvironment Negative) (NewApplyProcessor unitsGH)) = Inr () \<and>
    ResultInformation (m_unitInfo (snd (Process (testEnvironment Negative) (NewApplyProcessor unitsGH))) ! 0) =
      \<lparr>ResultCode = WINGET_CONFIG_ERROR_ASSERTION_FAILED, ResultSource = Precondition, Details = []\<rparr> \<and>
    ResultInformation (m_unitInfo (snd (Process (testEnvironment Negative) (NewApplyProcessor unitsGH))) ! 1) =
      \<lparr>ResultCode = WINGET_CONFIG_ERROR_ASSERTION_FAILED, ResultSource = Precondition, Details = []\<rparr> \<and>
    Result_State (m_unitInfo (snd (Process (testEnvironment Negative) (NewApplyProcessor unitsGH))) ! 1) = Skipped \<and>
    m_events (snd (Process (testEnvironment Negative) (NewApplyProcessor unitsGH))) =
      [SetStateChange SetInProgress,
       UnitStateChange InProgress \<lparr>ResultCode = S_OK, ResultSource = SourceNone, Details = []\<rparr> 0,
       UnitStateChange Completed
         \<lparr>ResultCode = WINGET_CONFIG_ERROR_ASSERTION_FAILED, ResultSource = Precondition, Details = []\<rparr> 0,
       UnitStateChange Skipped
         \<lparr>ResultCode = WINGET_CONFIG_ERROR_ASSERTION_FAILED, ResultSource = Precondition, Details = []\<rparr> 1,
       SetStateChange SetCompleted] \<and>
    m_resultCode (snd (Process (testEnvironment Negative) (NewApplyProcessor unitsGH))) =
      WINGET_CONFIG_ERROR_ASSERTION_FAILED)"
proof -
  have assertPhase: "\<exists>p'. ProcessIntentInternal [0 ..< length (m_unitInfo p)] HasProcessedSuccessfully (ProcessUnit env)
               Assert WINGET_CONFIG_ERROR_ASSERTION_FAILED WINGET_CONFIG_ERROR_ASSERTION_FAILED True p =
               (Inr False, remaining, p') \<and>
            ProcessInternal HasProcessedSuccessfully (ProcessUnit env) True p = (Inr False, p') \<and>
            m_resultCode p' = WINGET_CONFIG_ERROR_ASSERTION_FAILED \<and>
            (\<forall>u \<in> set remaining. Intent (Unit (m_unitInfo p' ! u)) \<noteq> Assert \<longrightarrow>
               markedSkipped WINGET_CONFIG_ERROR_ASSERTION_FAILED u p') \<and>
            (\<forall>u < length (m_unitInfo p). Intent (Unit (m_unitInfo p ! u)) \<noteq> Assert \<longrightarrow>
               markedSkipped WINGET_CONFIG_ERROR_ASSERTION_FAILED u p')"
    if "processReadyUnits HasProcessedSuccessfully (ProcessUnit env) Assert False
        [0 ..< length (m_unitInfo p)] p = (Inr True, remaining, p1)" for remaining p1
    using that by (rule Assert_phase_failure)
  have informPhase: "\<exists>p'. ProcessIntentInternal afterAssert HasProcessedSuccessfully (ProcessUnit env)
               Inform WINGET_CONFIG_ERROR_DEPENDENCY_UNSATISFIED WINGET_CONFIG_ERROR_DEPENDENCY_UNSATISFIED
               True pA = (Inr False, remaining, p') \<and>
            ProcessInternal HasProcessedSuccessfully (ProcessUnit env) True p = (Inr False, p') \<and>
            m_resultCode p' = WINGET_CONFIG_ERROR_DEPENDENCY_UNSATISFIED \<and>
            (\<forall>u \<in> set remaining. Intent (Unit (m_unitInfo p' ! u)) \<noteq> Inform \<longrightarrow>
               markedSkipped WINGET_CONFIG_ERROR_DEPENDENCY_UNSATISFIED u p') \<and>
            (\<forall>u < length (m_unitInfo p).
               Intent (Unit (m_unitInfo p ! u)) \<noteq> Assert \<and> Intent (Unit (m_unitInfo p ! u)) \<noteq> Inform \<longrightarrow>
               markedSkipped WINGET_CONFIG_ERROR_DEPENDENCY_UNSATISFIED u p')"
    if "ProcessIntentInternal [0 ..< length (m_unitInfo p)] HasProcessedSuccessfully (ProcessUnit env)
        Assert WINGET_CONFIG_ERROR_ASSERTION_FAILED WINGET_CONFIG_ERROR_ASSERTION_FAILED True p =
        (Inr True, afterAssert, pA) \<and>
      processReadyUnits HasProcessedSuccessfully (ProcessUnit env) Inform False afterAssert pA =
        (Inr True, remaining, p1)" for afterAssert pA remaining p1
    by (rule Inform_phase_failure [OF that [THEN conjunct1] that [THEN conjunct2]])
  have applyPhase: "\<exists>p'. ProcessIntentInternal afterInform HasProcessedSuccessfully (ProcessUnit env)
               Apply E_FAIL WINGET_CONFIG_ERROR_SET_APPLY_FAILED True pI = (Inr False, remaining, p') \<and>
            ProcessInternal HasProcessedSuccessfully (ProcessUnit env) True p = (Inr False, p') \<and>
            m_resultCode p' = WINGET_CONFIG_ERROR_SET_APPLY_FAILED \<and>
            (\<forall>u \<in> set remaining. Intent (Unit (m_unitInfo p' ! u)) \<noteq> Apply \<longrightarrow>
               markedSkipped E_FAIL u p') \<and>
            (\<forall>u < length (m_unitInfo p). Intent (Unit (m_unitInfo p ! u)) = OtherIntent \<longrightarrow>
               markedSkipped E_FAIL u p')"
    if "ProcessIntentInternal [0 ..< length (m_unitInfo p)] HasProcessedSuccessfully (ProcessUnit env)
        Assert WINGET_CONFIG_ERROR_ASSERTION_FAILED WINGET_CONFIG_ERROR_ASSERTION_FAILED True p =
        (Inr True, afterAssert, pA) \<and>
      ProcessIntentInternal afterAssert HasProcessedSuccessfully (ProcessUnit env)
        Inform WINGET_CONFIG_ERROR_DEPENDENCY_UNSATISFIED WINGET_CONFIG_ERROR_DEPENDENCY_UNSATISFIED
        True pA = (Inr True, afterInform, pI) \<and>
      processReadyUnits HasProcessedSuccessfully (ProcessUnit env) Apply False afterInform pI =
        (Inr True, remaining, p1)" for afterAssert pA afterInform pI remaining p1
    by (rule Apply_phase_failure [OF that [THEN conjunct1] that [THEN conjunct2, THEN conjunct1]
          that [THEN conjunct2, THEN conjunct2]])
  have sticks: "r"
    if "processReadyUnits HasProcessedSuccessfully (ProcessUnit env) intent True cands p =
        (Inr r, remaining, p1)" for intent cands r remaining p1
    using that by (rule hasFailure_stays)
  have sets: "processReadyUnits HasProcessedSuccessfully (ProcessUnit env) intent hasFailure cands p =
        processReadyUnits HasProcessedSuccessfully (ProcessUnit env) intent True rest q"
    if "scanForReady HasProcessedSuccessfully intent p cands = Some (u, rest) \<and>
      ProcessUnit env u p = (Inr False, q)" for intent cands u rest q hasFailure
    using that failed_unit_sets_hasFailure [of HasProcessedSuccessfully intent p cands u rest "ProcessUnit env" q]
    by blast
  have returns: "Process env p0 = (Inr (), SendProgressSet SetCompleted p')"
    if "PreProcess env p0 = (Inr True, pv) \<and> p = SendProgressSet SetInProgress pv \<and>
      ProcessInternal HasProcessedSuccessfully (ProcessUnit env) True p = (Inr r, p')" for p0 pv r p'
    using that Process_after_run [of env p0 pv r p'] by blast
  show ?thesis
    apply (intro conjI allI impI)
    subgoal for remaining p1 by (rule assertPhase)
    subgoal for afterAssert pA remaining p1 by (rule informPhase)
    subgoal for afterAssert pA afterInform pI remaining p1 by (rule applyPhase)
    subgoal for intent cands u rest q hasFailure by (rule sets)
    subgoal for intent cands r remaining p1 by (rule sticks)
    subgoal for p0 pv r p' by (rule returns)
    using scenario_GH by simp_all
qed

theorem failed_phase_marks_other_intents_witness:
  "fst (processReadyUnits HasProcessedSuccessfully (ProcessUnit (testEnvironment Negative)) Assert False
          [0 ..< length (m_unitInfo startedGH)] startedGH) = Inr True \<and>
   fst (ProcessInternal HasProcessedSuccessfully (ProcessUnit (testEnvironment Negative)) True startedGH) =
     Inr False \<and>
   m_resultCode (snd (ProcessInternal HasProcessedSuccessfully (ProcessUnit (testEnvironment Negative)) True
     startedGH)) = WINGET_CONFIG_ERROR_ASSERTION_FAILED \<and>
   markedSkipped WINGET_CONFIG_ERROR_ASSERTION_FAILED 1
     (snd (ProcessInternal HasProcessedSuccessfully (ProcessUnit (testEnvironment Negative)) True startedGH)) \<and>
   fst (ProcessIntentInternal [0 ..< length (m_unitInfo startedIK)] HasProcessedSuccessfully
          (ProcessUnit refusingEnvironment) Assert WINGET_CONFIG_ERROR_ASSERTION_FAILED
          WINGET_CONFIG_ERROR_ASSERTION_FAILED True startedIK) = Inr True \<and>
   fst (ProcessInternal HasProcessedSuccessfully (ProcessUnit refusingEnvironment) True startedIK) =
     Inr False \<and>
   m_resultCode (snd (ProcessInternal HasProcessedSuccessfully (ProcessUnit refusingEnvironment) True
     startedIK)) = WINGET_CONFIG_ERROR_DEPENDENCY_UNSATISFIED \<and>
   markedSkipped WINGET_CONFIG_ERROR_DEPENDENCY_UNSATISFIED 1
     (snd (ProcessInternal HasProcessedSuccessfully (ProcessUnit refusingEnvironment) True startedIK)) \<and>
   fst (ProcessInternal HasProcessedSuccessfully (ProcessUnit refusingEnvironment) True startedLO) =
     Inr False \<and>
   m_resultCode (snd (ProcessInternal HasProcessedSuccessfully (ProcessUnit refusingEnvironment) True
     startedLO)) = WINGET_CONFIG_ERROR_SET_APPLY_FAILED \<and>
   markedSkipped E_FAIL 1
     (snd (ProcessInternal HasProcessedSuccessfully (ProcessUnit refusingEnvironment) True startedLO))"
proof -
  let ?G = "testEnvironment Negative"
  let ?R = "refusingEnvironment"
  let ?loopG = "processReadyUnits HasProcessedSuccessfully (ProcessUnit ?G) Assert False
          [0 ..< length (m_unitInfo startedGH)] startedGH"
  have g1: "fst ?loopG = Inr True"
    by code_simp
  then have g2: "?loopG = (Inr True, fst (snd ?loopG), snd (snd ?loopG))"
    by (metis prod.collapse)
  have g3: "1 < length (m_unitInfo startedGH)" "Intent (Unit (m_unitInfo startedGH ! 1)) \<noteq> Assert"
    by code_simp+
  from failed_phase_marks_other_intents [of ?G startedGH, THEN conjunct1, rule_format, OF g2]
  obtain pG where "ProcessInternal HasProcessedSuccessfully (ProcessUnit ?G) True startedGH = (Inr False, pG)"
    and "m_resultCode pG = WINGET_CONFIG_ERROR_ASSERTION_FAILED"
    and "\<forall>u < length (m_unitInfo startedGH). Intent (Unit (m_unitInfo startedGH ! u)) \<noteq> Assert \<longrightarrow>
           markedSkipped WINGET_CONFIG_ERROR_ASSERTION_FAILED u pG"
    by blast
  with g3 have G: "fst (ProcessInternal HasProcessedSuccessfully (ProcessUnit ?G) True startedGH) = Inr False"
    "m_resultCode (snd (ProcessInternal HasProcessedSuccessfully (ProcessUnit ?G) True startedGH)) =
       WINGET_CONFIG_ERROR_ASSERTION_FAILED"
    "markedSkipped WINGET_CONFIG_ERROR_ASSERTION_FAILED 1
       (snd (ProcessInternal HasProcessedSuccessfully (ProcessUnit ?G) True startedGH))"
    by simp_all
  let ?aI = "ProcessIntentInternal [0 ..< length (m_unitInfo startedIK)] HasProcessedSuccessfully
          (ProcessUnit ?R) Assert WINGET_CONFIG_ERROR_ASSERTION_FAILED
          WINGET_CONFIG_ERROR_ASSERTION_FAILED True startedIK"
  let ?loopI = "processReadyUnits HasProcessedSuccessfully (ProcessUnit ?R) Inform False
          (fst (snd ?aI)) (snd (snd ?aI))"
  have i1: "fst ?aI = Inr True"
    by code_simp
  then have i2: "?aI = (Inr True, fst (snd ?aI), snd (snd ?aI))"
    by (metis prod.collapse)
  have i3: "fst ?loopI = Inr True"
    by code_simp
  then have i4: "?loopI = (Inr True, fst (snd ?loopI), snd (snd ?loopI))"
    by (metis prod.collapse)
  have i5: "1 < length (m_unitInfo startedIK)" "Intent (Unit (m_unitInfo startedIK ! 1)) \<noteq> Assert"
    "Intent (Unit (m_unitInfo startedIK ! 1)) \<noteq> Inform"
    by code_simp+
  from failed_phase_marks_other_intents [of ?R startedIK, THEN conjunct2, THEN conjunct1, rule_format,
      OF conjI [OF i2 i4]]
  obtain pI where "ProcessInternal HasProcessedSuccessfully (ProcessUnit ?R) True startedIK = (Inr False, pI)"
    and "m_resultCode pI = WINGET_CONFIG_ERROR_DEPENDENCY_UNSATISFIED"
    and "\<forall>u < length (m_unitInfo startedIK).
           Intent (Unit (m_unitInfo startedIK ! u)) \<noteq> Assert \<and>
           Intent (Unit (m_unitInfo startedIK ! u)) \<noteq> Inform \<longrightarrow>
           markedSkipped WINGET_CONFIG_ERROR_DEPENDENCY_UNSATISFIED u pI"
    by blast
  with i5 have I: "fst (ProcessInternal HasProcessedSuccessfully (ProcessUnit ?R) True startedIK) = Inr False"
    "m_resultCode (snd (ProcessInternal HasProcessedSuccessfully (ProcessUnit ?R) True startedIK)) =
       WINGET_CONFIG_ERROR_DEPENDENCY_UNSATISFIED"
    "markedSkipped WINGET_CONFIG_ERROR_DEPENDENCY_UNSATISFIED 1
       (snd (ProcessInternal HasProcessedSuccessfully (ProcessUnit ?R) True startedIK))"
    by simp_all
  let ?aL = "ProcessIntentInternal [0 ..< length (m_unitInfo startedLO)] HasProcessedSuccessfully
          (ProcessUnit ?R) Assert WINGET_CONFIG_ERROR_ASSERTION_FAILED
          WINGET_CONFIG_ERROR_ASSERTION_FAILED True startedLO"
  let ?bL = "ProcessIntentInternal (fst (snd ?aL)) HasProcessedSuccessfully
          (ProcessUnit ?R) Inform WINGET_CONFIG_ERROR_DEPENDENCY_UNSATISFIED
          WINGET_CONFIG_ERROR_DEPENDENCY_UNSATISFIED True (snd (snd ?aL))"
  let ?loopL = "processReadyUnits HasProcessedSuccessfully (ProcessUnit ?R) Apply False
          (fst (snd ?bL)) (snd (snd ?bL))"
  have l1: "fst ?aL = Inr True"
    by code_simp
  then have l2: "?aL = (Inr True, fst (snd ?aL), snd (snd ?aL))"
    by (metis prod.collapse)
  have l3: "fst ?bL = Inr True"
    by code_simp
  then have l4: "?bL = (Inr True, fst (snd ?bL), snd (snd ?bL))"
    by (metis prod.collapse)
  have l5: "fst ?loopL = Inr True"
    by code_simp
  then have l6: "?loopL = (Inr True, fst (snd ?loopL), snd (snd ?loopL))"
    by (metis prod.collapse)
  have l7: "1 < length (m_unitInfo startedLO)" "Intent (Unit (m_unitInfo startedLO ! 1)) = OtherIntent"
    by code_simp+
  from failed_phase_marks_other_intents [of ?R startedLO, THEN conjunct2, THEN conjunct2, THEN conjunct1,
      rule_format, OF conjI [OF l2 conjI [OF l4 l6]]]
  obtain pL where "ProcessInternal HasProcessedSuccessfully (ProcessUnit ?R) True startedLO = (Inr False, pL)"
    and "m_resultCode pL = WINGET_CONFIG_ERROR_SET_APPLY_FAILED"
    and "\<forall>u < length (m_unitInfo startedLO). Intent (Unit (m_unitInfo startedLO ! u)) = OtherIntent \<longrightarrow>
           markedSkipped E_FAIL u pL"
    by blast
  with l7 have L: "fst (ProcessInternal HasProcessedSuccessfully (ProcessUnit ?R) True startedLO) = Inr False"
    "m_resultCode (snd (ProcessInternal HasProcessedSuccessfully (ProcessUnit ?R) True startedLO)) =
       WINGET_CONFIG_ERROR_SET_APPLY_FAILED"
    "markedSkipped E_FAIL 1
       (snd (ProcessInternal HasProcessedSuccessfully (ProcessUnit ?R) True startedLO))"
    by simp_all
  from g1 G i1 I L show ?thesis
    by (intro conjI)
qed

end
